theory Spec2Isabelle
  imports Main "HOL-Library.Log_Nat"
begin

section \<open>Data model (api/v1alpha1 and the parts of the Kubernetes API the code reads)\<close>

text \<open>
  Go's fixed-width integers are modelled as \<open>int\<close>. The scheduling strategies only
  compare them, so no wrap-around can occur there; where the controller increments a
  counter the wrap-around is written out (\<open>int32_wrap\<close> below).

  A Kubernetes \<open>ResourceList\<close> maps a resource name to a quantity; the code only ever
  reads \<open>quantity.Value()\<close>, so the model stores that \<open>int64\<close> value. A nil Go map
  behaves as the empty map on lookup, so \<open>Labels != nil\<close> followed by a lookup is a
  lookup in a partial map.
\<close>

type_synonym ResourceList = "string \<rightharpoonup> int"

record NodeCondition =
  cond_Type :: string
  cond_Status :: string

record Node =
  node_Name :: string
  node_Labels :: "string \<rightharpoonup> string"
  Allocatable :: ResourceList
  Capacity :: ResourceList
  Conditions :: "NodeCondition list"

record RetryPolicy =
  MaxRetries :: int
  BackoffSeconds :: int

record GPUWorkloadSpec =
  ModelName :: string
  GPUCount :: int
  Priority :: string
  SchedulingStrategy :: string
  RetryPolicy :: "RetryPolicy option"

type_synonym GPUWorkloadPhase = string

definition PhasePending :: GPUWorkloadPhase where "PhasePending = ''Pending''"
definition PhaseScheduling :: GPUWorkloadPhase where "PhaseScheduling = ''Scheduling''"
definition PhaseScheduled :: GPUWorkloadPhase where "PhaseScheduled = ''Scheduled''"
definition PhaseRunning :: GPUWorkloadPhase where "PhaseRunning = ''Running''"
definition PhaseFailed :: GPUWorkloadPhase where "PhaseFailed = ''Failed''"
definition PhaseSucceeded :: GPUWorkloadPhase where "PhaseSucceeded = ''Succeeded''"

record GPUWorkloadStatus =
  Phase :: GPUWorkloadPhase
  AssignedNode :: string
  LastScheduleTime :: "int option"
  RetryCount :: int
  Message :: string
  JobName :: string

record GPUWorkload =
  APIVersion :: string
  Kind :: string
  Name :: string
  Namespace :: string
  UID :: string
  DeletionTimestamp :: "int option"
  Finalizers :: "string list"
  Spec :: GPUWorkloadSpec
  Status :: GPUWorkloadStatus

section \<open>Scheduling strategies (internal/scheduling)\<close>

subsection \<open>Reading a decimal count from a label\<close>

text \<open>
  \<open>getAvailableGPUs\<close> reads a label with \<open>fmt.Sscanf(gpuLabel, "%d", &count)\<close> into an
  \<open>int64\<close> and ignores the error, so \<open>count\<close> stays 0 whenever the scan fails. \<open>Sscanf\<close>
  is Go's library, not code of this repository; \<open>sscanf_d\<close> follows what it does for the
  verb \<open>%d\<close> on ASCII input (a label value of Kubernetes is ASCII): leading blanks are
  skipped (a newline is an error), one sign is accepted, then the longest run of the
  characters \<open>0-9\<close> is the token, and whatever follows it is left unread; the scan
  fails when the token is empty or its value does not fit \<open>int64\<close>.
\<close>

definition is_blank :: "char \<Rightarrow> bool" where
  "is_blank c \<longleftrightarrow> c \<in> {CHR '' '', CHR 0x09, CHR 0x0B, CHR 0x0C, CHR 0x0D}"

definition is_digit :: "char \<Rightarrow> bool" where
  "is_digit c \<longleftrightarrow> c \<in> set ''0123456789''"

definition digit_val :: "char \<Rightarrow> int" where
  "digit_val c = int (of_char c) - 48"

definition decimal_val :: "string \<Rightarrow> int" where
  "decimal_val ds = foldl (\<lambda>acc c. 10 * acc + digit_val c) 0 ds"

definition in_int64 :: "int \<Rightarrow> bool" where
  "in_int64 v \<longleftrightarrow> - (2 ^ 63) \<le> v \<and> v < 2 ^ 63"

definition sscanf_d :: "string \<Rightarrow> int option" where
  "sscanf_d s =
     (let s1 = dropWhile is_blank s;
          neg = (s1 \<noteq> [] \<and> hd s1 = CHR ''-'');
          s2 = (if s1 \<noteq> [] \<and> (hd s1 = CHR ''-'' \<or> hd s1 = CHR ''+'') then tl s1 else s1);
          tok = takeWhile is_digit s2;
          v = (if neg then - decimal_val tok else decimal_val tok)
      in if tok = [] \<or> \<not> in_int64 v then None else Some v)"

subsection \<open>getAvailableGPUs\<close>

definition getAvailableGPUs :: "Node \<Rightarrow> int" where
  "getAvailableGPUs node =
     (case Allocatable node ''nvidia.com/gpu'' of
        Some quantity \<Rightarrow> quantity
      | None \<Rightarrow>
         (case Capacity node ''nvidia.com/gpu'' of
            Some quantity \<Rightarrow> quantity
          | None \<Rightarrow>
             (case node_Labels node ''nvidia.com/gpu'' of
                Some gpuLabel \<Rightarrow>
                  (let count = (case sscanf_d gpuLabel of Some c \<Rightarrow> c | None \<Rightarrow> 0)
                   in if count > 0 then count else 0)
              | None \<Rightarrow> 0)))"

subsection \<open>Errors of the strategies\<close>

text \<open>
  The strategies return two different \<open>fmt.Errorf\<close> errors; the second carries the
  requested GPU count. A nil pointer dereference panics; it is a third outcome.
\<close>

datatype sched_error =
    NoSuitableNodes
  | NotEnoughGPUs int
  | NilPointerDereference

subsection \<open>LeastLoadedStrategy\<close>

text \<open>
  The loop \<open>for i, node := range nodes\<close> with its two variables \<open>bestNode\<close> (a pointer
  to \<open>nodes[i]\<close>, here the index \<open>i\<close>) and \<open>maxAvailableGPUs\<close>. The first argument is
  the required count \<open>int64(gw.Spec.GPUCount)\<close>, the second the index of the head of
  the remaining list.
\<close>

fun leastLoaded_loop :: "int \<Rightarrow> nat \<Rightarrow> Node list \<Rightarrow> nat option \<times> int \<Rightarrow> nat option \<times> int" where
  "leastLoaded_loop need i [] st = st"
| "leastLoaded_loop need i (node # rest) (bestNode, maxAvailableGPUs) =
     (let availableGPUs = getAvailableGPUs node
      in if availableGPUs \<ge> need \<and> availableGPUs > maxAvailableGPUs
         then leastLoaded_loop need (Suc i) rest (Some i, availableGPUs)
         else leastLoaded_loop need (Suc i) rest (bestNode, maxAvailableGPUs))"

definition LeastLoaded_index :: "Node list \<Rightarrow> GPUWorkload \<Rightarrow> sched_error + nat" where
  "LeastLoaded_index nodes gw =
     (if length nodes = 0 then Inl NoSuitableNodes
      else case fst (leastLoaded_loop (GPUCount (Spec gw)) 0 nodes (None, - 1)) of
             None \<Rightarrow> Inl (NotEnoughGPUs (GPUCount (Spec gw)))
           | Some i \<Rightarrow> Inr i)"

definition LeastLoaded_ChooseNode :: "Node list \<Rightarrow> GPUWorkload \<Rightarrow> sched_error + Node" where
  "LeastLoaded_ChooseNode nodes gw =
     (case LeastLoaded_index nodes gw of Inl e \<Rightarrow> Inl e | Inr i \<Rightarrow> Inr (nodes ! i))"

subsection \<open>RandomStrategy\<close>

text \<open>
  \<open>rand.Intn(n)\<close> returns a number in \<open>[0, n)\<close>; the model takes the raw random number
  as an argument and reduces it modulo \<open>n\<close>.
\<close>

definition Random_ChooseNode :: "nat \<Rightarrow> Node list \<Rightarrow> GPUWorkload \<Rightarrow> sched_error + Node" where
  "Random_ChooseNode rnd nodes gw =
     (if length nodes = 0 then Inl NoSuitableNodes
      else let suitableNodes = filter (\<lambda>node. getAvailableGPUs node \<ge> GPUCount (Spec gw)) nodes
           in if length suitableNodes = 0 then Inl (NotEnoughGPUs (GPUCount (Spec gw)))
              else Inr (suitableNodes ! (rnd mod length suitableNodes)))"

subsection \<open>CostOptimizedStrategy\<close>

definition is_cheap :: "Node \<Rightarrow> bool" where
  "is_cheap node \<longleftrightarrow>
     (case node_Labels node ''gpu-orchestrator/cheap-node'' of
        Some isCheap \<Rightarrow> isCheap = ''true''
      | None \<Rightarrow> False)"

definition cheapNodes_of :: "Node list \<Rightarrow> GPUWorkload \<Rightarrow> Node list" where
  "cheapNodes_of nodes gw =
     filter (\<lambda>node. is_cheap node \<and> getAvailableGPUs node \<ge> GPUCount (Spec gw)) nodes"

text \<open>The second loop of \<open>CostOptimizedStrategy.ChooseNode\<close>: no capacity test.\<close>

fun cheap_loop :: "nat \<Rightarrow> Node list \<Rightarrow> nat option \<times> int \<Rightarrow> nat option \<times> int" where
  "cheap_loop i [] st = st"
| "cheap_loop i (node # rest) (bestNode, maxAvailableGPUs) =
     (let availableGPUs = getAvailableGPUs node
      in if availableGPUs > maxAvailableGPUs
         then cheap_loop (Suc i) rest (Some i, availableGPUs)
         else cheap_loop (Suc i) rest (bestNode, maxAvailableGPUs))"

text \<open>
  After the loop the code reads \<open>bestNode.Name\<close> for the log line without a nil check:
  a nil \<open>bestNode\<close> panics.
\<close>

definition CostOptimized_ChooseNode :: "Node list \<Rightarrow> GPUWorkload \<Rightarrow> sched_error + Node" where
  "CostOptimized_ChooseNode nodes gw =
     (if length nodes = 0 then Inl NoSuitableNodes
      else let cheapNodes = cheapNodes_of nodes gw
           in if length cheapNodes > 0
              then (case fst (cheap_loop 0 cheapNodes (None, - 1)) of
                      None \<Rightarrow> Inl NilPointerDereference
                    | Some i \<Rightarrow> Inr (cheapNodes ! i))
              else LeastLoaded_ChooseNode nodes gw)"

subsection \<open>Factory\<close>

datatype Strategy = LeastLoadedStrategy | RandomStrategy | CostOptimizedStrategy

definition Factory :: "string \<Rightarrow> Strategy" where
  "Factory strategyName =
     (if strategyName = ''leastLoaded'' then LeastLoadedStrategy
      else if strategyName = ''random'' then RandomStrategy
      else if strategyName = ''costOptimized'' then CostOptimizedStrategy
      else LeastLoadedStrategy)"

definition Strategy_Name :: "Strategy \<Rightarrow> string" where
  "Strategy_Name s =
     (case s of LeastLoadedStrategy \<Rightarrow> ''leastLoaded''
              | RandomStrategy \<Rightarrow> ''random''
              | CostOptimizedStrategy \<Rightarrow> ''costOptimized'')"

definition ChooseNode :: "Strategy \<Rightarrow> nat \<Rightarrow> Node list \<Rightarrow> GPUWorkload \<Rightarrow> sched_error + Node" where
  "ChooseNode s rnd nodes gw =
     (case s of LeastLoadedStrategy \<Rightarrow> LeastLoaded_ChooseNode nodes gw
              | RandomStrategy \<Rightarrow> Random_ChooseNode rnd nodes gw
              | CostOptimizedStrategy \<Rightarrow> CostOptimized_ChooseNode nodes gw)"

subsection \<open>What the specification asks of a least-loaded choice\<close>

text \<open>
  Index \<open>i\<close> is the least-loaded choice for a required count: node \<open>i\<close> qualifies, no
  qualifying node has more available GPUs, and every earlier node has strictly fewer
  (so among equally good nodes the first in input order is taken).
\<close>

definition first_best :: "int \<Rightarrow> Node list \<Rightarrow> nat \<Rightarrow> bool" where
  "first_best need nodes i \<longleftrightarrow>
     i < length nodes \<and> need \<le> getAvailableGPUs (nodes ! i) \<and>
     (\<forall>j < length nodes. need \<le> getAvailableGPUs (nodes ! j) \<longrightarrow>
        getAvailableGPUs (nodes ! j) \<le> getAvailableGPUs (nodes ! i)) \<and>
     (\<forall>j < i. getAvailableGPUs (nodes ! j) < getAvailableGPUs (nodes ! i))"

text \<open>The node of the test helper \<open>createMockNode\<close>.\<close>

definition createMockNode :: "string \<Rightarrow> int \<Rightarrow> Node" where
  "createMockNode name gpuCount =
     \<lparr> node_Name = name, node_Labels = Map.empty,
       Allocatable = [''nvidia.com/gpu'' \<mapsto> gpuCount],
       Capacity = [''nvidia.com/gpu'' \<mapsto> gpuCount],
       Conditions = [\<lparr> cond_Type = ''Ready'', cond_Status = ''True'' \<rparr>] \<rparr>"

definition createMockGPUWorkload :: "int \<Rightarrow> GPUWorkload" where
  "createMockGPUWorkload gpuCount =
     \<lparr> APIVersion = [], Kind = [], Name = ''test-workload'', Namespace = ''default'',
       UID = [], DeletionTimestamp = None, Finalizers = [],
       Spec = \<lparr> ModelName = ''test-model'', GPUCount = gpuCount, Priority = [],
                SchedulingStrategy = [], RetryPolicy = None \<rparr>,
       Status = \<lparr> Phase = [], AssignedNode = [], LastScheduleTime = None,
                  RetryCount = 0, Message = [], JobName = [] \<rparr> \<rparr>"

text \<open>The two nodes of \<open>TestCostOptimizedStrategy_PrefersLabeledNodes\<close>.\<close>

definition cheap_node :: Node where
  "cheap_node = (createMockNode ''cheap-node'' 4)\<lparr> node_Labels := [''gpu-orchestrator/cheap-node'' \<mapsto> ''true''] \<rparr>"

definition expensive_node :: Node where
  "expensive_node = (createMockNode ''expensive-node'' 8)\<lparr> node_Labels := [''gpu-orchestrator/cheap-node'' \<mapsto> ''false''] \<rparr>"

text \<open>A second labelled node, with more GPUs than the first and fewer than the unlabelled one.\<close>

definition cheap_node_6 :: Node where
  "cheap_node_6 = (createMockNode ''cheap-node-6'' 6)\<lparr> node_Labels := [''gpu-orchestrator/cheap-node'' \<mapsto> ''true''] \<rparr>"

section \<open>Backoff (internal/backoff)\<close>

subsection \<open>IEEE 754 binary64 arithmetic\<close>

text \<open>
  \<open>NextBackoff\<close> computes in \<open>float64\<close>. A finite \<open>float64\<close> is a rational number, so
  the model computes with \<open>rat\<close> and rounds the exact result of every conversion and
  multiplication to the nearest \<open>float64\<close>, ties to the even significand, as IEEE 754
  prescribes and Go implements: a significand of 53 bits above \<open>2\<^sup>-\<^sup>1\<^sup>0\<^sup>2\<^sup>2\<close>, and the fixed
  spacing \<open>2\<^sup>-\<^sup>1\<^sup>0\<^sup>7\<^sup>4\<close> of the subnormal numbers below. No operation of \<open>NextBackoff\<close>
  can reach \<open>2\<^sup>1\<^sup>0\<^sup>2\<^sup>4\<close> (its operands are bounded by \<open>2\<^sup>6\<^sup>3\<close> and \<open>2\<^sup>1\<^sup>0\<close>), so overflow to
  infinity is not modelled.
\<close>

definition round_half_even :: "rat \<Rightarrow> int" where
  "round_half_even q =
     (let f = \<lfloor>q\<rfloor>; d = q - of_int f
      in if d < 1 / 2 then f
         else if d > 1 / 2 then f + 1
         else if even f then f else f + 1)"

text \<open>\<open>ilog2 x\<close> is the binary exponent of a positive \<open>x\<close>: \<open>2 powi ilog2 x \<le> x < 2 powi (ilog2 x + 1)\<close>.\<close>

definition ilog2 :: "rat \<Rightarrow> int" where
  "ilog2 x =
     (if 1 \<le> x then bitlen \<lfloor>x\<rfloor> - 1
      else let k = bitlen \<lfloor>1 / x\<rfloor> - 1
           in if x = 2 powi (- k) then - k else - k - 1)"

definition float64 :: "rat \<Rightarrow> rat" where
  "float64 x =
     (if x = 0 then 0
      else let e = max (ilog2 \<bar>x\<bar>) (- 1022);
               ulp = 2 powi (e - 52)
           in of_int (round_half_even (x / ulp)) * ulp)"

text \<open>The constant \<open>0.1\<close> of the source is the \<open>float64\<close> nearest to one tenth.\<close>

definition tenth :: rat where
  "tenth = 3602879701896397 / 2 ^ 55"

text \<open>
  \<open>math.Pow(2, float64(attempt))\<close> for an integer \<open>attempt\<close> that is at most 10: the
  power of two itself down to the smallest subnormal \<open>2\<^sup>-\<^sup>1\<^sup>0\<^sup>7\<^sup>4\<close>, and 0 below.
\<close>

definition Pow2 :: "int \<Rightarrow> rat" where
  "Pow2 n = (if n < - 1074 then 0 else 2 powi n)"

subsection \<open>Durations\<close>

text \<open>
  A \<open>time.Duration\<close> is an \<open>int64\<close> count of nanoseconds. Converting a \<open>float64\<close> to it
  truncates toward zero; Go leaves the result implementation-dependent when the value
  is out of the range of \<open>int64\<close>, which is the outcome \<open>None\<close>. Addition of durations
  wraps around.
\<close>

definition Second :: int where
  "Second = 1000000000"

definition Minute :: int where
  "Minute = 60 * Second"

definition Duration_of_float64 :: "rat \<Rightarrow> int option" where
  "Duration_of_float64 f =
     (let t = (if 0 \<le> f then \<lfloor>f\<rfloor> else \<lceil>f\<rceil>)
      in if in_int64 t then Some t else None)"

definition int64_wrap :: "int \<Rightarrow> int" where
  "int64_wrap v = (v + 2 ^ 63) mod 2 ^ 64 - 2 ^ 63"

subsection \<open>NextBackoff\<close>

text \<open>
  The third argument is the value that \<open>rand.Float64()\<close> returns in this call, a
  \<open>float64\<close> in \<open>[0, 1)\<close>: its largest possible value is \<open>1 - 2\<^sup>-\<^sup>5\<^sup>3\<close>.
\<close>

definition NextBackoff :: "int \<Rightarrow> int \<Rightarrow> rat \<Rightarrow> int option" where
  "NextBackoff base attempt0 rnd =
     (let maxAttempt = 10;
          attempt = (if attempt0 > maxAttempt then maxAttempt else attempt0);
          exponentialDuration0 = float64 (float64 (of_int base) * Pow2 attempt);
          maxDuration = 5 * Minute
      in case Duration_of_float64 exponentialDuration0 of
           None \<Rightarrow> None
         | Some d0 \<Rightarrow>
             let exponentialDuration =
                   (if d0 > maxDuration then float64 (of_int maxDuration) else exponentialDuration0)
             in (case Duration_of_float64 (float64 (float64 (rnd * exponentialDuration) * tenth)) of
                   None \<Rightarrow> None
                 | Some jitter \<Rightarrow>
                     (case Duration_of_float64 exponentialDuration of
                        None \<Rightarrow> None
                      | Some d \<Rightarrow> Some (int64_wrap (d + jitter)))))"

definition max_rand_Float64 :: rat where
  "max_rand_Float64 = 1 - 1 / 2 ^ 53"

definition ShouldRetry :: "int \<Rightarrow> int \<Rightarrow> bool" where
  "ShouldRetry currentRetries maxRetries \<longleftrightarrow> currentRetries < maxRetries"

section \<open>The controller (controllers/gpuworkload_controller.go)\<close>

subsection \<open>Formatting and 32-bit arithmetic\<close>

text \<open>\<open>fmt.Sprintf("%d", n)\<close>: the decimal digits of \<open>n\<close>, after a minus sign when \<open>n < 0\<close>.\<close>

fun decimal :: "nat \<Rightarrow> string" where
  "decimal n =
     (if n < 10 then [char_of (48 + n)]
      else decimal (n div 10) @ [char_of (48 + n mod 10)])"

declare decimal.simps [simp del]

definition Sprintf_d :: "int \<Rightarrow> string" where
  "Sprintf_d n = (if n < 0 then CHR ''-'' # decimal (nat (- n)) else decimal (nat n))"

definition in_int32 :: "int \<Rightarrow> bool" where
  "in_int32 v \<longleftrightarrow> - (2 ^ 31) \<le> v \<and> v < 2 ^ 31"

definition int32_wrap :: "int \<Rightarrow> int" where
  "int32_wrap v = (v + 2 ^ 31) mod 2 ^ 32 - 2 ^ 31"

subsection \<open>The cluster behind the API client\<close>

type_synonym NamespacedName = "string \<times> string"

record OwnerReference =
  owner_APIVersion :: string
  owner_Kind :: string
  owner_Name :: string
  owner_UID :: string
  owner_Controller :: bool

record Job =
  job_Name :: string
  job_Namespace :: string
  job_Labels :: "string \<rightharpoonup> string"
  job_Annotations :: "string \<rightharpoonup> string"
  job_OwnerReferences :: "OwnerReference list"
  job_BackoffLimit :: int
  pod_Labels :: "string \<rightharpoonup> string"
  pod_RestartPolicy :: string
  pod_NodeName :: string
  container_Name :: string
  container_Image :: string
  container_Env :: "(string \<times> string) list"
  container_Requests :: ResourceList
  container_Limits :: ResourceList

text \<open>Errors of the API client; \<open>Error\<close> stands for \<open>err.Error()\<close>.\<close>

datatype api_error = NotFound | AlreadyExists | Conflict | ServerError

definition IgnoreNotFound :: "api_error \<Rightarrow> api_error option" where
  "IgnoreNotFound err = (if err = NotFound then None else Some err)"

definition api_Error :: "api_error \<Rightarrow> string" where
  "api_Error err =
     (case err of NotFound \<Rightarrow> ''not found''
                | AlreadyExists \<Rightarrow> ''already exists''
                | Conflict \<Rightarrow> ''the object has been modified''
                | ServerError \<Rightarrow> ''internal error'')"

definition sched_Error :: "sched_error \<Rightarrow> string" where
  "sched_Error err =
     (case err of
        NoSuitableNodes \<Rightarrow> ''no suitable nodes available for GPU workload''
      | NotEnoughGPUs n \<Rightarrow>
          ''no node has enough available GPUs for workload requiring '' @ Sprintf_d n @ '' GPUs''
      | NilPointerDereference \<Rightarrow> ''invalid memory address or nil pointer dereference'')"

text \<open>
  Every call that leaves the reconciler is recorded in order: the calls of the API
  client, the events of the recorder and the metrics.
\<close>

datatype api_call =
    Get_GPUWorkload NamespacedName
  | Update_GPUWorkload NamespacedName
  | Update_Status NamespacedName
  | List_Nodes
  | Get_Job NamespacedName
  | Create_Job NamespacedName
  | Delete_Job NamespacedName
  | Record_Event string string string
  | Metric_ReconcileDuration string
  | Metric_Retry
  | Metric_SchedulingFailure string
  | Metric_SchedulingSuccess string

record cluster =
  workloads :: "NamespacedName \<rightharpoonup> GPUWorkload"
  jobs :: "NamespacedName \<rightharpoonup> Job"
  nodeItems :: "Node list"
  calls :: "api_call list"

definition is_write :: "api_call \<Rightarrow> bool" where
  "is_write x \<longleftrightarrow>
     (case x of Update_GPUWorkload _ \<Rightarrow> True | Update_Status _ \<Rightarrow> True
              | Create_Job _ \<Rightarrow> True | Delete_Job _ \<Rightarrow> True | _ \<Rightarrow> False)"

text \<open>
  What one pass cannot decide itself: the clock, the random draws, and whether a call
  to the API server fails for a reason outside the cluster state (a lost connection, a
  conflicting writer). One field per call site; \<open>None\<close> lets the call take its course.
\<close>

record env =
  now :: int
  rand_Float64 :: rat
  rand_Intn :: nat
  err_Get :: "api_error option"
  err_Update :: "api_error option"
  err_StatusInit :: "api_error option"
  err_Status :: "api_error option"
  err_List :: "api_error option"
  err_JobGet :: "api_error option"
  err_JobCreate :: "api_error option"
  err_JobDelete :: "api_error option"

definition record_call :: "api_call \<Rightarrow> cluster \<Rightarrow> cluster" where
  "record_call x c = c\<lparr> calls := calls c @ [x] \<rparr>"

definition key_of :: "GPUWorkload \<Rightarrow> NamespacedName" where
  "key_of gw = (Namespace gw, Name gw)"

definition client_Get :: "api_error option \<Rightarrow> NamespacedName \<Rightarrow> cluster \<Rightarrow> cluster \<times> (api_error + GPUWorkload)" where
  "client_Get fault key c =
     (record_call (Get_GPUWorkload key) c,
      case fault of
        Some e \<Rightarrow> Inl e
      | None \<Rightarrow> (case workloads c key of None \<Rightarrow> Inl NotFound | Some gw \<Rightarrow> Inr gw))"

text \<open>
  \<open>r.Update\<close>: the type has a status subresource, so the server takes metadata and
  spec from the request and keeps the stored status. An object that is marked for
  deletion goes away with its last finalizer. The response, which replaces the
  object in memory, is the object as stored.
\<close>

definition client_Update :: "api_error option \<Rightarrow> GPUWorkload \<Rightarrow> cluster \<Rightarrow> cluster \<times> (api_error + GPUWorkload)" where
  "client_Update fault gw c0 =
     (let c = record_call (Update_GPUWorkload (key_of gw)) c0
      in case fault of
           Some e \<Rightarrow> (c, Inl e)
         | None \<Rightarrow>
            (case workloads c (key_of gw) of
               None \<Rightarrow> (c, Inl NotFound)
             | Some stored \<Rightarrow>
                 let stored' = stored\<lparr> Finalizers := Finalizers gw, Spec := Spec gw \<rparr>
                 in if DeletionTimestamp stored' \<noteq> None \<and> Finalizers stored' = []
                    then (c\<lparr> workloads := (workloads c)(key_of gw := None) \<rparr>, Inr stored')
                    else (c\<lparr> workloads := (workloads c)(key_of gw \<mapsto> stored') \<rparr>, Inr stored')))"

text \<open>\<open>r.Status().Update\<close>: the server takes the status from the request and nothing else.\<close>

definition client_Status_Update :: "api_error option \<Rightarrow> GPUWorkload \<Rightarrow> cluster \<Rightarrow> cluster \<times> (api_error + GPUWorkload)" where
  "client_Status_Update fault gw c0 =
     (let c = record_call (Update_Status (key_of gw)) c0
      in case fault of
           Some e \<Rightarrow> (c, Inl e)
         | None \<Rightarrow>
            (case workloads c (key_of gw) of
               None \<Rightarrow> (c, Inl NotFound)
             | Some stored \<Rightarrow>
                 let stored' = stored\<lparr> Status := Status gw \<rparr>
                 in (c\<lparr> workloads := (workloads c)(key_of gw \<mapsto> stored') \<rparr>, Inr stored')))"

definition client_List_Nodes :: "api_error option \<Rightarrow> cluster \<Rightarrow> cluster \<times> (api_error + Node list)" where
  "client_List_Nodes fault c =
     (record_call List_Nodes c,
      case fault of Some e \<Rightarrow> Inl e | None \<Rightarrow> Inr (nodeItems c))"

definition client_Get_Job :: "api_error option \<Rightarrow> NamespacedName \<Rightarrow> cluster \<Rightarrow> cluster \<times> (api_error + Job)" where
  "client_Get_Job fault key c =
     (record_call (Get_Job key) c,
      case fault of
        Some e \<Rightarrow> Inl e
      | None \<Rightarrow> (case jobs c key of None \<Rightarrow> Inl NotFound | Some job \<Rightarrow> Inr job))"

definition client_Create_Job :: "api_error option \<Rightarrow> Job \<Rightarrow> cluster \<Rightarrow> cluster \<times> api_error option" where
  "client_Create_Job fault job c0 =
     (let key = (job_Namespace job, job_Name job);
          c = record_call (Create_Job key) c0
      in case fault of
           Some e \<Rightarrow> (c, Some e)
         | None \<Rightarrow>
            (case jobs c key of
               Some _ \<Rightarrow> (c, Some AlreadyExists)
             | None \<Rightarrow> (c\<lparr> jobs := (jobs c)(key \<mapsto> job) \<rparr>, None)))"

definition client_Delete_Job :: "api_error option \<Rightarrow> Job \<Rightarrow> cluster \<Rightarrow> cluster \<times> api_error option" where
  "client_Delete_Job fault job c0 =
     (let key = (job_Namespace job, job_Name job);
          c = record_call (Delete_Job key) c0
      in case fault of
           Some e \<Rightarrow> (c, Some e)
         | None \<Rightarrow>
            (case jobs c key of
               None \<Rightarrow> (c, Some NotFound)
             | Some _ \<Rightarrow> (c\<lparr> jobs := (jobs c)(key := None) \<rparr>, None)))"

subsection \<open>Utility functions\<close>

definition finalizerName :: string where
  "finalizerName = ''gpu.warp.dev/finalizer''"

definition ownershipAnnotation :: string where
  "ownershipAnnotation = ''gpu.warp.dev/created-by''"

fun containsString :: "string list \<Rightarrow> string \<Rightarrow> bool" where
  "containsString [] s = False"
| "containsString (v # list) s = (if v = s then True else containsString list s)"

fun removeString :: "string list \<Rightarrow> string \<Rightarrow> string list" where
  "removeString [] s = []"
| "removeString (v # list) s = (if v \<noteq> s then v # removeString list s else removeString list s)"

text \<open>\<open>parseQuantity\<close> sets the quantity to the length of its argument.\<close>

definition parseQuantity :: "string \<Rightarrow> int" where
  "parseQuantity value = int (length value)"

fun isNodeReady_loop :: "NodeCondition list \<Rightarrow> bool" where
  "isNodeReady_loop [] = False"
| "isNodeReady_loop (condition # rest) =
     (if cond_Type condition = ''Ready'' then cond_Status condition = ''True''
      else isNodeReady_loop rest)"

definition isNodeReady :: "Node \<Rightarrow> bool" where
  "isNodeReady node = isNodeReady_loop (Conditions node)"

definition hasGPUs :: "Node \<Rightarrow> bool" where
  "hasGPUs node =
     (if (case Allocatable node ''nvidia.com/gpu'' of Some quantity \<Rightarrow> quantity > 0 | None \<Rightarrow> False)
      then True
      else if (case Capacity node ''nvidia.com/gpu'' of Some quantity \<Rightarrow> quantity > 0 | None \<Rightarrow> False)
      then True
      else if node_Labels node ''nvidia.com/gpu'' \<noteq> None then True
      else False)"

subsection \<open>Results of a pass\<close>

record Result =
  RequeueAfter :: int

definition no_requeue :: Result where
  "no_requeue = \<lparr> RequeueAfter = 0 \<rparr>"

text \<open>
  A pass returns a \<open>ctrl.Result\<close> and an error. Besides the errors of the API client
  the model has three more outcomes: the two panics that the code can raise, and a
  backoff whose conversion to a duration Go leaves implementation-dependent.
\<close>

datatype reconcile_error =
    ApiError api_error
  | Panic_SliceBounds
  | Panic_NilPointer
  | Unspecified_Duration

subsection \<open>requeueWithBackoff\<close>

definition baseDuration_of :: "GPUWorkload \<Rightarrow> int" where
  "baseDuration_of gw =
     (case RetryPolicy (Spec gw) of
        Some policy \<Rightarrow> if BackoffSeconds policy > 0 then BackoffSeconds policy * Second else 30 * Second
      | None \<Rightarrow> 30 * Second)"

definition requeueWithBackoff :: "env \<Rightarrow> GPUWorkload \<Rightarrow> Result \<times> reconcile_error option" where
  "requeueWithBackoff env gw =
     (case NextBackoff (baseDuration_of gw) (RetryCount (Status gw)) (rand_Float64 env) of
        None \<Rightarrow> (no_requeue, Some Unspecified_Duration)
      | Some backoffDuration \<Rightarrow> (\<lparr> RequeueAfter = backoffDuration \<rparr>, None))"

subsection \<open>createJobForWorkload\<close>

definition jobName_of :: "GPUWorkload \<Rightarrow> string" where
  "jobName_of gw = Name gw @ ''-job-'' @ take 8 (UID gw)"

definition build_Job :: "GPUWorkload \<Rightarrow> Node \<Rightarrow> Job" where
  "build_Job gw node =
     \<lparr> job_Name = jobName_of gw,
       job_Namespace = Namespace gw,
       job_Labels = [''app'' \<mapsto> ModelName (Spec gw),
                     ''gpu.warp.dev/workload'' \<mapsto> Name gw,
                     ''gpu.warp.dev/controller'' \<mapsto> ''gpu-orchestrator''],
       job_Annotations = [ownershipAnnotation \<mapsto> Name gw],
       job_OwnerReferences =
         [\<lparr> owner_APIVersion = APIVersion gw, owner_Kind = Kind gw, owner_Name = Name gw,
            owner_UID = UID gw, owner_Controller = True \<rparr>],
       job_BackoffLimit = 0,
       pod_Labels = [''app'' \<mapsto> ModelName (Spec gw)],
       pod_RestartPolicy = ''Never'',
       pod_NodeName = node_Name node,
       container_Name = ''gpu-workload'',
       container_Image = ''python:3.11-slim'',
       container_Env = [(''MODEL_NAME'', ModelName (Spec gw)),
                        (''GPU_COUNT'', Sprintf_d (GPUCount (Spec gw)))],
       container_Requests = [''nvidia.com/gpu'' \<mapsto> parseQuantity (Sprintf_d (GPUCount (Spec gw)))],
       container_Limits = [''nvidia.com/gpu'' \<mapsto> parseQuantity (Sprintf_d (GPUCount (Spec gw)))] \<rparr>"

text \<open>\<open>gw.UID[:8]\<close> panics when the UID has fewer than 8 bytes.\<close>

definition createJobForWorkload :: "env \<Rightarrow> GPUWorkload \<Rightarrow> Node \<Rightarrow> cluster \<Rightarrow> cluster \<times> (reconcile_error + Job)" where
  "createJobForWorkload env gw node c0 =
     (if length (UID gw) < 8 then (c0, Inl Panic_SliceBounds)
      else let jobName = jobName_of gw
           in case client_Get_Job (err_JobGet env) (Namespace gw, jobName) c0 of
                (c, Inr existingJob) \<Rightarrow> (c, Inr existingJob)
              | (c, Inl _) \<Rightarrow>
                  let job = build_Job gw node
                  in (case client_Create_Job (err_JobCreate env) job c of
                        (c', Some err) \<Rightarrow> (c', Inl (ApiError err))
                      | (c', None) \<Rightarrow> (c', Inr job)))"

subsection \<open>handleDeletion\<close>

text \<open>
  The source tests the error of \<open>r.Delete\<close> with
  \<open>err != nil && !client.IgnoreNotFound(err) != nil\<close>, which applies \<open>!\<close> to an error
  value. The model follows the reading that the surrounding code suggests: the pass
  fails on every error of the deletion except "not found".
\<close>

definition handleDeletion :: "env \<Rightarrow> GPUWorkload \<Rightarrow> cluster \<Rightarrow> cluster \<times> GPUWorkload \<times> Result \<times> reconcile_error option" where
  "handleDeletion env gw c0 =
     (if containsString (Finalizers gw) finalizerName
      then
        let (c1, failed) =
              (if JobName (Status gw) \<noteq> []
               then (case client_Get_Job (err_JobGet env) (Namespace gw, JobName (Status gw)) c0 of
                       (c, Inr job) \<Rightarrow>
                         (case client_Delete_Job (err_JobDelete env) job c of
                            (c', Some err) \<Rightarrow> (c', IgnoreNotFound err)
                          | (c', None) \<Rightarrow> (c', None))
                     | (c, Inl _) \<Rightarrow> (c, None))
               else (c0, None))
        in case failed of
             Some err \<Rightarrow> (c1, gw, no_requeue, Some (ApiError err))
           | None \<Rightarrow>
               let gw' = gw\<lparr> Finalizers := removeString (Finalizers gw) finalizerName \<rparr>
               in (case client_Update (err_Update env) gw' c1 of
                     (c2, Inl err) \<Rightarrow> (c2, gw', no_requeue, Some (ApiError err))
                   | (c2, Inr gw'') \<Rightarrow> (c2, gw'', no_requeue, None))
      else (c0, gw, no_requeue, None))"

subsection \<open>Reconcile\<close>

text \<open>
  The body of \<open>Reconcile\<close> in the order of the source, cut at its early returns. Every
  part returns the cluster, the object in memory (the deferred metrics read its phase),
  the result and the error.
\<close>

type_synonym pass = "cluster \<times> GPUWorkload \<times> Result \<times> reconcile_error option"

definition maxRetries_of :: "GPUWorkload \<Rightarrow> int" where
  "maxRetries_of gw =
     (case RetryPolicy (Spec gw) of
        Some policy \<Rightarrow> if MaxRetries policy > 0 then MaxRetries policy else 3
      | None \<Rightarrow> 3)"

text \<open>The status update whose error the source ignores, followed by the requeue.\<close>

definition update_and_requeue :: "env \<Rightarrow> GPUWorkload \<Rightarrow> cluster \<Rightarrow> pass" where
  "update_and_requeue env gw c =
     (case client_Status_Update (err_Status env) gw c of
        (c', r) \<Rightarrow>
          let gw' = (case r of Inr updated \<Rightarrow> updated | Inl _ \<Rightarrow> gw);
              (res, err) = requeueWithBackoff env gw'
          in (c', gw', res, err))"

text \<open>Lines 205 to 239: create the Job and record the placement.\<close>

definition place :: "env \<Rightarrow> Strategy \<Rightarrow> Node \<Rightarrow> GPUWorkload \<Rightarrow> cluster \<Rightarrow> pass" where
  "place env strategy selectedNode gw c =
     (case createJobForWorkload env gw selectedNode c of
        (c1, Inl Panic_SliceBounds) \<Rightarrow> (c1, gw, no_requeue, Some Panic_SliceBounds)
      | (c1, Inl err) \<Rightarrow>
          let gw' = gw\<lparr> Status := (Status gw)\<lparr>
                       Phase := PhasePending,
                       Message := ''Failed to create job: '' @
                         (case err of ApiError e \<Rightarrow> api_Error e | _ \<Rightarrow> []),
                       RetryCount := int32_wrap (RetryCount (Status gw) + 1) \<rparr> \<rparr>;
              c2 = record_call (Metric_SchedulingFailure ''job_creation_failed'') (record_call Metric_Retry c1)
          in update_and_requeue env gw' c2
      | (c1, Inr job) \<Rightarrow>
          let gw' = gw\<lparr> Status := (Status gw)\<lparr>
                       Phase := PhaseScheduled,
                       AssignedNode := node_Name selectedNode,
                       LastScheduleTime := Some (now env),
                       JobName := job_Name job,
                       Message := ''Successfully scheduled on node '' @ node_Name selectedNode @
                                  '' using '' @ Strategy_Name strategy @ '' strategy'' \<rparr> \<rparr>
          in (case client_Status_Update (err_Status env) gw' c1 of
                (c2, Inl err) \<Rightarrow> (c2, gw', no_requeue, Some (ApiError err))
              | (c2, Inr gw'') \<Rightarrow>
                  (record_call (Metric_SchedulingSuccess (Strategy_Name strategy))
                     (record_call (Record_Event ''Normal'' ''Scheduled'' (Message (Status gw''))) c2),
                   gw'', no_requeue, None)))"

text \<open>
  Lines 145 to 201: list the nodes, keep the ready ones with GPUs, choose one. The
  branch for an error of \<open>scheduling.Factory\<close> is left out: \<open>Factory\<close> never returns one.
\<close>

definition schedule :: "env \<Rightarrow> GPUWorkload \<Rightarrow> cluster \<Rightarrow> pass" where
  "schedule env gw c =
     (case client_List_Nodes (err_List env) c of
        (c1, Inl err) \<Rightarrow>
          update_and_requeue env
            (gw\<lparr> Status := (Status gw)\<lparr> Phase := PhasePending,
                                         Message := ''Error listing nodes: '' @ api_Error err \<rparr> \<rparr>) c1
      | (c1, Inr items) \<Rightarrow>
          let gpuNodes = filter (\<lambda>node. isNodeReady node \<and> hasGPUs node) items
          in if length gpuNodes = 0
             then update_and_requeue env
                    (gw\<lparr> Status := (Status gw)\<lparr> Phase := PhasePending,
                                                 Message := ''No ready GPU nodes available'' \<rparr> \<rparr>) c1
             else
               let strategyName = (if SchedulingStrategy (Spec gw) = [] then ''leastLoaded''
                                   else SchedulingStrategy (Spec gw));
                   strategy = Factory strategyName
               in (case ChooseNode strategy (rand_Intn env) gpuNodes gw of
                     Inl NilPointerDereference \<Rightarrow> (c1, gw, no_requeue, Some Panic_NilPointer)
                   | Inl err \<Rightarrow>
                       let gw' = gw\<lparr> Status := (Status gw)\<lparr>
                                    Phase := PhasePending,
                                    Message := sched_Error err,
                                    RetryCount := int32_wrap (RetryCount (Status gw) + 1) \<rparr> \<rparr>;
                           c2 = record_call (Metric_SchedulingFailure ''no_suitable_node'')
                                  (record_call Metric_Retry c1)
                       in update_and_requeue env gw' c2
                   | Inr selectedNode \<Rightarrow> place env strategy selectedNode gw c1))"

text \<open>Lines 127 to 143: the retry ceiling.\<close>

definition check_retries :: "env \<Rightarrow> GPUWorkload \<Rightarrow> cluster \<Rightarrow> pass" where
  "check_retries env gw c =
     (let maxRetries = maxRetries_of gw
      in if RetryCount (Status gw) \<ge> maxRetries
         then
           let gw' = gw\<lparr> Status := (Status gw)\<lparr>
                        Phase := PhaseFailed,
                        Message := ''Failed to schedule after '' @ Sprintf_d maxRetries @ '' retries'' \<rparr> \<rparr>
           in (case client_Status_Update (err_Status env) gw' c of
                 (c1, Inl err) \<Rightarrow> (c1, gw', no_requeue, Some (ApiError err))
               | (c1, Inr gw'') \<Rightarrow>
                   (record_call (Record_Event ''Warning'' ''MaxRetriesExceeded'' (Message (Status gw''))) c1,
                    gw'', no_requeue, None))
         else schedule env gw c)"

text \<open>Lines 116 to 125: the first phase.\<close>

definition init_phase :: "env \<Rightarrow> GPUWorkload \<Rightarrow> cluster \<Rightarrow> pass" where
  "init_phase env gw c =
     (if Phase (Status gw) = []
      then
        let gw' = gw\<lparr> Status := (Status gw)\<lparr> Phase := PhasePending,
                                              LastScheduleTime := Some (now env) \<rparr> \<rparr>
        in (case client_Status_Update (err_StatusInit env) gw' c of
              (c1, Inl err) \<Rightarrow> (c1, gw', no_requeue, Some (ApiError err))
            | (c1, Inr gw'') \<Rightarrow> check_retries env gw'' c1)
      else check_retries env gw c)"

text \<open>Lines 107 to 114: the finalizer.\<close>

definition add_finalizer :: "env \<Rightarrow> GPUWorkload \<Rightarrow> cluster \<Rightarrow> pass" where
  "add_finalizer env gw c =
     (if \<not> containsString (Finalizers gw) finalizerName
      then
        let gw' = gw\<lparr> Finalizers := Finalizers gw @ [finalizerName] \<rparr>
        in (case client_Update (err_Update env) gw' c of
              (c1, Inl err) \<Rightarrow> (c1, gw', no_requeue, Some (ApiError err))
            | (c1, Inr gw'') \<Rightarrow> init_phase env gw'' c1)
      else init_phase env gw c)"

text \<open>Lines 96 to 105: the skip of a placed workload comes first, the deletion second.\<close>

definition already_scheduled :: "GPUWorkload \<Rightarrow> bool" where
  "already_scheduled gw \<longleftrightarrow>
     Phase (Status gw) = PhaseScheduled \<or> Phase (Status gw) = PhaseRunning \<or>
     Phase (Status gw) = PhaseSucceeded"

definition reconcile_fetched :: "env \<Rightarrow> GPUWorkload \<Rightarrow> cluster \<Rightarrow> pass" where
  "reconcile_fetched env gw c =
     (if already_scheduled gw then (c, gw, no_requeue, None)
      else if DeletionTimestamp gw \<noteq> None then handleDeletion env gw c
      else add_finalizer env gw c)"

text \<open>
  Lines 71 to 94: fetch the object; the deferred function records the duration of the
  pass under a label that it derives from the phase of the object in memory.
\<close>

definition Reconcile :: "env \<Rightarrow> NamespacedName \<Rightarrow> cluster \<Rightarrow> cluster \<times> Result \<times> reconcile_error option" where
  "Reconcile env req c0 =
     (case client_Get (err_Get env) req c0 of
        (c, Inl err) \<Rightarrow> (c, no_requeue, map_option ApiError (IgnoreNotFound err))
      | (c, Inr gpuWorkload) \<Rightarrow>
          (case reconcile_fetched env gpuWorkload c of
             (c', gw', res, err) \<Rightarrow>
               let result = (if Phase (Status gw') = PhaseScheduled \<or> Phase (Status gw') = PhaseRunning
                             then ''success'' else ''error'')
               in (record_call (Metric_ReconcileDuration result) c', res, err)))"

text \<open>Successive passes for one request, one environment per pass.\<close>

fun Reconcile_passes :: "env list \<Rightarrow> NamespacedName \<Rightarrow> cluster \<Rightarrow> cluster" where
  "Reconcile_passes [] req c = c"
| "Reconcile_passes (env # envs) req c = Reconcile_passes envs req (fst (Reconcile env req c))"

text \<open>An environment in which no call fails for outside reasons.\<close>

definition quiet :: "env \<Rightarrow> bool" where
  "quiet env \<longleftrightarrow>
     err_Get env = None \<and> err_Update env = None \<and> err_StatusInit env = None \<and>
     err_Status env = None \<and> err_List env = None \<and> err_JobGet env = None \<and>
     err_JobCreate env = None \<and> err_JobDelete env = None"

definition quiet_env :: env where
  "quiet_env =
     \<lparr> now = 0, rand_Float64 = 0, rand_Intn = 0, err_Get = None, err_Update = None,
       err_StatusInit = None, err_Status = None, err_List = None, err_JobGet = None,
       err_JobCreate = None, err_JobDelete = None \<rparr>"

definition is_Create_Job :: "api_call \<Rightarrow> bool" where
  "is_Create_Job x \<longleftrightarrow> (case x of Create_Job _ \<Rightarrow> True | _ \<Rightarrow> False)"

subsection \<open>The retry ceiling as an invariant\<close>

text \<open>
  \<open>retry_bounded\<close>: the retry counter of an object is an \<open>int32\<close> that does not exceed
  the ceiling of its retry policy, the ceiling being an \<open>int32\<close> too. \<open>stored_bounded\<close>:
  this holds for the object stored under a key, if there is one, and the object has
  the given spec and carries the key as its name.
\<close>

definition retry_bounded :: "GPUWorkload \<Rightarrow> bool" where
  "retry_bounded gw \<longleftrightarrow>
     - (2 ^ 31) \<le> RetryCount (Status gw) \<and> RetryCount (Status gw) \<le> maxRetries_of gw \<and>
     maxRetries_of gw < 2 ^ 31"

definition stored_bounded :: "NamespacedName \<Rightarrow> GPUWorkloadSpec \<Rightarrow> cluster \<Rightarrow> bool" where
  "stored_bounded key sp c \<longleftrightarrow>
     (case workloads c key of
        None \<Rightarrow> True
      | Some s \<Rightarrow> key_of s = key \<and> Spec s = sp \<and> retry_bounded s)"

text \<open>\<open>stored_failed\<close>: the object stored under a key, if there is one, is in phase Failed
  with the given spec and retry counter.\<close>

definition stored_failed :: "NamespacedName \<Rightarrow> GPUWorkloadSpec \<Rightarrow> int \<Rightarrow> cluster \<Rightarrow> bool" where
  "stored_failed key sp n c \<longleftrightarrow>
     (case workloads c key of
        None \<Rightarrow> True
      | Some s \<Rightarrow> key_of s = key \<and> Spec s = sp \<and> Phase (Status s) = PhaseFailed \<and>
                  RetryCount (Status s) = n)"

text \<open>\<open>mem_bounded\<close>: the same for the object that a pass holds in memory.\<close>

definition mem_bounded :: "NamespacedName \<Rightarrow> GPUWorkloadSpec \<Rightarrow> GPUWorkload \<Rightarrow> bool" where
  "mem_bounded key sp gw \<longleftrightarrow> key_of gw = key \<and> Spec gw = sp \<and> retry_bounded gw"

definition mem_failed :: "NamespacedName \<Rightarrow> GPUWorkloadSpec \<Rightarrow> int \<Rightarrow> GPUWorkload \<Rightarrow> bool" where
  "mem_failed key sp n gw \<longleftrightarrow>
     key_of gw = key \<and> Spec gw = sp \<and> Phase (Status gw) = PhaseFailed \<and>
     RetryCount (Status gw) = n"

subsection \<open>The outcome of a transient failure\<close>

text \<open>
  \<open>backoff_delay base n d\<close>: the delay \<open>d\<close> is positive and lies between the capped
  exponential value \<open>v = min (base * 2 ^ min (n, 10), 5 minutes)\<close> and \<open>v\<close> plus one tenth.
\<close>

definition backoff_delay :: "int \<Rightarrow> int \<Rightarrow> int \<Rightarrow> bool" where
  "backoff_delay base n d \<longleftrightarrow>
     (let v = min (base * 2 ^ nat (min n 10)) (5 * Minute)
      in 0 < d \<and> v \<le> d \<and> 10 * d \<le> 11 * v)"

text \<open>
  \<open>transient_outcome recorded key gw base n out\<close>, for the outcome \<open>out\<close> of a pass on the
  stored workload \<open>gw\<close>: the pass returns no error and a requeue after a delay that
  \<open>backoff_delay\<close> admits for the retry counter \<open>n\<close>; the workload is still stored, with
  its spec; when the status update of the pass went through (\<open>recorded\<close>) it is stored
  in phase Pending with the retry counter \<open>n\<close>, and otherwise its stored retry counter
  is the one that \<open>gw\<close> had.
\<close>

definition transient_outcome ::
  "bool \<Rightarrow> NamespacedName \<Rightarrow> GPUWorkload \<Rightarrow> int \<Rightarrow> int \<Rightarrow>
   cluster \<times> Result \<times> reconcile_error option \<Rightarrow> bool" where
  "transient_outcome recorded key gw base n out \<longleftrightarrow>
     (case out of
        (c', res, err) \<Rightarrow>
          err = None \<and> backoff_delay base n (RequeueAfter res) \<and>
          (case workloads c' key of
             None \<Rightarrow> False
           | Some gw' \<Rightarrow>
               Spec gw' = Spec gw \<and>
               (if recorded
                then Phase (Status gw') = PhasePending \<and> RetryCount (Status gw') = n
                else RetryCount (Status gw') = RetryCount (Status gw))))"

section \<open>A small cluster for the scenarios\<close>

definition example_node :: Node where
  "example_node = createMockNode ''node1'' 4"

definition example_workload :: GPUWorkload where
  "example_workload =
     \<lparr> APIVersion = ''gpu.warp.dev/v1alpha1'', Kind = ''GPUWorkload'', Name = ''train'',
       Namespace = ''default'', UID = ''0a1b2c3d-0000-4000-8000-000000000000'',
       DeletionTimestamp = None, Finalizers = [],
       Spec = \<lparr> ModelName = ''llama2'', GPUCount = 2, Priority = ''normal'',
                SchedulingStrategy = ''leastLoaded'', RetryPolicy = None \<rparr>,
       Status = \<lparr> Phase = [], AssignedNode = [], LastScheduleTime = None,
                  RetryCount = 0, Message = [], JobName = [] \<rparr> \<rparr>"

definition example_key :: NamespacedName where
  "example_key = (''default'', ''train'')"

definition example_cluster :: "GPUWorkload \<Rightarrow> Node list \<Rightarrow> cluster" where
  "example_cluster gw nodes =
     \<lparr> workloads = [key_of gw \<mapsto> gw], jobs = Map.empty, nodeItems = nodes, calls = [] \<rparr>"

text \<open>
  What the API server does on a delete request: an object without finalizers goes
  away, an object with finalizers gets its deletion timestamp.
\<close>

definition request_deletion :: "int \<Rightarrow> NamespacedName \<Rightarrow> cluster \<Rightarrow> cluster" where
  "request_deletion t key c =
     (case workloads c key of
        None \<Rightarrow> c
      | Some gw \<Rightarrow>
          if Finalizers gw = [] then c\<lparr> workloads := (workloads c)(key := None) \<rparr>
          else c\<lparr> workloads := (workloads c)(key \<mapsto> gw\<lparr> DeletionTimestamp := Some t \<rparr>) \<rparr>)"

text \<open>
  The scenario of a delete notification for a placed workload: the example workload is
  reconciled once on a cluster with one ready node, which places it, and then a delete
  request arrives.
\<close>

definition scheduled_cluster :: cluster where
  "scheduled_cluster =
     fst (Reconcile quiet_env example_key (example_cluster example_workload [example_node]))"

definition deleting_cluster :: cluster where
  "deleting_cluster = request_deletion 1 example_key scheduled_cluster"

text \<open>The same cluster, had the workload not left the phase Pending.\<close>

definition set_phase :: "GPUWorkloadPhase \<Rightarrow> NamespacedName \<Rightarrow> cluster \<Rightarrow> cluster" where
  "set_phase p key c =
     (case workloads c key of
        None \<Rightarrow> c
      | Some gw \<Rightarrow>
          c\<lparr> workloads := (workloads c)(key \<mapsto> gw\<lparr> Status := (Status gw)\<lparr> Phase := p \<rparr> \<rparr>) \<rparr>)"

text \<open>
  The scenario of a request that never finds capacity: the example workload asks for
  2 GPUs and the only node has one.
\<close>

definition small_node :: Node where
  "small_node = createMockNode ''node1'' 1"

definition starved_cluster :: cluster where
  "starved_cluster = example_cluster example_workload [small_node]"

definition exhausted_cluster :: cluster where
  "exhausted_cluster = Reconcile_passes [quiet_env, quiet_env, quiet_env] example_key starved_cluster"

text \<open>An environment in which listing the nodes fails, and a cluster without nodes.\<close>

definition list_fails_env :: env where
  "list_fails_env = quiet_env\<lparr> err_List := Some ServerError \<rparr>"

definition empty_cluster :: cluster where
  "empty_cluster = example_cluster example_workload []"

definition create_fails_env :: env where
  "create_fails_env = quiet_env\<lparr> err_JobCreate := Some ServerError \<rparr>"

text \<open>An environment in which the status update after the scheduling attempt fails.\<close>

definition status_fails_env :: env where
  "status_fails_env = quiet_env\<lparr> err_Status := Some Conflict \<rparr>"

text \<open>
  The example workload with a retry policy of 2 retries and a base delay of 10 seconds,
  as submitted and after its two failed attempts.
\<close>

definition policy_workload :: GPUWorkload where
  "policy_workload =
     example_workload\<lparr> Spec := (Spec example_workload)\<lparr>
       RetryPolicy := Some \<lparr> MaxRetries = 2, BackoffSeconds = 10 \<rparr> \<rparr> \<rparr>"

definition policy_workload_retried :: GPUWorkload where
  "policy_workload_retried =
     policy_workload\<lparr> Finalizers := [finalizerName],
       Status := (Status policy_workload)\<lparr> Phase := PhasePending, RetryCount := 2 \<rparr> \<rparr>"

section \<open>Properties of the backoff\<close>

subsection \<open>Rounding to \<open>float64\<close>\<close>

lemma round_half_even_err: "\<bar>of_int (round_half_even q) - q\<bar> \<le> 1 / 2"
proof -
  define d where "d = q - of_int \<lfloor>q\<rfloor>"
  have d: "0 \<le> d" "d < 1" unfolding d_def by linarith+
  have q: "q = of_int \<lfloor>q\<rfloor> + d" unfolding d_def by simp
  consider "d < 1 / 2" | "d > 1 / 2" | "d = 1 / 2" by linarith
  then show ?thesis
  proof cases
    case 1
    then have "round_half_even q = \<lfloor>q\<rfloor>"
      by (simp add: round_half_even_def Let_def d_def)
    with 1 d show ?thesis by (subst (2) q) simp
  next
    case 2
    then have "round_half_even q = \<lfloor>q\<rfloor> + 1"
      by (simp add: round_half_even_def Let_def d_def)
    with 2 d show ?thesis by (subst (2) q) simp
  next
    case 3
    then have "round_half_even q = \<lfloor>q\<rfloor> \<or> round_half_even q = \<lfloor>q\<rfloor> + 1"
      by (simp add: round_half_even_def Let_def d_def)
    with 3 show ?thesis by (subst (2) q, subst (asm) (4) q) auto
  qed
qed

lemma round_half_even_of_int [simp]: "round_half_even (of_int n) = n"
  by (simp add: round_half_even_def)

lemma round_half_even_nonneg: "0 \<le> q \<Longrightarrow> 0 \<le> round_half_even q"
  by (auto simp: round_half_even_def Let_def)


lemma ilog2_bounds:
  assumes "0 < x"
  shows "2 powi ilog2 x \<le> x \<and> x < 2 powi (ilog2 x + 1)"
proof (cases "1 \<le> x")
  case True
  let ?n = "\<lfloor>x\<rfloor>"
  from True have n: "0 < ?n" by simp
  from bitlen_bounds[OF n] have b: "2 ^ nat (bitlen ?n - 1) \<le> ?n" "?n < 2 ^ nat (bitlen ?n)"
    by simp_all
  from n have bl: "1 \<le> bitlen ?n" by (simp add: bitlen_alt_def)
  have "(2::rat) powi (bitlen ?n - 1) = 2 ^ nat (bitlen ?n - 1)"
    using bl by (simp add: power_int_def)
  also have "\<dots> = of_int (2 ^ nat (bitlen ?n - 1))" by simp
  also have "\<dots> \<le> of_int ?n" using b(1) by (simp only: of_int_le_iff)
  also have "\<dots> \<le> x" by simp
  finally have lo: "2 powi (bitlen ?n - 1) \<le> x" .
  have "x < of_int (?n + 1)" by linarith
  also have "\<dots> \<le> of_int (2 ^ nat (bitlen ?n))" using b(2) by (simp only: of_int_le_iff)
  also have "\<dots> = (2::rat) powi (bitlen ?n)" using bl by (simp add: power_int_def)
  finally have hi: "x < 2 powi (bitlen ?n)" .
  from lo hi True show ?thesis by (simp add: ilog2_def)
next
  case False
  with assms have x1: "x < 1" by simp
  let ?n = "\<lfloor>1 / x\<rfloor>"
  let ?k = "bitlen ?n - 1"
  from assms x1 have "1 \<le> 1 / x" by (simp add: field_simps)
  then have n: "0 < ?n" by simp
  from bitlen_bounds[OF n] have b: "2 ^ nat ?k \<le> ?n" "?n < 2 ^ nat (bitlen ?n)"
    by simp_all
  from n have bl: "1 \<le> bitlen ?n" by (simp add: bitlen_alt_def)
  then have k0: "0 \<le> ?k" by simp
  have p: "(2::rat) powi ?k = 2 ^ nat ?k" using k0 by (simp add: power_int_def)
  have "(2::rat) ^ nat ?k = of_int (2 ^ nat ?k)" by simp
  also have "\<dots> \<le> of_int ?n" using b(1) by (simp only: of_int_le_iff)
  also have "\<dots> \<le> 1 / x" by simp
  finally have "2 powi ?k \<le> 1 / x" using p by simp
  with assms have "x * 2 powi ?k \<le> 1" by (simp add: field_simps)
  moreover have "(0::rat) < 2 powi ?k" by simp
  ultimately have "x \<le> 1 / 2 powi ?k" by (simp add: pos_le_divide_eq)
  then have up: "x \<le> 2 powi (- ?k)" by (simp only: power_int_minus_divide)
  have "1 / x < of_int (?n + 1)" by linarith
  also have "\<dots> \<le> of_int (2 ^ nat (bitlen ?n))" using b(2) by (simp only: of_int_le_iff)
  also have "\<dots> = (2::rat) powi (?k + 1)" using bl by (simp add: power_int_def)
  finally have "1 / x < 2 powi (?k + 1)" .
  with assms have lo: "2 powi (- ?k - 1) < x"
  proof -
    have pos: "(0::rat) < 2 powi (?k + 1)" by simp
    from \<open>1 / x < 2 powi (?k + 1)\<close> assms have "1 < x * 2 powi (?k + 1)"
      by (simp add: field_simps)
    then have "1 / 2 powi (?k + 1) < x" using pos by (simp add: field_simps)
    moreover have "(2::rat) powi (- ?k - 1) = 1 / 2 powi (?k + 1)"
      using power_int_minus[of "2::rat" "?k + 1"] by (simp add: field_simps)
    ultimately show ?thesis by simp
  qed
  show ?thesis
  proof (cases "x = 2 powi (- ?k)")
    case True
    then have i: "ilog2 x = - ?k" using x1 by (simp add: ilog2_def Let_def)
    have "(2::rat) powi (- ?k) < 2 powi (- ?k + 1)"
      by (intro power_int_strict_increasing) simp_all
    with True i show ?thesis by simp
  next
    case F: False
    then have i: "ilog2 x = - ?k - 1" using x1 by (simp add: ilog2_def Let_def)
    from up F have "x < 2 powi (- ?k)" by simp
    with lo i show ?thesis by simp
  qed
qed


lemma float64_zero [simp]: "float64 0 = 0"
  by (simp add: float64_def)

lemma float64_err: "\<bar>float64 x - x\<bar> \<le> \<bar>x\<bar> / 2 ^ 53 + 1 / 2 ^ 1075"
proof (cases "x = 0")
  case True
  then show ?thesis by simp
next
  case False
  define e where "e = max (ilog2 \<bar>x\<bar>) (- 1022)"
  define u :: rat where "u = 2 powi (e - 52)"
  have u: "0 < u" by (simp add: u_def)
  have f: "float64 x = of_int (round_half_even (x / u)) * u"
    using False by (simp add: float64_def Let_def e_def u_def)
  have "float64 x - x = (of_int (round_half_even (x / u)) - x / u) * u"
    using u by (simp add: f field_simps)
  then have "\<bar>float64 x - x\<bar> = \<bar>of_int (round_half_even (x / u)) - x / u\<bar> * u"
    using u by (simp add: abs_mult)
  also have "\<dots> \<le> (1 / 2) * u"
    using round_half_even_err[of "x / u"] u by (intro mult_right_mono) simp_all
  also have "\<dots> = 2 powi (e - 53)"
  proof -
    have "(2::rat) powi (e - 52) = 2 powi (e - 53 + 1)" by simp
    also have "\<dots> = 2 powi (e - 53) * 2" by (subst power_int_add) simp_all
    finally show ?thesis by (simp add: u_def)
  qed
  finally have b: "\<bar>float64 x - x\<bar> \<le> 2 powi (e - 53)" .
  have "2 powi (e - 53) \<le> \<bar>x\<bar> / 2 ^ 53 + 1 / 2 ^ 1075"
  proof (cases "ilog2 \<bar>x\<bar> \<ge> - 1022")
    case True
    then have e: "e = ilog2 \<bar>x\<bar>" by (simp add: e_def)
    from False have "0 < \<bar>x\<bar>" by simp
    from ilog2_bounds[OF this] have "2 powi e \<le> \<bar>x\<bar>" by (simp add: e)
    moreover have "(2::rat) powi (e - 53) = 2 powi e / 2 ^ 53"
      by (subst power_int_diff) simp_all
    ultimately have "2 powi (e - 53) \<le> \<bar>x\<bar> / 2 ^ 53" by (simp add: divide_right_mono)
    then show ?thesis by simp
  next
    case F: False
    then have e: "e = - 1022" by (simp add: e_def)
    have "(2::rat) powi (- 1075) = 1 / 2 ^ 1075"
      by (simp add: power_int_minus_divide)
    then show ?thesis by (simp add: e)
  qed
  with b show ?thesis by linarith
qed

lemma float64_nonneg: "0 \<le> x \<Longrightarrow> 0 \<le> float64 x"
  by (auto simp: float64_def Let_def intro!: mult_nonneg_nonneg round_half_even_nonneg)


lemma float64_exact:
  assumes m: "\<bar>m\<bar> < 2 ^ 53" and k: "- 1074 \<le> k"
  shows "float64 (of_int m * 2 powi k) = of_int m * 2 powi k"
proof (cases "m = 0")
  case True
  then show ?thesis by simp
next
  case False
  let ?x = "of_int m * (2::rat) powi k"
  define e where "e = max (ilog2 \<bar>?x\<bar>) (- 1022)"
  have x0: "?x \<noteq> 0" using False by simp
  have ax: "\<bar>?x\<bar> = of_int \<bar>m\<bar> * 2 powi k" by (simp add: abs_mult)
  have le: "e \<le> k + 52"
  proof (cases "ilog2 \<bar>?x\<bar> \<ge> - 1022")
    case True
    then have e: "e = ilog2 \<bar>?x\<bar>" by (simp add: e_def)
    from x0 have "0 < \<bar>?x\<bar>" by simp
    from ilog2_bounds[OF this] have "2 powi e \<le> \<bar>?x\<bar>" by (simp add: e)
    also have "\<dots> < 2 ^ 53 * 2 powi k"
    proof -
      from m have "(of_int \<bar>m\<bar> :: rat) < of_int (2 ^ 53)" by (simp only: of_int_less_iff)
      then have "(of_int \<bar>m\<bar> :: rat) < 2 ^ 53" by simp
      then show ?thesis unfolding ax by (intro mult_strict_right_mono) simp_all
    qed
    also have "\<dots> = 2 powi (53 + k)" by (subst power_int_add) simp_all
    finally have lt: "(2::rat) powi e < 2 powi (53 + k)" .
    have "e < 53 + k"
    proof (rule ccontr)
      assume "\<not> e < 53 + k"
      then have "53 + k \<le> e" by simp
      then have "(2::rat) powi (53 + k) \<le> 2 powi e" by (intro power_int_increasing) simp_all
      with lt show False by simp
    qed
    then show ?thesis by simp
  next
    case F: False
    then have "e = - 1022" by (simp add: e_def)
    with k show ?thesis by simp
  qed
  define j where "j = nat (k + 52 - e)"
  from le have j: "int j = k + 52 - e" by (simp add: j_def)
  have "?x / 2 powi (e - 52) = of_int m * 2 powi (k - (e - 52))"
    by (subst (2) power_int_diff) simp_all
  also have "k - (e - 52) = int j" using j by simp
  also have "of_int m * (2::rat) powi (int j) = of_int (m * 2 ^ j)" by simp
  finally have q: "?x / 2 powi (e - 52) = of_int (m * 2 ^ j)" .
  have "float64 ?x = of_int (round_half_even (?x / 2 powi (e - 52))) * 2 powi (e - 52)"
    using x0 unfolding float64_def e_def Let_def by simp
  also have "\<dots> = of_int (m * 2 ^ j) * 2 powi (e - 52)"
    by (simp only: q round_half_even_of_int)
  also have "\<dots> = ?x / 2 powi (e - 52) * 2 powi (e - 52)" unfolding q ..
  also have "\<dots> = ?x" by simp
  finally show ?thesis .
qed

lemma float64_of_int_exact: "\<bar>m\<bar> < 2 ^ 53 \<Longrightarrow> float64 (of_int m) = of_int m"
  using float64_exact[of m 0] by simp


lemma float64_upper:
  assumes "0 \<le> x"
  shows "float64 x \<le> x * (1 + 1 / 2 ^ 53) + 1 / 2 ^ 60"
proof -
  from float64_err[of x] assms have "float64 x \<le> x + x / 2 ^ 53 + 1 / 2 ^ 1075"
    by (simp add: abs_le_iff)
  moreover have "(1::rat) / 2 ^ 1075 \<le> 1 / 2 ^ 60"
    by (intro divide_left_mono power_increasing) simp_all
  ultimately show ?thesis by (simp add: algebra_simps)
qed

lemma jitter_bounds:
  assumes r: "0 \<le> r" "r < 1" and E: "0 \<le> E" "E \<le> 2 ^ 40"
  shows "0 \<le> float64 (float64 (r * E) * tenth) \<and>
         10 * float64 (float64 (r * E) * tenth) < E + 1"
proof -
  let ?y1 = "float64 (r * E)"
  let ?y2 = "float64 (?y1 * tenth)"
  have t0: "0 \<le> tenth" by (simp add: tenth_def)
  have x1: "0 \<le> r * E" using r E by simp
  have x1E: "r * E \<le> E" using r E by (simp add: mult_left_le_one_le)
  have y1: "0 \<le> ?y1" using x1 by (rule float64_nonneg)
  have "?y1 \<le> r * E * (1 + 1 / 2 ^ 53) + 1 / 2 ^ 60" using x1 by (rule float64_upper)
  also have "\<dots> \<le> E * (1 + 1 / 2 ^ 53) + 1 / 2 ^ 60"
    using x1E by (intro add_right_mono mult_right_mono) simp_all
  finally have y1u: "?y1 \<le> E * (1 + 1 / 2 ^ 53) + 1 / 2 ^ 60" .
  have x2: "0 \<le> ?y1 * tenth" using y1 t0 by simp
  have y2: "0 \<le> ?y2" using x2 by (rule float64_nonneg)
  have "?y2 \<le> ?y1 * tenth * (1 + 1 / 2 ^ 53) + 1 / 2 ^ 60" using x2 by (rule float64_upper)
  also have "\<dots> \<le> (E * (1 + 1 / 2 ^ 53) + 1 / 2 ^ 60) * tenth * (1 + 1 / 2 ^ 53) + 1 / 2 ^ 60"
    using y1u t0 by (intro add_right_mono mult_right_mono) simp_all
  finally have y2u: "?y2 \<le> (E * (1 + 1 / 2 ^ 53) + 1 / 2 ^ 60) * tenth * (1 + 1 / 2 ^ 53) + 1 / 2 ^ 60" .
  define K :: rat where "K = (1 + 1 / 2 ^ 53) * (10 * tenth) * (1 + 1 / 2 ^ 53)"
  define L :: rat where "L = (1 / 2 ^ 60) * (10 * tenth) * (1 + 1 / 2 ^ 53) + 10 / 2 ^ 60"
  have eq: "10 * ((E * (1 + 1 / 2 ^ 53) + 1 / 2 ^ 60) * tenth * (1 + 1 / 2 ^ 53) + 1 / 2 ^ 60)
          = E * K + L"
    unfolding K_def L_def by (simp only: algebra_simps)
  have K: "K \<le> 1 + 1 / 2 ^ 51" unfolding K_def tenth_def by simp
  have L: "L \<le> 1 / 2 ^ 50" unfolding L_def tenth_def by simp
  have "E * K \<le> E * (1 + 1 / 2 ^ 51)" using K E(1) by (rule mult_left_mono)
  from this L have "E * K + L \<le> E * (1 + 1 / 2 ^ 51) + 1 / 2 ^ 50" by (rule add_mono)
  with eq have k: "10 * ((E * (1 + 1 / 2 ^ 53) + 1 / 2 ^ 60) * tenth * (1 + 1 / 2 ^ 53) + 1 / 2 ^ 60)
            \<le> E * (1 + 1 / 2 ^ 51) + 1 / 2 ^ 50" by simp
  have "E * (1 + 1 / 2 ^ 51) + 1 / 2 ^ 50 < E + 1"
  proof -
    have "E * (1 / 2 ^ 51) \<le> 2 ^ 40 * (1 / 2 ^ 51)" using E(2) by (intro mult_right_mono) simp_all
    then have "E * (1 / 2 ^ 51) \<le> 1 / 2 ^ 11" by simp
    then show ?thesis by (simp add: algebra_simps)
  qed
  moreover have "10 * ?y2 \<le> 10 * ((E * (1 + 1 / 2 ^ 53) + 1 / 2 ^ 60) * tenth * (1 + 1 / 2 ^ 53) + 1 / 2 ^ 60)"
    using y2u by (intro mult_left_mono) simp_all
  ultimately have "10 * ?y2 < E + 1" using k by (meson le_less_trans order_trans)
  with y2 show ?thesis by simp
qed

lemma Pow2_exact:
  assumes "\<bar>base\<bar> < 2 ^ 53"
  shows "float64 (float64 (of_int base) * Pow2 a) = of_int base * Pow2 a"
proof (cases "a < - 1074")
  case True
  then show ?thesis by (simp add: Pow2_def)
next
  case False
  then have "- 1074 \<le> a" by simp
  from float64_exact[OF assms this] float64_of_int_exact[OF assms] False
  show ?thesis by (simp add: Pow2_def)
qed


lemma Duration_of_float64_nonneg:
  "0 \<le> f \<Longrightarrow> f < 2 ^ 63 \<Longrightarrow> Duration_of_float64 f = Some \<lfloor>f\<rfloor>"
  by (simp add: Duration_of_float64_def in_int64_def floor_less_iff le_floor_iff)

lemma Pow2_bounds:
  assumes "a \<le> 10"
  shows "0 \<le> Pow2 a" and "Pow2 a \<le> 1024"
proof -
  show "0 \<le> Pow2 a" by (simp add: Pow2_def)
  have "(2::rat) powi a \<le> 2 powi 10" using assms by (intro power_int_increasing) simp_all
  then show "Pow2 a \<le> 1024" by (simp add: Pow2_def)
qed

lemma int64_wrap_id: "in_int64 v \<Longrightarrow> int64_wrap v = v"
  by (simp add: int64_wrap_def in_int64_def)

lemma capped_jitter:
  assumes r: "0 \<le> r" "r < 1" and E: "0 \<le> E" "E < 2 ^ 63"
  shows "\<exists>j. (let Ec = (if \<lfloor>E\<rfloor> > 5 * Minute then float64 (of_int (5 * Minute)) else E)
              in case Duration_of_float64 (float64 (float64 (r * Ec) * tenth)) of
                   None \<Rightarrow> None
                 | Some jitter \<Rightarrow>
                     (case Duration_of_float64 Ec of
                        None \<Rightarrow> None
                      | Some d \<Rightarrow> Some (int64_wrap (d + jitter))))
              = Some ((if \<lfloor>E\<rfloor> > 5 * Minute then 5 * Minute else \<lfloor>E\<rfloor>) + j) \<and>
            0 \<le> j \<and>
            of_int (10 * j) < (if \<lfloor>E\<rfloor> > 5 * Minute then of_int (5 * Minute) else E) + 1"
proof -
  define Ec where "Ec = (if \<lfloor>E\<rfloor> > 5 * Minute then of_int (5 * Minute) else E)"
  have m: "5 * Minute = 300000000000" by (simp add: Minute_def Second_def)
  have fm: "float64 (of_int (5 * Minute)) = of_int (5 * Minute)"
    unfolding m by (rule float64_of_int_exact) simp
  have Ec0: "0 \<le> Ec" using E(1) by (simp add: Ec_def m)
  have Ecu: "Ec \<le> 300000000001"
  proof (cases "\<lfloor>E\<rfloor> > 5 * Minute")
    case True
    then show ?thesis by (simp add: Ec_def m)
  next
    case False
    then have "\<lfloor>E\<rfloor> \<le> 300000000000" by (simp add: m)
    then have "E < 300000000001" by (simp add: floor_le_iff)
    with False show ?thesis by (simp add: Ec_def)
  qed
  then have Ec40: "Ec \<le> 2 ^ 40" by simp
  let ?y = "float64 (float64 (r * Ec) * tenth)"
  from jitter_bounds[OF r Ec0 Ec40] have y: "0 \<le> ?y" "10 * ?y < Ec + 1" by simp_all
  from y(2) Ecu have yu: "?y < 2 ^ 63" by simp
  define j where "j = \<lfloor>?y\<rfloor>"
  have dj: "Duration_of_float64 ?y = Some j"
    unfolding j_def using y(1) yu by (rule Duration_of_float64_nonneg)
  have j0: "0 \<le> j" using y(1) by (simp add: j_def)
  have "of_int j \<le> ?y" by (simp add: j_def)
  then have "10 * of_int j \<le> 10 * ?y" by simp
  with y(2) have j10: "of_int (10 * j) < Ec + 1" by simp
  have dE: "Duration_of_float64 Ec = Some \<lfloor>Ec\<rfloor>"
    using Ec0 Ecu by (intro Duration_of_float64_nonneg) simp_all
  have fl: "\<lfloor>Ec\<rfloor> = (if \<lfloor>E\<rfloor> > 5 * Minute then 5 * Minute else \<lfloor>E\<rfloor>)"
    by (simp add: Ec_def m)
  define d where "d = \<lfloor>Ec\<rfloor>"
  have f0: "0 \<le> d" using Ec0 by (simp add: d_def)
  have f1: "d \<le> 300000000001" using Ecu by (simp add: d_def floor_le_iff)
  from j10 Ecu have "of_int (10 * j) < (300000000002 :: rat)" by simp
  then have f2: "10 * j < 300000000002" by (simp only: of_int_less_numeral_iff)
  have p63: "(2::int) ^ 63 = 9223372036854775808" by simp
  have "in_int64 (d + j)" unfolding in_int64_def p63 using f0 f1 f2 j0 by linarith
  then have "in_int64 (\<lfloor>Ec\<rfloor> + j)" by (simp only: d_def)
  then have w: "int64_wrap (\<lfloor>Ec\<rfloor> + j) = \<lfloor>Ec\<rfloor> + j" by (rule int64_wrap_id)
  have Ec': "(if \<lfloor>E\<rfloor> > 5 * Minute then float64 (of_int (5 * Minute)) else E) = Ec"
    by (simp only: Ec_def fm)
  show ?thesis
    unfolding Let_def Ec' using dj dE w fl j0 j10
    by (intro exI[of _ j]) (simp add: Ec_def)
qed

lemma NextBackoff_nonneg_base:
  assumes b: "0 \<le> base" "base < 2 ^ 53" and r: "0 \<le> r" "r < 1"
  shows "\<exists>j. NextBackoff base attempt r =
              Some ((if \<lfloor>of_int base * Pow2 (min attempt 10)\<rfloor> > 5 * Minute then 5 * Minute
                     else \<lfloor>of_int base * Pow2 (min attempt 10)\<rfloor>) + j) \<and>
            0 \<le> j \<and>
            of_int (10 * j) <
              (if \<lfloor>of_int base * Pow2 (min attempt 10)\<rfloor> > 5 * Minute then of_int (5 * Minute)
               else of_int base * Pow2 (min attempt 10)) + 1"
proof -
  let ?a = "min attempt 10"
  let ?E = "of_int base * Pow2 ?a :: rat"
  have a: "(if attempt > 10 then 10 else attempt) = ?a" by simp
  have ab: "\<bar>base\<bar> < 2 ^ 53" using b by simp
  have ex: "float64 (float64 (of_int base) * Pow2 ?a) = ?E" using ab by (rule Pow2_exact)
  have E0: "0 \<le> ?E" using b(1) Pow2_bounds(1)[of ?a] by simp
  have "?E \<le> of_int base * 1024"
    using b(1) Pow2_bounds(2)[of ?a] by (intro mult_left_mono) simp_all
  also have "\<dots> < 2 ^ 53 * 1024"
  proof -
    from b(2) have "(of_int base :: rat) < of_int (2 ^ 53)" by (simp only: of_int_less_iff)
    then show ?thesis by simp
  qed
  finally have Eu: "?E < 2 ^ 63" by simp
  have d0: "Duration_of_float64 ?E = Some \<lfloor>?E\<rfloor>" using E0 Eu by (rule Duration_of_float64_nonneg)
  from capped_jitter[OF r E0 Eu] obtain j where j:
    "(let Ec = (if \<lfloor>?E\<rfloor> > 5 * Minute then float64 (of_int (5 * Minute)) else ?E)
              in case Duration_of_float64 (float64 (float64 (r * Ec) * tenth)) of
                   None \<Rightarrow> None
                 | Some jitter \<Rightarrow>
                     (case Duration_of_float64 Ec of
                        None \<Rightarrow> None
                      | Some d \<Rightarrow> Some (int64_wrap (d + jitter))))
              = Some ((if \<lfloor>?E\<rfloor> > 5 * Minute then 5 * Minute else \<lfloor>?E\<rfloor>) + j)"
    "0 \<le> j"
    "of_int (10 * j) < (if \<lfloor>?E\<rfloor> > 5 * Minute then of_int (5 * Minute) else ?E) + 1"
    by blast
  have "NextBackoff base attempt r =
          Some ((if \<lfloor>?E\<rfloor> > 5 * Minute then 5 * Minute else \<lfloor>?E\<rfloor>) + j)"
    unfolding NextBackoff_def Let_def a ex d0 using j(1) by (simp add: Let_def)
  with j(2,3) show ?thesis by blast
qed

lemma NextBackoff_pos_base:
  assumes "0 < base" and "base < 2 ^ 53" and "0 \<le> attempt" and "0 \<le> rnd" and "rnd < 1"
  shows "\<exists>jitter.
           NextBackoff base attempt rnd =
             Some (min (base * 2 ^ nat (min attempt 10)) (5 * Minute) + jitter) \<and>
           0 \<le> jitter \<and>
           10 * jitter \<le> min (base * 2 ^ nat (min attempt 10)) (5 * Minute)"
proof -
  let ?n = "nat (min attempt 10)"
  let ?v = "min (base * 2 ^ ?n) (5 * Minute)"
  have b0: "0 \<le> base" using assms(1) by simp
  have p: "Pow2 (min attempt 10) = 2 ^ ?n"
    using assms(3) by (simp add: Pow2_def power_int_def)
  have E: "(of_int base * Pow2 (min attempt 10) :: rat) = of_int (base * 2 ^ ?n)"
    unfolding p by simp
  from NextBackoff_nonneg_base[OF b0 assms(2,4,5), of attempt] obtain j where j:
    "NextBackoff base attempt rnd =
       Some ((if \<lfloor>(of_int (base * 2 ^ ?n) :: rat)\<rfloor> > 5 * Minute then 5 * Minute
              else \<lfloor>(of_int (base * 2 ^ ?n) :: rat)\<rfloor>) + j)"
    "0 \<le> j"
    "of_int (10 * j) <
       (if \<lfloor>(of_int (base * 2 ^ ?n) :: rat)\<rfloor> > 5 * Minute then of_int (5 * Minute)
        else (of_int (base * 2 ^ ?n) :: rat)) + 1"
    unfolding E by blast
  have f: "\<lfloor>(of_int (base * 2 ^ ?n) :: rat)\<rfloor> = base * 2 ^ ?n" by (rule floor_of_int)
  have v: "(if base * 2 ^ ?n > 5 * Minute then 5 * Minute else base * 2 ^ ?n) = ?v"
    by (simp add: min_def)
  have 1: "NextBackoff base attempt rnd = Some (?v + j)"
    using j(1) unfolding f v .
  have "(if base * 2 ^ ?n > 5 * Minute then of_int (5 * Minute)
        else (of_int (base * 2 ^ ?n) :: rat)) = of_int ?v"
    by (simp add: min_def)
  with j(3) have "(of_int (10 * j) :: rat) < of_int ?v + 1" unfolding f by simp
  then have "(of_int (10 * j) :: rat) < of_int (?v + 1)" by simp
  then have "10 * j < ?v + 1" by (simp only: of_int_less_iff)
  then have 2: "10 * j \<le> ?v" by simp
  from 1 j(2) 2 show ?thesis by blast
qed

subsection \<open>Negative arguments\<close>











section \<open>Properties of the scheduling strategies\<close>


lemma leastLoaded_loop_inv:
  "leastLoaded_loop need i xs (b0, m0) = (b, m) \<Longrightarrow>
     m0 \<le> m \<and>
     (\<forall>x \<in> set xs. need \<le> getAvailableGPUs x \<longrightarrow> getAvailableGPUs x \<le> m) \<and>
     ((b = b0 \<and> m = m0) \<or>
      (\<exists>k < length xs. b = Some (i + k) \<and> m = getAvailableGPUs (xs ! k) \<and> need \<le> m \<and> m0 < m \<and>
           (\<forall>j < k. getAvailableGPUs (xs ! j) < m)))"
proof (induction xs arbitrary: i b0 m0)
  case Nil
  then show ?case by simp
next
  case (Cons x xs)
  let ?a = "getAvailableGPUs x"
  show ?case
  proof (cases "?a \<ge> need \<and> ?a > m0")
    case True
    with Cons.prems have "leastLoaded_loop need (Suc i) xs (Some i, ?a) = (b, m)" by simp
    from Cons.IH[OF this] have le: "?a \<le> m"
      and all: "\<forall>y \<in> set xs. need \<le> getAvailableGPUs y \<longrightarrow> getAvailableGPUs y \<le> m"
      and dis: "(b = Some i \<and> m = ?a) \<or>
         (\<exists>k < length xs. b = Some (Suc i + k) \<and> m = getAvailableGPUs (xs ! k) \<and> need \<le> m \<and> ?a < m \<and>
           (\<forall>j < k. getAvailableGPUs (xs ! j) < m))" by blast+
    from dis have "\<exists>k < length (x # xs). b = Some (i + k) \<and> m = getAvailableGPUs ((x # xs) ! k) \<and> need \<le> m \<and> m0 < m \<and>
           (\<forall>j < k. getAvailableGPUs ((x # xs) ! j) < m)"
    proof
      assume "b = Some i \<and> m = ?a"
      with True show ?thesis by (intro exI[of _ 0]) simp
    next
      assume "\<exists>k < length xs. b = Some (Suc i + k) \<and> m = getAvailableGPUs (xs ! k) \<and> need \<le> m \<and> ?a < m \<and>
           (\<forall>j < k. getAvailableGPUs (xs ! j) < m)"
      then obtain k where k: "k < length xs" "b = Some (Suc i + k)" "m = getAvailableGPUs (xs ! k)"
        "need \<le> m" "?a < m" "\<forall>j < k. getAvailableGPUs (xs ! j) < m" by blast
      have "\<forall>j < Suc k. getAvailableGPUs ((x # xs) ! j) < m"
        using k(5,6) by (simp add: less_Suc_eq_0_disj) auto
      with k True show ?thesis by (intro exI[of _ "Suc k"]) simp
    qed
    with le all True show ?thesis by auto
  next
    case False
    with Cons.prems have "leastLoaded_loop need (Suc i) xs (b0, m0) = (b, m)" by auto
    from Cons.IH[OF this] have le: "m0 \<le> m"
      and all: "\<forall>y \<in> set xs. need \<le> getAvailableGPUs y \<longrightarrow> getAvailableGPUs y \<le> m"
      and dis: "(b = b0 \<and> m = m0) \<or>
         (\<exists>k < length xs. b = Some (Suc i + k) \<and> m = getAvailableGPUs (xs ! k) \<and> need \<le> m \<and> m0 < m \<and>
           (\<forall>j < k. getAvailableGPUs (xs ! j) < m))" by blast+
    from dis have "(b = b0 \<and> m = m0) \<or> (\<exists>k < length (x # xs). b = Some (i + k) \<and> m = getAvailableGPUs ((x # xs) ! k) \<and> need \<le> m \<and> m0 < m \<and>
           (\<forall>j < k. getAvailableGPUs ((x # xs) ! j) < m))"
    proof
      assume "b = b0 \<and> m = m0"
      then show ?thesis by simp
    next
      assume "\<exists>k < length xs. b = Some (Suc i + k) \<and> m = getAvailableGPUs (xs ! k) \<and> need \<le> m \<and> m0 < m \<and>
           (\<forall>j < k. getAvailableGPUs (xs ! j) < m)"
      then obtain k where k: "k < length xs" "b = Some (Suc i + k)" "m = getAvailableGPUs (xs ! k)"
        "need \<le> m" "m0 < m" "\<forall>j < k. getAvailableGPUs (xs ! j) < m" by blast
      have "?a < m" using False k(4,5) by auto
      then have "\<forall>j < Suc k. getAvailableGPUs ((x # xs) ! j) < m"
        using k(6) by (simp add: less_Suc_eq_0_disj) auto
      with k show ?thesis by (intro disjI2 exI[of _ "Suc k"]) simp
    qed
    with le all False show ?thesis by auto
  qed
qed


lemma leastLoaded_loop_None:
  assumes "leastLoaded_loop need i xs (None, m0) = (b, m)"
  shows "b = None \<longleftrightarrow> (\<forall>x \<in> set xs. \<not> (need \<le> getAvailableGPUs x \<and> m0 < getAvailableGPUs x))"
  using assms
proof (induction xs arbitrary: i m0)
  case Nil
  then show ?case by simp
next
  case (Cons x xs)
  show ?case
  proof (cases "need \<le> getAvailableGPUs x \<and> m0 < getAvailableGPUs x")
    case True
    with Cons.prems have "leastLoaded_loop need (Suc i) xs (Some i, getAvailableGPUs x) = (b, m)"
      by simp
    from leastLoaded_loop_inv[OF this] have "b \<noteq> None" by auto
    with True show ?thesis by auto
  next
    case False
    with Cons.prems have "leastLoaded_loop need (Suc i) xs (None, m0) = (b, m)" by auto
    from Cons.IH[OF this] False show ?thesis by auto
  qed
qed

lemma LeastLoaded_index_error:
  assumes "0 \<le> GPUCount (Spec gw)"
    and "nodes = [] \<or> (\<forall>n \<in> set nodes. getAvailableGPUs n < GPUCount (Spec gw))"
  shows "\<exists>e. LeastLoaded_index nodes gw = Inl e \<and> e \<noteq> NilPointerDereference"
proof (cases "nodes = []")
  case True
  then show ?thesis by (simp add: LeastLoaded_index_def)
next
  case False
  with assms(2) have none: "\<forall>n \<in> set nodes. getAvailableGPUs n < GPUCount (Spec gw)" by simp
  obtain b m where bm: "leastLoaded_loop (GPUCount (Spec gw)) 0 nodes (None, - 1) = (b, m)"
    by (cases "leastLoaded_loop (GPUCount (Spec gw)) 0 nodes (None, - 1)") 
  from leastLoaded_loop_None[OF bm] none have "b = None" by fastforce
  with bm False show ?thesis by (simp add: LeastLoaded_index_def)
qed

lemma LeastLoaded_index_found:
  assumes "0 \<le> GPUCount (Spec gw)"
    and "\<exists>n \<in> set nodes. GPUCount (Spec gw) \<le> getAvailableGPUs n"
  shows "\<exists>i. LeastLoaded_index nodes gw = Inr i \<and> first_best (GPUCount (Spec gw)) nodes i"
proof -
  let ?need = "GPUCount (Spec gw)"
  from assms(2) have ne: "nodes \<noteq> []" by auto
  obtain b m where bm: "leastLoaded_loop ?need 0 nodes (None, - 1) = (b, m)"
    by (cases "leastLoaded_loop ?need 0 nodes (None, - 1)") 
  from leastLoaded_loop_None[OF bm] assms have "b \<noteq> None" by fastforce
  with leastLoaded_loop_inv[OF bm] obtain k where k: "k < length nodes" "b = Some k"
    "m = getAvailableGPUs (nodes ! k)" "?need \<le> m" "\<forall>j < k. getAvailableGPUs (nodes ! j) < m"
    and all: "\<forall>x \<in> set nodes. ?need \<le> getAvailableGPUs x \<longrightarrow> getAvailableGPUs x \<le> m"
    by auto
  have "first_best ?need nodes k"
    unfolding first_best_def using k all by auto
  moreover have "LeastLoaded_index nodes gw = Inr k"
    using bm k(2) ne by (simp add: LeastLoaded_index_def)
  ultimately show ?thesis by blast
qed

lemma first_best_unique:
  "first_best need nodes i \<Longrightarrow> first_best need nodes j \<Longrightarrow> i = j"
  unfolding first_best_def
  by (metis linorder_neqE_nat not_less)

lemma cheap_loop_eq:
  "\<forall>x \<in> set xs. need \<le> getAvailableGPUs x \<Longrightarrow>
     cheap_loop i xs st = leastLoaded_loop need i xs st"
  by (induction xs arbitrary: i st) (auto simp: Let_def split: prod.splits)


lemma getAvailableGPUs_createMockNode [simp]:
  "getAvailableGPUs (createMockNode name n) = n"
  by (simp add: getAvailableGPUs_def createMockNode_def)

lemma GPUCount_createMockGPUWorkload [simp]:
  "GPUCount (Spec (createMockGPUWorkload n)) = n"
  by (simp add: createMockGPUWorkload_def)


lemma set_cheapNodes_of:
  "n \<in> set (cheapNodes_of nodes gw) \<longleftrightarrow>
     n \<in> set nodes \<and> is_cheap n \<and> GPUCount (Spec gw) \<le> getAvailableGPUs n"
  by (auto simp: cheapNodes_of_def)

lemma LeastLoaded_ChooseNode_Inl:
  assumes "0 \<le> GPUCount (Spec gw)" and "LeastLoaded_ChooseNode nodes gw = Inl e"
  shows "nodes = [] \<or> (\<forall>n \<in> set nodes. getAvailableGPUs n < GPUCount (Spec gw))"
proof (rule ccontr)
  assume "\<not> ?thesis"
  then have "\<exists>n \<in> set nodes. GPUCount (Spec gw) \<le> getAvailableGPUs n"
    by (auto simp: not_less)
  from LeastLoaded_index_found[OF assms(1) this] obtain i
    where "LeastLoaded_index nodes gw = Inr i" by blast
  with assms(2) show False by (simp add: LeastLoaded_ChooseNode_def)
qed

lemma CostOptimized_cheap:
  assumes "0 \<le> GPUCount (Spec gw)" and ne: "cheapNodes_of nodes gw \<noteq> []"
  shows "CostOptimized_ChooseNode nodes gw = LeastLoaded_ChooseNode (cheapNodes_of nodes gw) gw"
    and "\<exists>n. CostOptimized_ChooseNode nodes gw = Inr n \<and> n \<in> set nodes \<and> is_cheap n \<and>
             GPUCount (Spec gw) \<le> getAvailableGPUs n"
proof -
  let ?need = "GPUCount (Spec gw)"
  let ?cheap = "cheapNodes_of nodes gw"
  have allq: "\<forall>x \<in> set ?cheap. ?need \<le> getAvailableGPUs x"
    by (simp add: set_cheapNodes_of)
  from ne have nn: "nodes \<noteq> []" by (auto simp: cheapNodes_of_def)
  from ne obtain x where "x \<in> set ?cheap" by (cases ?cheap) auto
  with allq have "\<exists>n \<in> set ?cheap. ?need \<le> getAvailableGPUs n" by blast
  from LeastLoaded_index_found[OF assms(1) this] obtain i
    where i: "LeastLoaded_index ?cheap gw = Inr i" "first_best ?need ?cheap i" by blast
  from i(1) ne have loop: "fst (leastLoaded_loop ?need 0 ?cheap (None, - 1)) = Some i"
    by (auto simp: LeastLoaded_index_def split: option.splits)
  have co: "CostOptimized_ChooseNode nodes gw = Inr (?cheap ! i)"
    using nn ne loop cheap_loop_eq[OF allq, of 0 "(None, - 1)"]
    by (simp add: CostOptimized_ChooseNode_def Let_def)
  have ll: "LeastLoaded_ChooseNode ?cheap gw = Inr (?cheap ! i)"
    using i(1) by (simp add: LeastLoaded_ChooseNode_def)
  from co ll show "CostOptimized_ChooseNode nodes gw = LeastLoaded_ChooseNode ?cheap gw" by simp
  from i(2) have "i < length ?cheap" by (simp add: first_best_def)
  then have "?cheap ! i \<in> set ?cheap" by simp
  then have "?cheap ! i \<in> set nodes \<and> is_cheap (?cheap ! i) \<and> ?need \<le> getAvailableGPUs (?cheap ! i)"
    by (simp only: set_cheapNodes_of)
  with co show "\<exists>n. CostOptimized_ChooseNode nodes gw = Inr n \<and> n \<in> set nodes \<and> is_cheap n \<and>
             ?need \<le> getAvailableGPUs n" by blast
qed

lemma CostOptimized_fallback:
  assumes "cheapNodes_of nodes gw = []"
  shows "CostOptimized_ChooseNode nodes gw = LeastLoaded_ChooseNode nodes gw"
  using assms
  by (simp add: CostOptimized_ChooseNode_def LeastLoaded_ChooseNode_def LeastLoaded_index_def)

section \<open>Properties of the controller\<close>

lemmas model_defs =
  Reconcile_def reconcile_fetched_def add_finalizer_def init_phase_def check_retries_def
  schedule_def place_def update_and_requeue_def handleDeletion_def createJobForWorkload_def
  requeueWithBackoff_def client_Get_def client_Update_def client_Status_Update_def
  client_List_Nodes_def client_Get_Job_def client_Create_Job_def client_Delete_Job_def
  record_call_def key_of_def already_scheduled_def maxRetries_of_def
  PhasePending_def PhaseScheduled_def PhaseRunning_def PhaseSucceeded_def PhaseFailed_def
  finalizerName_def no_requeue_def IgnoreNotFound_def

lemmas example_defs =
  example_cluster_def example_workload_def example_node_def example_key_def quiet_env_def
  createMockNode_def request_deletion_def

lemmas strategy_defs =
  isNodeReady_def hasGPUs_def Factory_def ChooseNode_def LeastLoaded_ChooseNode_def
  LeastLoaded_index_def getAvailableGPUs_def jobName_of_def Strategy_Name_def

subsection \<open>The skip of a placed workload\<close>

lemma Reconcile_already_scheduled:
  assumes "workloads c req = Some gw" and "already_scheduled gw"
  shows "Reconcile env req c =
           (case err_Get env of
              None \<Rightarrow>
                (c\<lparr> calls := calls c @ [Get_GPUWorkload req,
                      Metric_ReconcileDuration
                        (if Phase (Status gw) = PhaseSucceeded then ''error'' else ''success'')] \<rparr>,
                 no_requeue, None)
            | Some e \<Rightarrow>
                (c\<lparr> calls := calls c @ [Get_GPUWorkload req] \<rparr>, no_requeue,
                 map_option ApiError (IgnoreNotFound e)))"
  using assms
  by (auto simp: Reconcile_def client_Get_def record_call_def reconcile_fetched_def
      already_scheduled_def PhaseScheduled_def PhaseRunning_def PhaseSucceeded_def
      split: option.splits)

lemma Reconcile_passes_already_scheduled:
  assumes "workloads c req = Some gw" and "already_scheduled gw"
  shows "workloads (Reconcile_passes envs req c) = workloads c \<and>
         jobs (Reconcile_passes envs req c) = jobs c \<and>
         filter is_write (calls (Reconcile_passes envs req c)) = filter is_write (calls c)"
  using assms(1)
proof (induction envs arbitrary: c)
  case Nil
  then show ?case by simp
next
  case (Cons env envs)
  let ?c1 = "fst (Reconcile env req c)"
  from Reconcile_already_scheduled[OF Cons.prems assms(2), of env]
  have c1: "workloads ?c1 = workloads c" "jobs ?c1 = jobs c"
    "filter is_write (calls ?c1) = filter is_write (calls c)"
    by (cases "err_Get env"; simp add: is_write_def)+
  from c1(1) Cons.prems have "workloads ?c1 req = Some gw" by simp
  from Cons.IH[OF this] c1 show ?case by simp
qed

subsection \<open>The scenario of a deletion after placement\<close>

lemma scheduled_cluster_workload:
  "workloads scheduled_cluster example_key =
     Some (example_workload\<lparr> Finalizers := [finalizerName],
        Status := \<lparr> Phase = PhaseScheduled, AssignedNode = ''node1'', LastScheduleTime = Some 0,
                    RetryCount = 0,
                    Message = ''Successfully scheduled on node node1 using leastLoaded strategy'',
                    JobName = ''train-job-0a1b2c3d'' \<rparr> \<rparr>)"
  unfolding scheduled_cluster_def
  by (simp add: model_defs example_defs strategy_defs Let_def build_Job_def)

lemma scheduled_cluster_job:
  "jobs scheduled_cluster (''default'', ''train-job-0a1b2c3d'') =
     Some (build_Job (example_workload\<lparr> Finalizers := [finalizerName],
              Status := (Status example_workload)\<lparr> Phase := PhasePending, LastScheduleTime := Some 0 \<rparr> \<rparr>)
            example_node)"
  unfolding scheduled_cluster_def
  by (simp add: model_defs example_defs strategy_defs Let_def build_Job_def)


lemma scheduled_cluster_calls:
  "calls scheduled_cluster =
     [Get_GPUWorkload example_key, Update_GPUWorkload example_key, Update_Status example_key,
      List_Nodes, Get_Job (''default'', ''train-job-0a1b2c3d''),
      Create_Job (''default'', ''train-job-0a1b2c3d''), Update_Status example_key,
      Record_Event ''Normal'' ''Scheduled''
        ''Successfully scheduled on node node1 using leastLoaded strategy'',
      Metric_SchedulingSuccess ''leastLoaded'', Metric_ReconcileDuration ''success'']"
  unfolding scheduled_cluster_def
  by (simp add: model_defs example_defs strategy_defs Let_def build_Job_def)

lemma deleting_cluster_workload:
  "workloads deleting_cluster example_key =
     Some (example_workload\<lparr> DeletionTimestamp := Some 1, Finalizers := [finalizerName],
        Status := \<lparr> Phase = PhaseScheduled, AssignedNode = ''node1'', LastScheduleTime = Some 0,
                    RetryCount = 0,
                    Message = ''Successfully scheduled on node node1 using leastLoaded strategy'',
                    JobName = ''train-job-0a1b2c3d'' \<rparr> \<rparr>)"
  unfolding deleting_cluster_def request_deletion_def
  by (simp add: scheduled_cluster_workload finalizerName_def example_workload_def)

lemma deleting_cluster_rest:
  "jobs deleting_cluster = jobs scheduled_cluster" "calls deleting_cluster = calls scheduled_cluster"
  unfolding deleting_cluster_def request_deletion_def
  by (simp_all add: scheduled_cluster_workload finalizerName_def)

lemma pending_deleted_is_cleaned_up:
  "Reconcile quiet_env example_key (set_phase PhasePending example_key deleting_cluster) =
     ((set_phase PhasePending example_key deleting_cluster)
        \<lparr> workloads := (workloads deleting_cluster)(example_key := None),
          jobs := (jobs deleting_cluster)((''default'', ''train-job-0a1b2c3d'') := None),
          calls := calls deleting_cluster @
            [Get_GPUWorkload example_key, Get_Job (''default'', ''train-job-0a1b2c3d''),
             Delete_Job (''default'', ''train-job-0a1b2c3d''), Update_GPUWorkload example_key,
             Metric_ReconcileDuration ''error''] \<rparr>,
      no_requeue, None)"
  unfolding set_phase_def
  apply (simp add: deleting_cluster_workload deleting_cluster_rest scheduled_cluster_job)
  apply (simp add: model_defs example_defs Let_def build_Job_def jobName_of_def deleting_cluster_rest scheduled_cluster_job)
  done

subsection \<open>Creating the Job\<close>

lemma createJobForWorkload_creates:
  assumes "8 \<le> length (UID gw)" and "err_JobGet env = None" and "err_JobCreate env = None"
    and "jobs c (Namespace gw, jobName_of gw) = None"
  shows "createJobForWorkload env gw node c =
           (c\<lparr> jobs := (jobs c)((Namespace gw, jobName_of gw) \<mapsto> build_Job gw node),
               calls := calls c @ [Get_Job (Namespace gw, jobName_of gw),
                                   Create_Job (Namespace gw, jobName_of gw)] \<rparr>,
            Inr (build_Job gw node))"
  using assms
  by (simp add: createJobForWorkload_def client_Get_Job_def client_Create_Job_def
      record_call_def Let_def build_Job_def)

lemma createJobForWorkload_adopts:
  assumes "8 \<le> length (UID gw)" and "err_JobGet env = None"
    and "jobs c (Namespace gw, jobName_of gw) = Some job"
  shows "createJobForWorkload env gw node c =
           (c\<lparr> calls := calls c @ [Get_Job (Namespace gw, jobName_of gw)] \<rparr>, Inr job)"
  using assms
  by (simp add: createJobForWorkload_def client_Get_Job_def record_call_def Let_def)


lemma decimal_bounds:
  "n < 10 ^ length (decimal n) \<and> (10 \<le> n \<longrightarrow> 10 ^ (length (decimal n) - 1) \<le> n) \<and>
   (n < 10 \<longrightarrow> length (decimal n) = 1)"
proof (induction n rule: decimal.induct)
  case (1 n)
  show ?case
  proof (cases "n < 10")
    case True
    then have "decimal n = [char_of (48 + n)]" by (subst decimal.simps) simp
    with True show ?thesis by simp
  next
    case False
    let ?m = "n div 10"
    from False have m: "1 \<le> ?m" by simp
    from 1[OF False] have ih: "?m < 10 ^ length (decimal ?m)"
      "10 \<le> ?m \<longrightarrow> 10 ^ (length (decimal ?m) - 1) \<le> ?m"
      "?m < 10 \<longrightarrow> length (decimal ?m) = 1" by blast+
    have len: "length (decimal n) = Suc (length (decimal ?m))"
      using False by (subst decimal.simps) simp
    have up: "n < 10 ^ length (decimal n)"
    proof -
      from ih(1) have "?m + 1 \<le> 10 ^ length (decimal ?m)" by simp
      then have "10 * (?m + 1) \<le> 10 * 10 ^ length (decimal ?m)" by simp
      moreover have "n < 10 * (?m + 1)" by simp
      ultimately show ?thesis using len by simp
    qed
    have lo: "10 ^ (length (decimal n) - 1) \<le> n"
    proof (cases "10 \<le> ?m")
      case True
      with ih(2) have "10 ^ (length (decimal ?m) - 1) \<le> ?m" by simp
      then have "10 * 10 ^ (length (decimal ?m) - 1) \<le> 10 * ?m" by simp
      moreover have "10 * ?m \<le> n" by simp
      moreover have "length (decimal ?m) \<ge> 1" by (subst decimal.simps) simp
      then have "10 * (10::nat) ^ (length (decimal ?m) - 1) = 10 ^ length (decimal ?m)"
        by (cases "length (decimal ?m)") simp_all
      ultimately show ?thesis using len by simp
    next
      case F2: False
      with ih(3) have "length (decimal ?m) = 1" by simp
      with len False show ?thesis by simp
    qed
    from up lo False show ?thesis by simp
  qed
qed

subsection \<open>The retry ceiling\<close>

lemma maxRetries_of_cong: "Spec a = Spec b \<Longrightarrow> maxRetries_of a = maxRetries_of b"
  by (simp add: maxRetries_of_def)

lemma int32_wrap_id: "- (2 ^ 31) \<le> v \<Longrightarrow> v < 2 ^ 31 \<Longrightarrow> int32_wrap v = v"
  by (simp add: int32_wrap_def)

lemma update_and_requeue_bounded:
  assumes "stored_bounded key sp c" and "mem_bounded key sp gw"
  shows "stored_bounded key sp (fst (update_and_requeue env gw c))"
  using assms
  by (auto simp: update_and_requeue_def client_Status_Update_def record_call_def
      stored_bounded_def mem_bounded_def retry_bounded_def key_of_def maxRetries_of_def Let_def
      split: option.splits prod.splits)

lemma createJobForWorkload_workloads:
  "workloads (fst (createJobForWorkload env gw node c)) = workloads c"
  by (auto simp: createJobForWorkload_def client_Get_Job_def client_Create_Job_def
      record_call_def Let_def split: option.splits sum.splits prod.splits)

lemma stored_bounded_cong:
  "workloads c' = workloads c \<Longrightarrow> stored_bounded key sp c' = stored_bounded key sp c"
  by (simp add: stored_bounded_def)

lemma place_bounded:
  assumes "stored_bounded key sp c" and "mem_bounded key sp gw"
    and "RetryCount (Status gw) < maxRetries_of gw"
  shows "stored_bounded key sp (fst (place env strategy node gw c))"
proof -
  obtain c1 r where cj: "createJobForWorkload env gw node c = (c1, r)"
    by (cases "createJobForWorkload env gw node c")
  then have "workloads c1 = workloads c"
    using createJobForWorkload_workloads[of env gw node c] by simp
  with assms(1) have s1: "stored_bounded key sp c1" by (simp add: stored_bounded_def)
  show ?thesis
  proof (cases r)
    case (Inl e)
    let ?gw' = "gw\<lparr> Status := (Status gw)\<lparr>
                       Phase := PhasePending,
                       Message := ''Failed to create job: '' @
                         (case e of ApiError e \<Rightarrow> api_Error e | _ \<Rightarrow> []),
                       RetryCount := int32_wrap (RetryCount (Status gw) + 1) \<rparr> \<rparr>"
    have "int32_wrap (RetryCount (Status gw) + 1) = RetryCount (Status gw) + 1"
      using assms(2,3) by (intro int32_wrap_id) (auto simp: mem_bounded_def retry_bounded_def)
    with assms(2,3) have m: "mem_bounded key sp ?gw'"
      by (auto simp: mem_bounded_def retry_bounded_def key_of_def maxRetries_of_def)
    have s2: "stored_bounded key sp
        (record_call (Metric_SchedulingFailure ''job_creation_failed'') (record_call Metric_Retry c1))"
      using s1 by (simp add: stored_bounded_def record_call_def)
    from update_and_requeue_bounded[OF s2 m, of env] cj Inl s1 show ?thesis
      by (cases e) (simp_all add: place_def)
  next
    case (Inr job)
    with cj s1 assms(2) show ?thesis
      by (auto simp: place_def client_Status_Update_def record_call_def
          stored_bounded_def mem_bounded_def retry_bounded_def key_of_def maxRetries_of_def Let_def
          split: option.splits prod.splits)
  qed
qed

lemma maxRetries_of_upd [simp]:
  "maxRetries_of (gw\<lparr> Status := st \<rparr>) = maxRetries_of gw"
  "maxRetries_of (gw\<lparr> Finalizers := f \<rparr>) = maxRetries_of gw"
  by (simp_all add: maxRetries_of_def)

lemma key_of_upd [simp]:
  "key_of (gw\<lparr> Status := st \<rparr>) = key_of gw"
  "key_of (gw\<lparr> Finalizers := f \<rparr>) = key_of gw"
  "key_of (gw\<lparr> Spec := sp \<rparr>) = key_of gw"
  by (simp_all add: key_of_def)

lemma retry_bounded_eq:
  "Spec a = Spec b \<Longrightarrow> RetryCount (Status a) = RetryCount (Status b) \<Longrightarrow>
     retry_bounded a = retry_bounded b"
  by (simp add: retry_bounded_def maxRetries_of_cong[of a b])

lemma client_Status_Update_bounded:
  assumes s: "stored_bounded key sp c" and m: "mem_bounded key sp gw"
    and u: "client_Status_Update f gw c = (c', r)"
  shows "stored_bounded key sp c' \<and> (\<forall>g. r = Inr g \<longrightarrow> mem_bounded key sp g)"
proof (cases "f = None \<and> workloads c key \<noteq> None")
  case False
  with u m have "workloads c' = workloads c" "\<forall>g. r \<noteq> Inr g"
    by (auto simp: client_Status_Update_def record_call_def mem_bounded_def Let_def
        split: option.splits)
  with s show ?thesis by (simp add: stored_bounded_def)
next
  case True
  then obtain st where st: "workloads c key = Some st" and f: "f = None" by auto
  let ?s' = "st\<lparr> Status := Status gw \<rparr>"
  from m have k: "key_of gw = key" by (simp add: mem_bounded_def)
  from u st f k have c': "c' = (record_call (Update_Status key) c)\<lparr> workloads := (workloads c)(key \<mapsto> ?s') \<rparr>"
    and r: "r = Inr ?s'"
    by (auto simp: client_Status_Update_def record_call_def Let_def)
  from s st have "key_of st = key" "Spec st = sp" by (simp_all add: stored_bounded_def)
  moreover from m have "Spec gw = sp" "retry_bounded gw" by (simp_all add: mem_bounded_def)
  ultimately have b: "key_of ?s' = key" "Spec ?s' = sp" "retry_bounded ?s'"
    using retry_bounded_eq[of ?s' gw] by simp_all
  then have "mem_bounded key sp ?s'" by (simp add: mem_bounded_def)
  moreover from b c' have "stored_bounded key sp c'" by (simp add: stored_bounded_def)
  ultimately show ?thesis using r by simp
qed

lemma client_Update_bounded:
  assumes s: "stored_bounded key sp c" and m: "mem_bounded key sp gw"
    and u: "client_Update f gw c = (c', r)"
  shows "stored_bounded key sp c' \<and> (\<forall>g. r = Inr g \<longrightarrow> mem_bounded key sp g)"
proof (cases "f = None \<and> workloads c key \<noteq> None")
  case False
  with u m have "workloads c' = workloads c" "\<forall>g. r \<noteq> Inr g"
    by (auto simp: client_Update_def record_call_def mem_bounded_def Let_def
        split: option.splits)
  with s show ?thesis by (simp add: stored_bounded_def)
next
  case True
  then obtain st where st: "workloads c key = Some st" and f: "f = None" by auto
  let ?s' = "st\<lparr> Finalizers := Finalizers gw, Spec := Spec gw \<rparr>"
  from m have k: "key_of gw = key" by (simp add: mem_bounded_def)
  from u st f k have r: "r = Inr ?s'"
    and c': "workloads c' = (workloads c)(key := None) \<or> workloads c' = (workloads c)(key \<mapsto> ?s')"
    by (auto simp: client_Update_def record_call_def Let_def split: if_splits)
  from s st have "key_of st = key" "Spec st = sp" "retry_bounded st"
    by (simp_all add: stored_bounded_def)
  moreover from m have "Spec gw = sp" by (simp add: mem_bounded_def)
  ultimately have b: "key_of ?s' = key" "Spec ?s' = sp" "retry_bounded ?s'"
    using retry_bounded_eq[of ?s' st] by simp_all
  then have "mem_bounded key sp ?s'" by (simp add: mem_bounded_def)
  moreover from b c' have "stored_bounded key sp c'" by (auto simp: stored_bounded_def)
  ultimately show ?thesis using r by simp
qed

lemma record_call_bounded [simp]:
  "stored_bounded key sp (record_call x c) = stored_bounded key sp c"
  by (simp add: stored_bounded_def record_call_def)

lemma mem_bounded_status:
  assumes "mem_bounded key sp gw" and "RetryCount st = RetryCount (Status gw)"
  shows "mem_bounded key sp (gw\<lparr> Status := st \<rparr>)"
  using assms retry_bounded_eq[of "gw\<lparr> Status := st \<rparr>" gw]
  by (simp add: mem_bounded_def)

lemma mem_bounded_finalizers:
  assumes "mem_bounded key sp gw"
  shows "mem_bounded key sp (gw\<lparr> Finalizers := f \<rparr>)"
  using assms retry_bounded_eq[of "gw\<lparr> Finalizers := f \<rparr>" gw]
  by (simp add: mem_bounded_def)

lemma mem_bounded_incr:
  assumes "mem_bounded key sp gw" and "RetryCount (Status gw) < maxRetries_of gw"
    and "RetryCount st = int32_wrap (RetryCount (Status gw) + 1)"
  shows "mem_bounded key sp (gw\<lparr> Status := st \<rparr>)"
proof -
  from assms(1) have b: "retry_bounded gw" "key_of gw = key" "Spec gw = sp"
    by (simp_all add: mem_bounded_def)
  have "int32_wrap (RetryCount (Status gw) + 1) = RetryCount (Status gw) + 1"
    using b(1) assms(2) by (intro int32_wrap_id) (auto simp: retry_bounded_def)
  with assms(2,3) b(1) have "retry_bounded (gw\<lparr> Status := st \<rparr>)"
    by (simp add: retry_bounded_def)
  with b show ?thesis by (simp add: mem_bounded_def)
qed

lemma schedule_bounded:
  assumes s: "stored_bounded key sp c" and m: "mem_bounded key sp gw"
    and lt: "RetryCount (Status gw) < maxRetries_of gw"
  shows "stored_bounded key sp (fst (schedule env gw c))"
proof (cases "err_List env")
  case (Some e)
  have "mem_bounded key sp (gw\<lparr> Status := (Status gw)\<lparr> Phase := PhasePending,
           Message := ''Error listing nodes: '' @ api_Error e \<rparr> \<rparr>)"
    using m by (intro mem_bounded_status) simp_all
  from update_and_requeue_bounded[OF _ this, of "record_call List_Nodes c" env] s Some
  show ?thesis by (simp add: schedule_def client_List_Nodes_def)
next
  case None
  let ?gpuNodes = "filter (\<lambda>node. isNodeReady node \<and> hasGPUs node) (nodeItems c)"
  let ?c1 = "record_call List_Nodes c"
  have s1: "stored_bounded key sp ?c1" using s by simp
  show ?thesis
  proof (cases "length ?gpuNodes = 0")
    case True
    have "mem_bounded key sp (gw\<lparr> Status := (Status gw)\<lparr> Phase := PhasePending,
             Message := ''No ready GPU nodes available'' \<rparr> \<rparr>)"
      using m by (intro mem_bounded_status) simp_all
    from update_and_requeue_bounded[OF s1 this, of env] None True
    show ?thesis by (simp add: schedule_def client_List_Nodes_def)
  next
    case False
    let ?name = "if SchedulingStrategy (Spec gw) = [] then ''leastLoaded''
                 else SchedulingStrategy (Spec gw)"
    let ?strategy = "Factory ?name"
    let ?c2 = "record_call (Metric_SchedulingFailure ''no_suitable_node'') (record_call Metric_Retry ?c1)"
    have s2: "stored_bounded key sp ?c2" using s by simp
    show ?thesis
    proof (cases "ChooseNode ?strategy (rand_Intn env) ?gpuNodes gw")
      case (Inl err)
      let ?gw' = "gw\<lparr> Status := (Status gw)\<lparr> Phase := PhasePending,
                  Message := sched_Error err,
                  RetryCount := int32_wrap (RetryCount (Status gw) + 1) \<rparr> \<rparr>"
      have mi: "mem_bounded key sp ?gw'"
        using m lt by (intro mem_bounded_incr) simp_all
      have "schedule env gw c =
              (if err = NilPointerDereference then (?c1, gw, no_requeue, Some Panic_NilPointer)
               else update_and_requeue env ?gw' ?c2)"
        using None False Inl
        by (cases err) (simp_all add: schedule_def client_List_Nodes_def Let_def)
      with update_and_requeue_bounded[OF s2 mi, of env] s1 show ?thesis
        by simp
    next
      case (Inr selectedNode)
      have "schedule env gw c = place env ?strategy selectedNode gw ?c1"
        using None False Inr
        by (simp add: schedule_def client_List_Nodes_def Let_def)
      with place_bounded[OF s1 m lt, of env ?strategy selectedNode] show ?thesis
        by simp
    qed
  qed
qed

lemma check_retries_bounded:
  assumes s: "stored_bounded key sp c" and m: "mem_bounded key sp gw"
  shows "stored_bounded key sp (fst (check_retries env gw c))"
proof (cases "maxRetries_of gw \<le> RetryCount (Status gw)")
  case True
  let ?gw' = "gw\<lparr> Status := (Status gw)\<lparr> Phase := PhaseFailed,
       Message := ''Failed to schedule after '' @ Sprintf_d (maxRetries_of gw) @ '' retries'' \<rparr> \<rparr>"
  have m': "mem_bounded key sp ?gw'" using m by (intro mem_bounded_status) simp_all
  obtain c1 r where u: "client_Status_Update (err_Status env) ?gw' c = (c1, r)"
    by (cases "client_Status_Update (err_Status env) ?gw' c")
  from client_Status_Update_bounded[OF s m' u] have "stored_bounded key sp c1" by simp
  with True u show ?thesis
    by (cases r) (simp_all add: check_retries_def Let_def)
next
  case False
  then have "RetryCount (Status gw) < maxRetries_of gw" by simp
  from schedule_bounded[OF s m this, of env] False show ?thesis
    by (simp add: check_retries_def Let_def)
qed

lemma init_phase_bounded:
  assumes s: "stored_bounded key sp c" and m: "mem_bounded key sp gw"
  shows "stored_bounded key sp (fst (init_phase env gw c))"
proof (cases "Phase (Status gw) = []")
  case True
  let ?gw' = "gw\<lparr> Status := (Status gw)\<lparr> Phase := PhasePending,
                                         LastScheduleTime := Some (now env) \<rparr> \<rparr>"
  have m': "mem_bounded key sp ?gw'" using m by (intro mem_bounded_status) simp_all
  obtain c1 r where u: "client_Status_Update (err_StatusInit env) ?gw' c = (c1, r)"
    by (cases "client_Status_Update (err_StatusInit env) ?gw' c")
  from client_Status_Update_bounded[OF s m' u]
  have s1: "stored_bounded key sp c1" and m1: "\<forall>g. r = Inr g \<longrightarrow> mem_bounded key sp g" by simp_all
  show ?thesis
  proof (cases r)
    case (Inl e)
    with True u s1 show ?thesis by (simp add: init_phase_def Let_def)
  next
    case (Inr g)
    with m1 have "mem_bounded key sp g" by simp
    from check_retries_bounded[OF s1 this, of env] True u Inr show ?thesis
      by (simp add: init_phase_def Let_def)
  qed
next
  case False
  from check_retries_bounded[OF s m, of env] False show ?thesis
    by (simp add: init_phase_def)
qed

lemma add_finalizer_bounded:
  assumes s: "stored_bounded key sp c" and m: "mem_bounded key sp gw"
  shows "stored_bounded key sp (fst (add_finalizer env gw c))"
proof (cases "containsString (Finalizers gw) finalizerName")
  case True
  from init_phase_bounded[OF s m, of env] True show ?thesis
    by (simp add: add_finalizer_def)
next
  case False
  let ?gw' = "gw\<lparr> Finalizers := Finalizers gw @ [finalizerName] \<rparr>"
  have m': "mem_bounded key sp ?gw'"
    using m by (rule mem_bounded_finalizers)
  obtain c1 r where u: "client_Update (err_Update env) ?gw' c = (c1, r)"
    by (cases "client_Update (err_Update env) ?gw' c")
  from client_Update_bounded[OF s m' u]
  have s1: "stored_bounded key sp c1" and m1: "\<forall>g. r = Inr g \<longrightarrow> mem_bounded key sp g" by simp_all
  show ?thesis
  proof (cases r)
    case (Inl e)
    with False u s1 show ?thesis by (simp add: add_finalizer_def Let_def)
  next
    case (Inr g)
    with m1 have "mem_bounded key sp g" by simp
    from init_phase_bounded[OF s1 this, of env] False u Inr show ?thesis
      by (simp add: add_finalizer_def Let_def)
  qed
qed

lemma handleDeletion_bounded:
  assumes s: "stored_bounded key sp c" and m: "mem_bounded key sp gw"
  shows "stored_bounded key sp (fst (handleDeletion env gw c))"
proof (cases "containsString (Finalizers gw) finalizerName")
  case False
  with s show ?thesis by (simp add: handleDeletion_def)
next
  case True
  define jp where "jp =
     (if JobName (Status gw) \<noteq> []
      then (case client_Get_Job (err_JobGet env) (Namespace gw, JobName (Status gw)) c of
              (c, Inr job) \<Rightarrow>
                (case client_Delete_Job (err_JobDelete env) job c of
                   (c', Some err) \<Rightarrow> (c', IgnoreNotFound err)
                 | (c', None) \<Rightarrow> (c', None))
            | (c, Inl _) \<Rightarrow> (c, None))
      else (c, None))"
  obtain c1 failed where jp: "jp = (c1, failed)" by (cases jp)
  have "workloads (fst jp) = workloads c"
    unfolding jp_def
    by (auto simp: client_Get_Job_def client_Delete_Job_def record_call_def Let_def
        split: option.splits sum.splits)
  with jp s have s1: "stored_bounded key sp c1" by (simp add: stored_bounded_def)
  let ?gw' = "gw\<lparr> Finalizers := removeString (Finalizers gw) finalizerName \<rparr>"
  have hd: "handleDeletion env gw c =
     (case failed of
        Some err \<Rightarrow> (c1, gw, no_requeue, Some (ApiError err))
      | None \<Rightarrow>
          (case client_Update (err_Update env) ?gw' c1 of
             (c2, Inl err) \<Rightarrow> (c2, ?gw', no_requeue, Some (ApiError err))
           | (c2, Inr gw'') \<Rightarrow> (c2, gw'', no_requeue, None)))"
    using True jp unfolding handleDeletion_def jp_def[symmetric] by (simp add: Let_def)
  show ?thesis
  proof (cases failed)
    case (Some e)
    with hd s1 show ?thesis by simp
  next
    case None
    obtain c2 r where u: "client_Update (err_Update env) ?gw' c1 = (c2, r)"
      by (cases "client_Update (err_Update env) ?gw' c1")
    from client_Update_bounded[OF s1 mem_bounded_finalizers[OF m] u]
    have "stored_bounded key sp c2" by simp
    with hd None u show ?thesis by (cases r) simp_all
  qed
qed

lemma reconcile_fetched_bounded:
  assumes s: "stored_bounded key sp c" and m: "mem_bounded key sp gw"
  shows "stored_bounded key sp (fst (reconcile_fetched env gw c))"
  using assms handleDeletion_bounded[OF assms, of env] add_finalizer_bounded[OF assms, of env]
  by (simp add: reconcile_fetched_def)

lemma Reconcile_bounded:
  assumes s: "stored_bounded key sp c"
  shows "stored_bounded key sp (fst (Reconcile env key c))"
proof (cases "err_Get env = None \<and> workloads c key \<noteq> None")
  case False
  then have "workloads (fst (Reconcile env key c)) = workloads c"
    by (auto simp: Reconcile_def client_Get_def record_call_def split: option.splits)
  with s show ?thesis by (simp add: stored_bounded_def)
next
  case True
  then obtain gw where gw: "workloads c key = Some gw" and f: "err_Get env = None" by auto
  with s have m: "mem_bounded key sp gw" by (simp add: stored_bounded_def mem_bounded_def)
  let ?c1 = "record_call (Get_GPUWorkload key) c"
  have s1: "stored_bounded key sp ?c1" using s by simp
  obtain c' gw' res err where rf: "reconcile_fetched env gw ?c1 = (c', gw', res, err)"
    by (cases "reconcile_fetched env gw ?c1") auto
  from reconcile_fetched_bounded[OF s1 m, of env] rf have "stored_bounded key sp c'" by simp
  moreover have "fst (Reconcile env key c) =
      record_call (Metric_ReconcileDuration
        (if Phase (Status gw') = PhaseScheduled \<or> Phase (Status gw') = PhaseRunning
         then ''success'' else ''error'')) c'"
    using gw f rf by (simp add: Reconcile_def client_Get_def record_call_def Let_def)
  ultimately show ?thesis by simp
qed

lemma Reconcile_passes_bounded:
  "stored_bounded key sp c \<Longrightarrow> stored_bounded key sp (Reconcile_passes envs key c)"
  by (induction envs arbitrary: c) (simp_all add: Reconcile_bounded)

subsection \<open>Failed is final\<close>

lemma record_call_failed [simp]:
  "stored_failed key sp n (record_call x c) = stored_failed key sp n c"
  by (simp add: stored_failed_def record_call_def)

lemma client_Status_Update_failed:
  assumes s: "stored_failed key sp n c" and m: "mem_failed key sp n gw"
    and u: "client_Status_Update f gw c = (c', r)"
  shows "stored_failed key sp n c' \<and> (\<forall>g. r = Inr g \<longrightarrow> mem_failed key sp n g)"
proof (cases "f = None \<and> workloads c key \<noteq> None")
  case False
  with u m have "workloads c' = workloads c" "\<forall>g. r \<noteq> Inr g"
    by (auto simp: client_Status_Update_def record_call_def mem_failed_def Let_def
        split: option.splits)
  with s show ?thesis by (simp add: stored_failed_def)
next
  case True
  then obtain st where st: "workloads c key = Some st" and f: "f = None" by auto
  let ?s' = "st\<lparr> Status := Status gw \<rparr>"
  from m have k: "key_of gw = key" by (simp add: mem_failed_def)
  from u st f k have c': "c' = (record_call (Update_Status key) c)\<lparr> workloads := (workloads c)(key \<mapsto> ?s') \<rparr>"
    and r: "r = Inr ?s'"
    by (auto simp: client_Status_Update_def record_call_def Let_def)
  from s st have "key_of st = key" "Spec st = sp" by (simp_all add: stored_failed_def)
  with m have b: "mem_failed key sp n ?s'" by (simp add: mem_failed_def)
  with c' have "stored_failed key sp n c'" by (simp add: stored_failed_def mem_failed_def)
  with b r show ?thesis by simp
qed

lemma client_Update_failed:
  assumes s: "stored_failed key sp n c" and m: "key_of gw = key" "Spec gw = sp"
    and u: "client_Update f gw c = (c', r)"
  shows "stored_failed key sp n c' \<and> (\<forall>g. r = Inr g \<longrightarrow> mem_failed key sp n g)"
proof (cases "f = None \<and> workloads c key \<noteq> None")
  case False
  with u m have "workloads c' = workloads c" "\<forall>g. r \<noteq> Inr g"
    by (auto simp: client_Update_def record_call_def Let_def split: option.splits)
  with s show ?thesis by (simp add: stored_failed_def)
next
  case True
  then obtain st where st: "workloads c key = Some st" and f: "f = None" by auto
  let ?s' = "st\<lparr> Finalizers := Finalizers gw, Spec := Spec gw \<rparr>"
  from u st f m(1) have r: "r = Inr ?s'"
    and c': "workloads c' = (workloads c)(key := None) \<or> workloads c' = (workloads c)(key \<mapsto> ?s')"
    by (auto simp: client_Update_def record_call_def Let_def split: if_splits)
  from s st m have b: "mem_failed key sp n ?s'"
    by (simp add: stored_failed_def mem_failed_def)
  with c' have "stored_failed key sp n c'" by (auto simp: stored_failed_def mem_failed_def)
  with b r show ?thesis by simp
qed

lemma check_retries_failed:
  assumes s: "stored_failed key sp n c" and m: "mem_failed key sp n gw"
    and lim: "maxRetries_of gw \<le> n"
  shows "stored_failed key sp n (fst (check_retries env gw c))"
proof -
  let ?gw' = "gw\<lparr> Status := (Status gw)\<lparr> Phase := PhaseFailed,
       Message := ''Failed to schedule after '' @ Sprintf_d (maxRetries_of gw) @ '' retries'' \<rparr> \<rparr>"
  from m have m': "mem_failed key sp n ?gw'" by (simp add: mem_failed_def)
  from m lim have ge: "maxRetries_of gw \<le> RetryCount (Status gw)" by (simp add: mem_failed_def)
  obtain c1 r where u: "client_Status_Update (err_Status env) ?gw' c = (c1, r)"
    by (cases "client_Status_Update (err_Status env) ?gw' c")
  from client_Status_Update_failed[OF s m' u] have "stored_failed key sp n c1" by simp
  with ge u show ?thesis
    by (cases r) (simp_all add: check_retries_def Let_def)
qed

lemma init_phase_failed:
  assumes s: "stored_failed key sp n c" and m: "mem_failed key sp n gw"
    and lim: "maxRetries_of gw \<le> n"
  shows "stored_failed key sp n (fst (init_phase env gw c))"
proof -
  from m have "Phase (Status gw) \<noteq> []" by (simp add: mem_failed_def PhaseFailed_def)
  with check_retries_failed[OF assms, of env] show ?thesis by (simp add: init_phase_def)
qed

lemma add_finalizer_failed:
  assumes s: "stored_failed key sp n c" and m: "mem_failed key sp n gw"
    and lim: "maxRetries_of gw \<le> n"
  shows "stored_failed key sp n (fst (add_finalizer env gw c))"
proof (cases "containsString (Finalizers gw) finalizerName")
  case True
  from init_phase_failed[OF assms, of env] True show ?thesis
    by (simp add: add_finalizer_def)
next
  case False
  let ?gw' = "gw\<lparr> Finalizers := Finalizers gw @ [finalizerName] \<rparr>"
  from m have k: "key_of ?gw' = key" "Spec ?gw' = sp" by (simp_all add: mem_failed_def)
  obtain c1 r where u: "client_Update (err_Update env) ?gw' c = (c1, r)"
    by (cases "client_Update (err_Update env) ?gw' c")
  from client_Update_failed[OF s k u]
  have s1: "stored_failed key sp n c1" and m1: "\<forall>g. r = Inr g \<longrightarrow> mem_failed key sp n g" by simp_all
  show ?thesis
  proof (cases r)
    case (Inl e)
    with False u s1 show ?thesis by (simp add: add_finalizer_def Let_def)
  next
    case (Inr g)
    with m1 have mg: "mem_failed key sp n g" by simp
    with m lim have "maxRetries_of g \<le> n"
      using maxRetries_of_cong[of g gw] by (simp add: mem_failed_def)
    from init_phase_failed[OF s1 mg this, of env] False u Inr show ?thesis
      by (simp add: add_finalizer_def Let_def)
  qed
qed

lemma handleDeletion_failed:
  assumes s: "stored_failed key sp n c" and m: "mem_failed key sp n gw"
  shows "stored_failed key sp n (fst (handleDeletion env gw c))"
proof (cases "containsString (Finalizers gw) finalizerName")
  case False
  with s show ?thesis by (simp add: handleDeletion_def)
next
  case True
  define jp where "jp =
     (if JobName (Status gw) \<noteq> []
      then (case client_Get_Job (err_JobGet env) (Namespace gw, JobName (Status gw)) c of
              (c, Inr job) \<Rightarrow>
                (case client_Delete_Job (err_JobDelete env) job c of
                   (c', Some err) \<Rightarrow> (c', IgnoreNotFound err)
                 | (c', None) \<Rightarrow> (c', None))
            | (c, Inl _) \<Rightarrow> (c, None))
      else (c, None))"
  obtain c1 failed where jp: "jp = (c1, failed)" by (cases jp)
  have "workloads (fst jp) = workloads c"
    unfolding jp_def
    by (auto simp: client_Get_Job_def client_Delete_Job_def record_call_def Let_def
        split: option.splits sum.splits)
  with jp s have s1: "stored_failed key sp n c1" by (simp add: stored_failed_def)
  let ?gw' = "gw\<lparr> Finalizers := removeString (Finalizers gw) finalizerName \<rparr>"
  have hd: "handleDeletion env gw c =
     (case failed of
        Some err \<Rightarrow> (c1, gw, no_requeue, Some (ApiError err))
      | None \<Rightarrow>
          (case client_Update (err_Update env) ?gw' c1 of
             (c2, Inl err) \<Rightarrow> (c2, ?gw', no_requeue, Some (ApiError err))
           | (c2, Inr gw'') \<Rightarrow> (c2, gw'', no_requeue, None)))"
    using True jp unfolding handleDeletion_def jp_def[symmetric] by (simp add: Let_def)
  show ?thesis
  proof (cases failed)
    case (Some e)
    with hd s1 show ?thesis by simp
  next
    case None
    from m have k: "key_of ?gw' = key" "Spec ?gw' = sp" by (simp_all add: mem_failed_def)
    obtain c2 r where u: "client_Update (err_Update env) ?gw' c1 = (c2, r)"
      by (cases "client_Update (err_Update env) ?gw' c1")
    from client_Update_failed[OF s1 k u]
    have "stored_failed key sp n c2" by simp
    with hd None u show ?thesis by (cases r) simp_all
  qed
qed

lemma Reconcile_failed:
  assumes s: "stored_failed key sp n c"
    and lim: "(case RetryPolicy sp of Some policy \<Rightarrow> if MaxRetries policy > 0 then MaxRetries policy else 3 | None \<Rightarrow> 3) \<le> n"
  shows "stored_failed key sp n (fst (Reconcile env key c))"
proof (cases "err_Get env = None \<and> workloads c key \<noteq> None")
  case False
  then have "workloads (fst (Reconcile env key c)) = workloads c"
    by (auto simp: Reconcile_def client_Get_def record_call_def split: option.splits)
  with s show ?thesis by (simp add: stored_failed_def)
next
  case True
  then obtain gw where gw: "workloads c key = Some gw" and f: "err_Get env = None" by auto
  with s have m: "mem_failed key sp n gw" by (simp add: stored_failed_def mem_failed_def)
  with lim have l: "maxRetries_of gw \<le> n" by (simp add: maxRetries_of_def mem_failed_def)
  from m have na: "\<not> already_scheduled gw"
    by (simp add: mem_failed_def already_scheduled_def PhaseFailed_def PhaseScheduled_def
        PhaseRunning_def PhaseSucceeded_def)
  let ?c1 = "record_call (Get_GPUWorkload key) c"
  have s1: "stored_failed key sp n ?c1" using s by simp
  obtain c' gw' res err where rf: "reconcile_fetched env gw ?c1 = (c', gw', res, err)"
    by (cases "reconcile_fetched env gw ?c1") auto
  have "stored_failed key sp n (fst (reconcile_fetched env gw ?c1))"
    using na handleDeletion_failed[OF s1 m, of env] add_finalizer_failed[OF s1 m l, of env]
    by (simp add: reconcile_fetched_def)
  with rf have "stored_failed key sp n c'" by simp
  moreover have "fst (Reconcile env key c) =
      record_call (Metric_ReconcileDuration
        (if Phase (Status gw') = PhaseScheduled \<or> Phase (Status gw') = PhaseRunning
         then ''success'' else ''error'')) c'"
    using gw f rf by (simp add: Reconcile_def client_Get_def record_call_def Let_def)
  ultimately show ?thesis by simp
qed

lemma Reconcile_passes_failed:
  assumes lim: "(case RetryPolicy sp of Some policy \<Rightarrow> if MaxRetries policy > 0 then MaxRetries policy else 3 | None \<Rightarrow> 3) \<le> n"
  shows "stored_failed key sp n c \<Longrightarrow> stored_failed key sp n (Reconcile_passes envs key c)"
  by (induction envs arbitrary: c) (simp_all add: Reconcile_failed[OF _ lim])

subsection \<open>A pass at the retry ceiling\<close>

lemma exhausted_cluster_workload:
  "workloads exhausted_cluster example_key =
     Some (example_workload\<lparr> Finalizers := [finalizerName],
        Status := \<lparr> Phase = PhasePending, AssignedNode = [], LastScheduleTime = Some 0,
                    RetryCount = 3,
                    Message = ''no node has enough available GPUs for workload requiring 2 GPUs'',
                    JobName = [] \<rparr> \<rparr>)"
  by code_simp

lemma Reconcile_at_ceiling:
  assumes w: "workloads c req = Some gw" and k: "key_of gw = req"
    and ns: "\<not> already_scheduled gw" and nd: "DeletionTimestamp gw = None"
    and lim: "maxRetries_of gw \<le> RetryCount (Status gw)"
    and q: "err_Get env = None" "err_Update env = None" "err_StatusInit env = None"
           "err_Status env = None"
  shows "\<exists>c' gw'. Reconcile env req c = (c', no_requeue, None) \<and>
           workloads c' req = Some gw' \<and>
           Phase (Status gw') = PhaseFailed \<and>
           Message (Status gw') =
             ''Failed to schedule after '' @ Sprintf_d (maxRetries_of gw) @ '' retries'' \<and>
           RetryCount (Status gw') = RetryCount (Status gw) \<and>
           Spec gw' = Spec gw \<and>
           jobs c' = jobs c \<and>
           Record_Event ''Warning'' ''MaxRetriesExceeded'' (Message (Status gw')) \<in> set (calls c') \<and>
           filter is_Create_Job (calls c') = filter is_Create_Job (calls c)"
  using assms
  by (auto simp: Reconcile_def reconcile_fetched_def add_finalizer_def init_phase_def
      check_retries_def client_Get_def client_Update_def client_Status_Update_def
      record_call_def key_of_def maxRetries_of_def Let_def is_Create_Job_def
      split: option.splits)

lemma Sprintf_d_3: "Sprintf_d 3 = ''3''"
  by code_simp

lemma Sprintf_d_2: "Sprintf_d 2 = ''2''"
  by code_simp

text \<open>The workload with a policy of 2 retries, on the cluster that cannot serve it: the
  first two passes count a retry each and the third one gives up.\<close>

lemma policy_cluster_exhausted:
  "map_option (\<lambda>gw. (Phase (Status gw), RetryCount (Status gw), Message (Status gw)))
     (workloads (Reconcile_passes [quiet_env, quiet_env, quiet_env] example_key
        (example_cluster policy_workload [small_node])) example_key) =
   Some (PhaseFailed, 2, ''Failed to schedule after 2 retries'')"
  by code_simp


subsection \<open>Transient failures\<close>

lemma ChooseNode_Spec:
  assumes "Spec gw = Spec gw'"
  shows "ChooseNode s r ns gw = ChooseNode s r ns gw'"
  unfolding ChooseNode_def LeastLoaded_ChooseNode_def LeastLoaded_index_def
    Random_ChooseNode_def CostOptimized_ChooseNode_def cheapNodes_of_def assms
  by (rule refl)

text \<open>A pass on a workload that is neither placed nor being deleted, below the ceiling,
  whose first calls succeed, reaches the scheduling part with the stored object in memory.\<close>

lemma Reconcile_reaches_schedule:
  assumes w: "workloads c key = Some gw" and k: "key_of gw = key"
    and ns: "\<not> already_scheduled gw" and nd: "DeletionTimestamp gw = None"
    and lt: "RetryCount (Status gw) < maxRetries_of gw"
    and q: "err_Get env = None" "err_Update env = None" "err_StatusInit env = None"
  shows "\<exists>c1 gw1.
           Reconcile env key c =
             (case schedule env gw1 c1 of
                (c', gw', res, err) \<Rightarrow>
                  (record_call (Metric_ReconcileDuration
                     (if Phase (Status gw') = PhaseScheduled \<or> Phase (Status gw') = PhaseRunning
                      then ''success'' else ''error'')) c', res, err)) \<and>
           workloads c1 key = Some gw1 \<and> key_of gw1 = key \<and> Spec gw1 = Spec gw \<and>
           Name gw1 = Name gw \<and> Namespace gw1 = Namespace gw \<and> UID gw1 = UID gw \<and>
           RetryCount (Status gw1) = RetryCount (Status gw) \<and>
           jobs c1 = jobs c \<and> nodeItems c1 = nodeItems c"
proof -
  let ?F = "if containsString (Finalizers gw) finalizerName then Finalizers gw
            else Finalizers gw @ [finalizerName]"
  let ?S = "if Phase (Status gw) = [] then (Status gw)\<lparr> Phase := PhasePending,
                LastScheduleTime := Some (now env) \<rparr> else Status gw"
  let ?gw1 = "gw\<lparr> Finalizers := ?F, Status := ?S \<rparr>"
  let ?calls = "calls c @ [Get_GPUWorkload key] @
       (if containsString (Finalizers gw) finalizerName then [] else [Update_GPUWorkload key]) @
       (if Phase (Status gw) = [] then [Update_Status key] else [])"
  let ?c1 = "c\<lparr> calls := ?calls, workloads := (workloads c)(key \<mapsto> ?gw1) \<rparr>"
  have "Reconcile env key c =
             (case schedule env ?gw1 ?c1 of
                (c', gw', res, err) \<Rightarrow>
                  (record_call (Metric_ReconcileDuration
                     (if Phase (Status gw') = PhaseScheduled \<or> Phase (Status gw') = PhaseRunning
                      then ''success'' else ''error'')) c', res, err))"
    using assms
    by (auto simp: Reconcile_def reconcile_fetched_def add_finalizer_def init_phase_def
        check_retries_def client_Get_def client_Update_def client_Status_Update_def
        record_call_def key_of_def maxRetries_of_def Let_def fun_upd_idem
        split: option.splits)
  moreover have "workloads ?c1 key = Some ?gw1" by simp
  moreover have "key_of ?gw1 = key" using k by (simp add: key_of_def)
  moreover have "Spec ?gw1 = Spec gw" "Name ?gw1 = Name gw" "Namespace ?gw1 = Namespace gw"
    "UID ?gw1 = UID gw" "RetryCount (Status ?gw1) = RetryCount (Status gw)"
    "jobs ?c1 = jobs c" "nodeItems ?c1 = nodeItems c" by simp_all
  ultimately show ?thesis by blast
qed

text \<open>The requeue that \<open>requeueWithBackoff\<close> returns.\<close>

lemma requeueWithBackoff_delay:
  assumes base: "base = (case RetryPolicy (Spec gw) of
                           None \<Rightarrow> 30
                         | Some policy \<Rightarrow> if 0 < BackoffSeconds policy then BackoffSeconds policy else 30)
                        * Second"
    and bu: "base < 2 ^ 53"
    and n: "0 \<le> RetryCount (Status gw)"
    and r: "0 \<le> rand_Float64 env" "rand_Float64 env < 1"
  shows "\<exists>d. requeueWithBackoff env gw = (\<lparr> RequeueAfter = d \<rparr>, None) \<and>
             backoff_delay base (RetryCount (Status gw)) d"
proof -
  let ?n = "RetryCount (Status gw)"
  define v where "v = min (base * 2 ^ nat (min ?n 10)) (5 * Minute)"
  have bd: "baseDuration_of gw = base"
    unfolding base baseDuration_of_def by (cases "RetryPolicy (Spec gw)") simp_all
  have s0: "0 < Second" by (simp add: Second_def)
  have b0: "0 < base"
    unfolding base using s0 by (cases "RetryPolicy (Spec gw)") simp_all
  from NextBackoff_pos_base[OF b0 bu n r] obtain j where j:
    "NextBackoff base ?n (rand_Float64 env) = Some (v + j)" "0 \<le> j" "10 * j \<le> v"
    unfolding v_def by blast
  have "0 < base * 2 ^ nat (min ?n 10)" using b0 by simp
  moreover have "(0::int) < 5 * Minute" by (simp add: Minute_def Second_def)
  ultimately have v0: "0 < v" unfolding v_def by simp
  have "requeueWithBackoff env gw = (\<lparr> RequeueAfter = v + j \<rparr>, None)"
    unfolding requeueWithBackoff_def bd j(1) by simp
  moreover have "0 < v + j \<and> v \<le> v + j \<and> 10 * (v + j) \<le> 11 * v"
    using v0 j(2,3) by simp
  then have "backoff_delay base ?n (v + j)"
    unfolding backoff_delay_def Let_def v_def .
  ultimately show ?thesis by blast
qed

lemma requeueWithBackoff_cong:
  "Spec a = Spec b \<Longrightarrow> Status a = Status b \<Longrightarrow> requeueWithBackoff env a = requeueWithBackoff env b"
  by (simp add: requeueWithBackoff_def baseDuration_of_def)

text \<open>
  The status update whose error is ignored, followed by the requeue: \<open>gw0\<close> is the
  stored object, \<open>gw\<close> the object in memory with its new status, \<open>g\<close> the object whose
  spec and retry counter the outcome is measured against.
\<close>

lemma update_and_requeue_transient:
  assumes st: "workloads c (key_of gw) = Some gw0" "Spec gw0 = Spec gw" "key_of gw0 = key_of gw"
    and g: "Spec gw = Spec g" "RetryCount (Status gw0) = RetryCount (Status g)"
    and ph: "Phase (Status gw) = PhasePending"
    and base: "base = (case RetryPolicy (Spec g) of
                           None \<Rightarrow> 30
                         | Some policy \<Rightarrow> if 0 < BackoffSeconds policy then BackoffSeconds policy else 30)
                        * Second"
    and bu: "base < 2 ^ 53"
    and n: "0 \<le> RetryCount (Status gw)"
    and r: "0 \<le> rand_Float64 env" "rand_Float64 env < 1"
  shows "case update_and_requeue env gw c of
           (c', gw', res, err) \<Rightarrow>
             transient_outcome (err_Status env = None) (key_of gw) g base (RetryCount (Status gw))
               (c', res, err)"
proof -
  from base g(1) have base': "base = (case RetryPolicy (Spec gw) of
                           None \<Rightarrow> 30
                         | Some policy \<Rightarrow> if 0 < BackoffSeconds policy then BackoffSeconds policy else 30)
                        * Second" by simp
  from requeueWithBackoff_delay[OF base' bu n r] obtain d where d:
    "requeueWithBackoff env gw = (\<lparr> RequeueAfter = d \<rparr>, None)"
    "backoff_delay base (RetryCount (Status gw)) d" by blast
  show ?thesis
  proof (cases "err_Status env")
    case None
    let ?s = "gw0\<lparr> Status := Status gw \<rparr>"
    have "requeueWithBackoff env ?s = requeueWithBackoff env gw"
      using st(2) by (intro requeueWithBackoff_cong) simp_all
    with d(1) have rq: "requeueWithBackoff env ?s = (\<lparr> RequeueAfter = d \<rparr>, None)" by simp
    have "update_and_requeue env gw c =
            (c\<lparr> calls := calls c @ [Update_Status (key_of gw)],
                workloads := (workloads c)(key_of gw \<mapsto> ?s) \<rparr>, ?s, \<lparr> RequeueAfter = d \<rparr>, None)"
      using None st(1) rq
      by (simp add: update_and_requeue_def client_Status_Update_def record_call_def Let_def)
    then show ?thesis
      using None d(2) st(2) g(1) ph by (simp add: transient_outcome_def)
  next
    case (Some e)
    have "update_and_requeue env gw c =
            (c\<lparr> calls := calls c @ [Update_Status (key_of gw)] \<rparr>, gw, \<lparr> RequeueAfter = d \<rparr>, None)"
      using Some d(1)
      by (simp add: update_and_requeue_def client_Status_Update_def record_call_def Let_def)
    then show ?thesis
      using Some d(2) st g by (simp add: transient_outcome_def)
  qed
qed

text \<open>The four transient failures of the scheduling part, for the stored object \<open>gw\<close>.\<close>

lemma schedule_list_error:
  assumes w: "workloads c (key_of gw) = Some gw"
    and g: "Spec gw = Spec g" "RetryCount (Status gw) = RetryCount (Status g)"
    and base: "base = (case RetryPolicy (Spec g) of
                           None \<Rightarrow> 30
                         | Some policy \<Rightarrow> if 0 < BackoffSeconds policy then BackoffSeconds policy else 30)
                        * Second"
    and bu: "base < 2 ^ 53"
    and n: "0 \<le> RetryCount (Status gw)"
    and r: "0 \<le> rand_Float64 env" "rand_Float64 env < 1"
    and l: "err_List env = Some e"
  shows "case schedule env gw c of
           (c', gw', res, err) \<Rightarrow>
             transient_outcome (err_Status env = None) (key_of gw) g base (RetryCount (Status gw))
               (c', res, err)"
proof -
  let ?gw' = "gw\<lparr> Status := (Status gw)\<lparr> Phase := PhasePending,
                 Message := ''Error listing nodes: '' @ api_Error e \<rparr> \<rparr>"
  let ?c1 = "record_call List_Nodes c"
  have s: "schedule env gw c = update_and_requeue env ?gw' ?c1"
    using l by (simp add: schedule_def client_List_Nodes_def)
  have "workloads ?c1 (key_of ?gw') = Some gw" using w by (simp add: record_call_def)
  from update_and_requeue_transient[OF this _ _ _ g(2) _ base bu _ r] g(1) n
  show ?thesis unfolding s by simp
qed

lemma schedule_no_nodes:
  assumes w: "workloads c (key_of gw) = Some gw"
    and g: "Spec gw = Spec g" "RetryCount (Status gw) = RetryCount (Status g)"
    and base: "base = (case RetryPolicy (Spec g) of
                           None \<Rightarrow> 30
                         | Some policy \<Rightarrow> if 0 < BackoffSeconds policy then BackoffSeconds policy else 30)
                        * Second"
    and bu: "base < 2 ^ 53"
    and n: "0 \<le> RetryCount (Status gw)"
    and r: "0 \<le> rand_Float64 env" "rand_Float64 env < 1"
    and l: "err_List env = None"
    and e: "filter (\<lambda>node. isNodeReady node \<and> hasGPUs node) (nodeItems c) = []"
  shows "case schedule env gw c of
           (c', gw', res, err) \<Rightarrow>
             transient_outcome (err_Status env = None) (key_of gw) g base (RetryCount (Status gw))
               (c', res, err)"
proof -
  let ?gw' = "gw\<lparr> Status := (Status gw)\<lparr> Phase := PhasePending,
                 Message := ''No ready GPU nodes available'' \<rparr> \<rparr>"
  let ?c1 = "record_call List_Nodes c"
  have s: "schedule env gw c = update_and_requeue env ?gw' ?c1"
    using l e by (simp add: schedule_def client_List_Nodes_def)
  have "workloads ?c1 (key_of ?gw') = Some gw" using w by (simp add: record_call_def)
  from update_and_requeue_transient[OF this _ _ _ g(2) _ base bu _ r] g(1) n
  show ?thesis unfolding s by simp
qed

lemma schedule_no_capable_node:
  assumes w: "workloads c (key_of gw) = Some gw"
    and g: "Spec gw = Spec g" "RetryCount (Status gw) = RetryCount (Status g)"
    and base: "base = (case RetryPolicy (Spec g) of
                           None \<Rightarrow> 30
                         | Some policy \<Rightarrow> if 0 < BackoffSeconds policy then BackoffSeconds policy else 30)
                        * Second"
    and bu: "base < 2 ^ 53"
    and n: "0 \<le> RetryCount (Status gw)" "RetryCount (Status gw) + 1 < 2 ^ 31"
    and r: "0 \<le> rand_Float64 env" "rand_Float64 env < 1"
    and l: "err_List env = None"
    and ne: "filter (\<lambda>node. isNodeReady node \<and> hasGPUs node) (nodeItems c) \<noteq> []"
    and ch: "ChooseNode (Factory (if SchedulingStrategy (Spec gw) = [] then ''leastLoaded''
                                   else SchedulingStrategy (Spec gw)))
               (rand_Intn env) (filter (\<lambda>node. isNodeReady node \<and> hasGPUs node) (nodeItems c)) gw
             = Inl err"
    and np: "err \<noteq> NilPointerDereference"
  shows "case schedule env gw c of
           (c', gw', res, err) \<Rightarrow>
             transient_outcome (err_Status env = None) (key_of gw) g base (RetryCount (Status gw) + 1)
               (c', res, err)"
proof -
  have wrap: "int32_wrap (RetryCount (Status gw) + 1) = RetryCount (Status gw) + 1"
    using n by (intro int32_wrap_id) simp_all
  let ?gw' = "gw\<lparr> Status := (Status gw)\<lparr> Phase := PhasePending,
                 Message := sched_Error err,
                 RetryCount := RetryCount (Status gw) + 1 \<rparr> \<rparr>"
  let ?c2 = "record_call (Metric_SchedulingFailure ''no_suitable_node'')
               (record_call Metric_Retry (record_call List_Nodes c))"
  have s: "schedule env gw c = update_and_requeue env ?gw' ?c2"
    using l ne ch np wrap by (cases err) (simp_all add: schedule_def client_List_Nodes_def Let_def)
  have "workloads ?c2 (key_of ?gw') = Some gw" using w by (simp add: record_call_def)
  from update_and_requeue_transient[OF this _ _ _ g(2) _ base bu _ r] g(1) n(1)
  show ?thesis unfolding s by simp
qed

lemma schedule_create_fails:
  assumes w: "workloads c (key_of gw) = Some gw"
    and g: "Spec gw = Spec g" "RetryCount (Status gw) = RetryCount (Status g)"
    and base: "base = (case RetryPolicy (Spec g) of
                           None \<Rightarrow> 30
                         | Some policy \<Rightarrow> if 0 < BackoffSeconds policy then BackoffSeconds policy else 30)
                        * Second"
    and bu: "base < 2 ^ 53"
    and n: "0 \<le> RetryCount (Status gw)" "RetryCount (Status gw) + 1 < 2 ^ 31"
    and r: "0 \<le> rand_Float64 env" "rand_Float64 env < 1"
    and l: "err_List env = None"
    and ne: "filter (\<lambda>node. isNodeReady node \<and> hasGPUs node) (nodeItems c) \<noteq> []"
    and ch: "ChooseNode (Factory (if SchedulingStrategy (Spec gw) = [] then ''leastLoaded''
                                   else SchedulingStrategy (Spec gw)))
               (rand_Intn env) (filter (\<lambda>node. isNodeReady node \<and> hasGPUs node) (nodeItems c)) gw
             = Inr node"
    and uid: "8 \<le> length (UID gw)"
    and ng: "err_JobGet env \<noteq> None \<or> jobs c (Namespace gw, jobName_of gw) = None"
    and cr: "err_JobCreate env = Some e"
  shows "case schedule env gw c of
           (c', gw', res, err) \<Rightarrow>
             transient_outcome (err_Status env = None) (key_of gw) g base (RetryCount (Status gw) + 1)
               (c', res, err)"
proof -
  have wrap: "int32_wrap (RetryCount (Status gw) + 1) = RetryCount (Status gw) + 1"
    using n by (intro int32_wrap_id) simp_all
  let ?key = "(Namespace gw, jobName_of gw)"
  let ?gw' = "gw\<lparr> Status := (Status gw)\<lparr> Phase := PhasePending,
                 Message := ''Failed to create job: '' @ api_Error e,
                 RetryCount := RetryCount (Status gw) + 1 \<rparr> \<rparr>"
  let ?c1 = "c\<lparr> calls := calls c @ [List_Nodes, Get_Job ?key, Create_Job ?key] \<rparr>"
  let ?c2 = "record_call (Metric_SchedulingFailure ''job_creation_failed'') (record_call Metric_Retry ?c1)"
  let ?strategy = "Factory (if SchedulingStrategy (Spec gw) = [] then ''leastLoaded''
                                   else SchedulingStrategy (Spec gw))"
  have cj: "createJobForWorkload env gw node (record_call List_Nodes c) = (?c1, Inl (ApiError e))"
    using uid ng cr
    by (auto simp: createJobForWorkload_def client_Get_Job_def client_Create_Job_def
        record_call_def Let_def build_Job_def split: option.splits)
  have "place env ?strategy node gw (record_call List_Nodes c) = update_and_requeue env ?gw' ?c2"
    using cj wrap by (simp add: place_def Let_def)
  then have s: "schedule env gw c = update_and_requeue env ?gw' ?c2"
    using l ne ch by (simp add: schedule_def client_List_Nodes_def Let_def)
  have "workloads ?c2 (key_of ?gw') = Some gw" using w by (simp add: record_call_def)
  from update_and_requeue_transient[OF this _ _ _ g(2) _ base bu _ r] g(1) n(1)
  show ?thesis unfolding s by simp
qed

text \<open>The outcome of the pass is the outcome of its scheduling part.\<close>

lemma transient_outcome_Reconcile:
  assumes "Reconcile env key c =
             (case schedule env gw1 c1 of
                (c', gw', res, err) \<Rightarrow>
                  (record_call (Metric_ReconcileDuration
                     (if Phase (Status gw') = PhaseScheduled \<or> Phase (Status gw') = PhaseRunning
                      then ''success'' else ''error'')) c', res, err))"
    and "case schedule env gw1 c1 of
           (c', gw', res, err) \<Rightarrow> transient_outcome recorded key g base n (c', res, err)"
  shows "transient_outcome recorded key g base n (Reconcile env key c)"
  using assms(2) unfolding assms(1)
  by (cases "schedule env gw1 c1") (simp add: transient_outcome_def record_call_def)

subsection \<open>C6: LeastLoaded picks the first node of greatest capacity\<close>

text \<open>
  Claim C6. For every node list and every request (the schema admits a GPU count from 1
  to 8; the theorem needs only that it is not negative), \<open>LeastLoadedStrategy.ChooseNode\<close>
  returns an error exactly when the input is empty or no node has at least the requested
  number of available GPUs; otherwise it returns the node at the one index that
  \<open>first_best\<close> describes: a qualifying node of greatest \<open>availableGPUs\<close>, the first
  such in input order. For nodes with 2, 4 and 1 available GPUs and a request for one
  GPU it returns the node with 4.
\<close>

theorem LeastLoaded_ChooseNode_correct:
  assumes "0 \<le> GPUCount (Spec gw)"
  shows "((nodes = [] \<or> (\<forall>n \<in> set nodes. getAvailableGPUs n < GPUCount (Spec gw))) \<longrightarrow>
           (\<exists>e. LeastLoaded_ChooseNode nodes gw = Inl e \<and> e \<noteq> NilPointerDereference)) \<and>
         (\<not> (nodes = [] \<or> (\<forall>n \<in> set nodes. getAvailableGPUs n < GPUCount (Spec gw))) \<longrightarrow>
           (\<exists>i. first_best (GPUCount (Spec gw)) nodes i \<and>
                (\<forall>j. first_best (GPUCount (Spec gw)) nodes j \<longrightarrow> j = i) \<and>
                LeastLoaded_ChooseNode nodes gw = Inr (nodes ! i))) \<and>
         LeastLoaded_ChooseNode
           [createMockNode ''node1'' 2, createMockNode ''node2'' 4, createMockNode ''node3'' 1]
           (createMockGPUWorkload 1) = Inr (createMockNode ''node2'' 4)"
proof -
  let ?need = "GPUCount (Spec gw)"
  let ?none = "nodes = [] \<or> (\<forall>n \<in> set nodes. getAvailableGPUs n < ?need)"
  have A: "\<exists>e. LeastLoaded_ChooseNode nodes gw = Inl e \<and> e \<noteq> NilPointerDereference" if "?none"
  proof -
    from LeastLoaded_index_error[OF assms that] obtain e
      where "LeastLoaded_index nodes gw = Inl e" "e \<noteq> NilPointerDereference" by blast
    then show ?thesis by (simp add: LeastLoaded_ChooseNode_def)
  qed
  have B: "\<exists>i. first_best ?need nodes i \<and> (\<forall>j. first_best ?need nodes j \<longrightarrow> j = i) \<and>
                LeastLoaded_ChooseNode nodes gw = Inr (nodes ! i)" if "\<not> ?none"
  proof -
    from that have "\<exists>n \<in> set nodes. ?need \<le> getAvailableGPUs n"
      by (auto simp: not_less)
    from LeastLoaded_index_found[OF assms this] obtain i
      where i: "LeastLoaded_index nodes gw = Inr i" "first_best ?need nodes i"
      by blast
    have u: "\<forall>j. first_best ?need nodes j \<longrightarrow> j = i"
    proof (intro allI impI)
      fix j assume "first_best ?need nodes j"
      then show "j = i" using i(2) by (rule first_best_unique)
    qed
    have c: "LeastLoaded_ChooseNode nodes gw = Inr (nodes ! i)"
      using i(1) by (simp add: LeastLoaded_ChooseNode_def)
    from i(2) u c show ?thesis by (intro exI[of _ i] conjI)
  qed
  have C: "LeastLoaded_ChooseNode
           [createMockNode ''node1'' 2, createMockNode ''node2'' 4, createMockNode ''node3'' 1]
           (createMockGPUWorkload 1) = Inr (createMockNode ''node2'' 4)"
    by (simp add: LeastLoaded_ChooseNode_def LeastLoaded_index_def)
  from A B C show ?thesis by (intro conjI impI)
qed

text \<open>
  The theorem at work: a request for 2 GPUs on nodes with 1, 3 and 3 GPUs, and the test
  \<open>TestLeastLoadedStrategy_InsufficientGPUs\<close> (4 GPUs requested, nodes with 1 and 2).
\<close>

theorem LeastLoaded_ChooseNode_correct_witness:
  "0 \<le> GPUCount (Spec (createMockGPUWorkload 2)) \<and>
   (\<exists>i. first_best (GPUCount (Spec (createMockGPUWorkload 2)))
          [createMockNode ''a'' 1, createMockNode ''b'' 3, createMockNode ''c'' 3] i \<and>
        LeastLoaded_ChooseNode [createMockNode ''a'' 1, createMockNode ''b'' 3, createMockNode ''c'' 3]
          (createMockGPUWorkload 2) =
        Inr ([createMockNode ''a'' 1, createMockNode ''b'' 3, createMockNode ''c'' 3] ! i)) \<and>
   (\<exists>e. LeastLoaded_ChooseNode [createMockNode ''node1'' 1, createMockNode ''node2'' 2]
          (createMockGPUWorkload 4) = Inl e)"
proof -
  let ?w = "createMockGPUWorkload 2"
  let ?ns = "[createMockNode ''a'' 1, createMockNode ''b'' 3, createMockNode ''c'' 3]"
  let ?w4 = "createMockGPUWorkload 4"
  let ?ns2 = "[createMockNode ''node1'' 1, createMockNode ''node2'' 2]"
  have h: "0 \<le> GPUCount (Spec ?w)" by simp
  have q: "\<not> (?ns = [] \<or> (\<forall>n \<in> set ?ns. getAvailableGPUs n < GPUCount (Spec ?w)))" by simp
  have h4: "0 \<le> GPUCount (Spec ?w4)" by simp
  have q4: "?ns2 = [] \<or> (\<forall>n \<in> set ?ns2. getAvailableGPUs n < GPUCount (Spec ?w4))" by simp
  from LeastLoaded_ChooseNode_correct[OF h, of ?ns] q
  have 1: "\<exists>i. first_best (GPUCount (Spec ?w)) ?ns i \<and>
        LeastLoaded_ChooseNode ?ns ?w = Inr (?ns ! i)" by blast
  from LeastLoaded_ChooseNode_correct[OF h4, of ?ns2] q4
  have 2: "\<exists>e. LeastLoaded_ChooseNode ?ns2 ?w4 = Inl e" by blast
  from h 1 2 show ?thesis by (intro conjI)
qed

subsection \<open>C7: CostOptimized prefers cheap nodes and falls back to LeastLoaded\<close>

text \<open>
  Claim C7. Take any node list and any request (GPU count not negative, as for C6), and
  let \<open>labelled\<close> be the nodes of the input, in input order, that carry the label
  \<open>gpu-orchestrator/cheap-node = "true"\<close> and have at least the requested number of
  available GPUs. When \<open>labelled\<close> is not empty, \<open>CostOptimizedStrategy.ChooseNode\<close>
  returns the node of \<open>labelled\<close> with the most available GPUs, the first such in input
  order, which is what LeastLoaded returns on \<open>labelled\<close>; the unlabelled nodes play no
  part, however many GPUs they have. When \<open>labelled\<close> is empty it returns exactly what
  \<open>LeastLoadedStrategy.ChooseNode\<close> returns on the whole input. It fails exactly when
  LeastLoaded fails on the whole input, which is when the input is empty or no node at
  all has enough GPUs.
\<close>

theorem CostOptimized_ChooseNode_correct:
  assumes "0 \<le> GPUCount (Spec gw)"
    and "labelled =
           filter (\<lambda>n. node_Labels n ''gpu-orchestrator/cheap-node'' = Some ''true'' \<and>
                        GPUCount (Spec gw) \<le> getAvailableGPUs n) nodes"
  shows "(labelled \<noteq> [] \<longrightarrow>
            (\<exists>i. first_best (GPUCount (Spec gw)) labelled i \<and>
                 (\<forall>j. first_best (GPUCount (Spec gw)) labelled j \<longrightarrow> j = i) \<and>
                 CostOptimized_ChooseNode nodes gw = Inr (labelled ! i)) \<and>
            CostOptimized_ChooseNode nodes gw = LeastLoaded_ChooseNode labelled gw \<and>
            (\<exists>n. CostOptimized_ChooseNode nodes gw = Inr n \<and> n \<in> set nodes \<and>
                 node_Labels n ''gpu-orchestrator/cheap-node'' = Some ''true'' \<and>
                 GPUCount (Spec gw) \<le> getAvailableGPUs n \<and>
                 (\<forall>m \<in> set nodes.
                    node_Labels m ''gpu-orchestrator/cheap-node'' = Some ''true'' \<and>
                    GPUCount (Spec gw) \<le> getAvailableGPUs m \<longrightarrow>
                    getAvailableGPUs m \<le> getAvailableGPUs n))) \<and>
         (labelled = [] \<longrightarrow>
            CostOptimized_ChooseNode nodes gw = LeastLoaded_ChooseNode nodes gw) \<and>
         ((\<exists>e. CostOptimized_ChooseNode nodes gw = Inl e) \<longleftrightarrow>
          (\<exists>e. LeastLoaded_ChooseNode nodes gw = Inl e)) \<and>
         ((\<exists>e. CostOptimized_ChooseNode nodes gw = Inl e) \<longleftrightarrow>
          nodes = [] \<or> (\<forall>n \<in> set nodes. getAvailableGPUs n < GPUCount (Spec gw)))"
proof -
  let ?need = "GPUCount (Spec gw)"
  let ?lab = "\<lambda>n. node_Labels n ''gpu-orchestrator/cheap-node'' = Some ''true''"
  have lab: "is_cheap n \<longleftrightarrow> ?lab n" for n
    by (simp add: is_cheap_def split: option.splits)
  have cs: "cheapNodes_of nodes gw = labelled"
    unfolding cheapNodes_of_def assms(2) lab ..
  have mem: "n \<in> set labelled \<longleftrightarrow> n \<in> set nodes \<and> ?lab n \<and> ?need \<le> getAvailableGPUs n" for n
    unfolding assms(2) by auto
  have A1: "\<exists>i. first_best ?need labelled i \<and>
                 (\<forall>j. first_best ?need labelled j \<longrightarrow> j = i) \<and>
                 CostOptimized_ChooseNode nodes gw = Inr (labelled ! i)"
    and A2: "CostOptimized_ChooseNode nodes gw = LeastLoaded_ChooseNode labelled gw"
    and A3: "\<exists>n. CostOptimized_ChooseNode nodes gw = Inr n \<and> n \<in> set nodes \<and> ?lab n \<and>
                 ?need \<le> getAvailableGPUs n \<and>
                 (\<forall>m \<in> set nodes. ?lab m \<and> ?need \<le> getAvailableGPUs m \<longrightarrow>
                    getAvailableGPUs m \<le> getAvailableGPUs n)"
    if ne: "labelled \<noteq> []"
  proof -
    from ne have ne': "cheapNodes_of nodes gw \<noteq> []" by (simp add: cs)
    from CostOptimized_cheap(1)[OF assms(1) ne']
    show eq: "CostOptimized_ChooseNode nodes gw = LeastLoaded_ChooseNode labelled gw"
      by (simp add: cs)
    from ne obtain x where "x \<in> set labelled" by (cases labelled) auto
    then have "\<exists>n \<in> set labelled. ?need \<le> getAvailableGPUs n" using mem by blast
    from LeastLoaded_index_found[OF assms(1) this] obtain i
      where i: "LeastLoaded_index labelled gw = Inr i" "first_best ?need labelled i" by blast
    have u: "\<forall>j. first_best ?need labelled j \<longrightarrow> j = i"
    proof (intro allI impI)
      fix j assume "first_best ?need labelled j"
      then show "j = i" using i(2) by (rule first_best_unique)
    qed
    have r: "CostOptimized_ChooseNode nodes gw = Inr (labelled ! i)"
      unfolding eq using i(1) by (simp add: LeastLoaded_ChooseNode_def)
    from i(2) u r show "\<exists>i. first_best ?need labelled i \<and>
                 (\<forall>j. first_best ?need labelled j \<longrightarrow> j = i) \<and>
                 CostOptimized_ChooseNode nodes gw = Inr (labelled ! i)"
      by (intro exI[of _ i] conjI)
    from i(2) have il: "i < length labelled"
      and mx: "\<forall>j < length labelled. ?need \<le> getAvailableGPUs (labelled ! j) \<longrightarrow>
                 getAvailableGPUs (labelled ! j) \<le> getAvailableGPUs (labelled ! i)"
      by (simp_all add: first_best_def)
    from il have "labelled ! i \<in> set labelled" by simp
    then have p: "labelled ! i \<in> set nodes" "?lab (labelled ! i)"
      "?need \<le> getAvailableGPUs (labelled ! i)" using mem by blast+
    have best: "getAvailableGPUs m \<le> getAvailableGPUs (labelled ! i)"
      if "m \<in> set nodes" "?lab m" "?need \<le> getAvailableGPUs m" for m
    proof -
      from that have "m \<in> set labelled" using mem by blast
      then obtain j where "j < length labelled" "labelled ! j = m" by (auto simp: in_set_conv_nth)
      with mx that(3) show ?thesis by auto
    qed
    from r p best show "\<exists>n. CostOptimized_ChooseNode nodes gw = Inr n \<and> n \<in> set nodes \<and> ?lab n \<and>
                 ?need \<le> getAvailableGPUs n \<and>
                 (\<forall>m \<in> set nodes. ?lab m \<and> ?need \<le> getAvailableGPUs m \<longrightarrow>
                    getAvailableGPUs m \<le> getAvailableGPUs n)"
      by (intro exI[of _ "labelled ! i"]) blast
  qed
  have B: "CostOptimized_ChooseNode nodes gw = LeastLoaded_ChooseNode nodes gw" if "labelled = []"
  proof -
    from that have "cheapNodes_of nodes gw = []" by (simp add: cs)
    then show ?thesis by (rule CostOptimized_fallback)
  qed
  let ?none = "nodes = [] \<or> (\<forall>n \<in> set nodes. getAvailableGPUs n < ?need)"
  have L: "(\<exists>e. LeastLoaded_ChooseNode nodes gw = Inl e) \<longleftrightarrow> ?none"
  proof
    assume "\<exists>e. LeastLoaded_ChooseNode nodes gw = Inl e"
    then obtain e where "LeastLoaded_ChooseNode nodes gw = Inl e" ..
    with assms(1) show ?none by (rule LeastLoaded_ChooseNode_Inl)
  next
    assume ?none
    from LeastLoaded_index_error[OF assms(1) this] obtain e
      where "LeastLoaded_index nodes gw = Inl e" by blast
    then show "\<exists>e. LeastLoaded_ChooseNode nodes gw = Inl e"
      by (simp add: LeastLoaded_ChooseNode_def)
  qed
  have C1: "\<exists>e. LeastLoaded_ChooseNode nodes gw = Inl e"
    if "CostOptimized_ChooseNode nodes gw = Inl e" for e
  proof (cases "labelled = []")
    case True
    from B[OF True] that have "LeastLoaded_ChooseNode nodes gw = Inl e" by simp
    then show ?thesis by blast
  next
    case False
    from A3[OF this] that show ?thesis by auto
  qed
  have C2: "\<exists>e. CostOptimized_ChooseNode nodes gw = Inl e"
    if "LeastLoaded_ChooseNode nodes gw = Inl e" for e
  proof -
    from LeastLoaded_ChooseNode_Inl[OF assms(1) that]
    have "labelled = []" unfolding assms(2) by (auto simp: filter_empty_conv)
    from B[OF this] that have "CostOptimized_ChooseNode nodes gw = Inl e" by simp
    then show ?thesis by blast
  qed
  from C1 C2 have C: "(\<exists>e. CostOptimized_ChooseNode nodes gw = Inl e) \<longleftrightarrow>
          (\<exists>e. LeastLoaded_ChooseNode nodes gw = Inl e)" by blast
  from C L have D: "(\<exists>e. CostOptimized_ChooseNode nodes gw = Inl e) \<longleftrightarrow> ?none" by simp
  from A1 A2 A3 B C D show ?thesis by blast
qed

text \<open>
  The theorem at work. Among a labelled node with 4 GPUs, an unlabelled node with 8 and
  a labelled node with 6, a request for 4 GPUs takes the labelled node with 6, a request
  for 5 GPUs takes it too (the labelled node with 4 no longer qualifies), a request for
  7 GPUs, which no labelled node can serve, falls back to LeastLoaded and takes the
  unlabelled node with 8, and a request for 9 GPUs fails. On the two nodes of the test
  a request for 2 GPUs takes the labelled node with 4.
\<close>

theorem CostOptimized_ChooseNode_correct_witness:
  "0 \<le> GPUCount (Spec (createMockGPUWorkload 4)) \<and>
   filter (\<lambda>n. node_Labels n ''gpu-orchestrator/cheap-node'' = Some ''true'' \<and>
                GPUCount (Spec (createMockGPUWorkload 4)) \<le> getAvailableGPUs n)
     [cheap_node, expensive_node, cheap_node_6] = [cheap_node, cheap_node_6] \<and>
   CostOptimized_ChooseNode [cheap_node, expensive_node, cheap_node_6] (createMockGPUWorkload 4) =
     Inr cheap_node_6 \<and>
   CostOptimized_ChooseNode [cheap_node, expensive_node, cheap_node_6] (createMockGPUWorkload 5) =
     Inr cheap_node_6 \<and>
   filter (\<lambda>n. node_Labels n ''gpu-orchestrator/cheap-node'' = Some ''true'' \<and>
                GPUCount (Spec (createMockGPUWorkload 7)) \<le> getAvailableGPUs n)
     [cheap_node, expensive_node, cheap_node_6] = [] \<and>
   CostOptimized_ChooseNode [cheap_node, expensive_node, cheap_node_6] (createMockGPUWorkload 7) =
     LeastLoaded_ChooseNode [cheap_node, expensive_node, cheap_node_6] (createMockGPUWorkload 7) \<and>
   CostOptimized_ChooseNode [cheap_node, expensive_node, cheap_node_6] (createMockGPUWorkload 7) =
     Inr expensive_node \<and>
   (\<exists>e. CostOptimized_ChooseNode [cheap_node, expensive_node, cheap_node_6]
          (createMockGPUWorkload 9) = Inl e) \<and>
   CostOptimized_ChooseNode [expensive_node, cheap_node] (createMockGPUWorkload 2) = Inr cheap_node"
proof -
  let ?ns = "[cheap_node, expensive_node, cheap_node_6]"
  let ?lab = "\<lambda>n. node_Labels n ''gpu-orchestrator/cheap-node'' = Some ''true''"
  let ?need = "\<lambda>k. GPUCount (Spec (createMockGPUWorkload k))"
  let ?f = "\<lambda>k ns. filter (\<lambda>n. ?lab n \<and> ?need k \<le> getAvailableGPUs n) ns"
  have av: "getAvailableGPUs cheap_node = 4" "getAvailableGPUs expensive_node = 8"
    "getAvailableGPUs cheap_node_6 = 6"
    by (simp_all add: cheap_node_def expensive_node_def cheap_node_6_def getAvailableGPUs_def
        createMockNode_def)
  have ch: "?lab cheap_node" "\<not> ?lab expensive_node" "?lab cheap_node_6"
    by (simp_all add: cheap_node_def expensive_node_def cheap_node_6_def createMockNode_def)
  have h: "0 \<le> ?need 4" "0 \<le> ?need 5" "0 \<le> ?need 7" "0 \<le> ?need 9" "0 \<le> ?need 2"
    by simp_all
  have f4: "?f 4 ?ns = [cheap_node, cheap_node_6]" by (simp add: av ch)
  have f5: "?f 5 ?ns = [cheap_node_6]" by (simp add: av ch)
  have f7: "?f 7 ?ns = []" by (simp add: av ch)
  have f2: "?f 2 [expensive_node, cheap_node] = [cheap_node]" by (simp add: av ch)
  have b4: "first_best (?need 4) [cheap_node, cheap_node_6] 1"
    by (simp add: first_best_def av less_Suc_eq)
  have b5: "first_best (?need 5) [cheap_node_6] 0"
    by (simp add: first_best_def av)
  have b2: "first_best (?need 2) [cheap_node] 0"
    by (simp add: first_best_def av)
  have ne: "[cheap_node, cheap_node_6] \<noteq> []" "[cheap_node_6] \<noteq> []" "[cheap_node] \<noteq> []"
    by simp_all
  from CostOptimized_ChooseNode_correct[OF h(1) f4[symmetric]] ne(1) obtain i where i:
    "\<forall>j. first_best (?need 4) [cheap_node, cheap_node_6] j \<longrightarrow> j = i"
    "CostOptimized_ChooseNode ?ns (createMockGPUWorkload 4) = Inr ([cheap_node, cheap_node_6] ! i)"
    by blast
  from i(1) b4 have "1 = i" by blast
  with i(2) have 1: "CostOptimized_ChooseNode ?ns (createMockGPUWorkload 4) = Inr cheap_node_6"
    by auto
  from CostOptimized_ChooseNode_correct[OF h(2) f5[symmetric]] ne(2) obtain i where i:
    "\<forall>j. first_best (?need 5) [cheap_node_6] j \<longrightarrow> j = i"
    "CostOptimized_ChooseNode ?ns (createMockGPUWorkload 5) = Inr ([cheap_node_6] ! i)"
    by blast
  from i(1) b5 have "0 = i" by blast
  with i(2) have 2: "CostOptimized_ChooseNode ?ns (createMockGPUWorkload 5) = Inr cheap_node_6"
    by auto
  from CostOptimized_ChooseNode_correct[OF h(3) f7[symmetric]]
  have 3: "CostOptimized_ChooseNode ?ns (createMockGPUWorkload 7) =
           LeastLoaded_ChooseNode ?ns (createMockGPUWorkload 7)"
    by blast
  have "LeastLoaded_ChooseNode ?ns (createMockGPUWorkload 7) = Inr expensive_node"
    by (simp add: LeastLoaded_ChooseNode_def LeastLoaded_index_def av)
  with 3 have 4: "CostOptimized_ChooseNode ?ns (createMockGPUWorkload 7) = Inr expensive_node"
    by simp
  have n9: "?ns = [] \<or> (\<forall>n \<in> set ?ns. getAvailableGPUs n < ?need 9)"
    by (simp add: av)
  from CostOptimized_ChooseNode_correct[OF h(4) refl, of ?ns] n9
  have 5: "\<exists>e. CostOptimized_ChooseNode ?ns (createMockGPUWorkload 9) = Inl e"
    by blast
  from CostOptimized_ChooseNode_correct[OF h(5) f2[symmetric]] ne(3) obtain i where i:
    "\<forall>j. first_best (?need 2) [cheap_node] j \<longrightarrow> j = i"
    "CostOptimized_ChooseNode [expensive_node, cheap_node] (createMockGPUWorkload 2) =
       Inr ([cheap_node] ! i)"
    by blast
  from i(1) b2 have "0 = i" by blast
  with i(2) have 6: "CostOptimized_ChooseNode [expensive_node, cheap_node] (createMockGPUWorkload 2) =
       Inr cheap_node"
    by auto
  from h(1) f4 1 2 f7 3 4 5 6 show ?thesis by (intro conjI)
qed

subsection \<open>C1: a placed workload is skipped\<close>

text \<open>
  Claim C1. For every GPUWorkload whose phase is Scheduled, Running or Succeeded, a
  pass of \<open>Reconcile\<close> is a no-op: it returns at once with an empty result, it leaves
  the stored workloads (and so the stored status) and the Jobs as they are, and it
  issues no writing call at all, in particular no creation of a Job. When the fetch of
  the object succeeds the pass makes exactly two calls: the fetch and the metric of its
  duration.
\<close>

theorem Reconcile_skip_is_noop:
  assumes "workloads c req = Some gw" and "already_scheduled gw"
  shows "\<exists>c' err. Reconcile env req c = (c', no_requeue, err) \<and>
           workloads c' = workloads c \<and> jobs c' = jobs c \<and> nodeItems c' = nodeItems c \<and>
           filter is_write (calls c') = filter is_write (calls c) \<and>
           (err_Get env = None \<longrightarrow>
              err = None \<and>
              calls c' = calls c @ [Get_GPUWorkload req,
                 Metric_ReconcileDuration
                   (if Phase (Status gw) = PhaseSucceeded then ''error'' else ''success'')])"
  unfolding Reconcile_already_scheduled[OF assms]
  by (cases "err_Get env") (simp_all add: is_write_def)

text \<open>The theorem at work on the example workload after its placement.\<close>

theorem Reconcile_skip_is_noop_witness:
  "(\<exists>gw. workloads scheduled_cluster example_key = Some gw \<and> already_scheduled gw) \<and>
   (\<exists>c' err. Reconcile quiet_env example_key scheduled_cluster = (c', no_requeue, err) \<and>
      workloads c' = workloads scheduled_cluster \<and> jobs c' = jobs scheduled_cluster \<and>
      filter is_write (calls c') = filter is_write (calls scheduled_cluster) \<and> err = None)"
proof -
  let ?gw = "example_workload\<lparr> Finalizers := [finalizerName],
        Status := \<lparr> Phase = PhaseScheduled, AssignedNode = ''node1'', LastScheduleTime = Some 0,
                    RetryCount = 0,
                    Message = ''Successfully scheduled on node node1 using leastLoaded strategy'',
                    JobName = ''train-job-0a1b2c3d'' \<rparr> \<rparr>"
  have w: "workloads scheduled_cluster example_key = Some ?gw"
    by (rule scheduled_cluster_workload)
  have a: "already_scheduled ?gw" by (simp add: already_scheduled_def)
  have q: "err_Get quiet_env = None" by (simp add: quiet_env_def)
  from Reconcile_skip_is_noop[OF w a, of quiet_env] q
  have "\<exists>c' err. Reconcile quiet_env example_key scheduled_cluster = (c', no_requeue, err) \<and>
      workloads c' = workloads scheduled_cluster \<and> jobs c' = jobs scheduled_cluster \<and>
      filter is_write (calls c') = filter is_write (calls scheduled_cluster) \<and> err = None"
    by blast
  with w a show ?thesis by blast
qed

subsection \<open>C2: the deletion of a placed workload is never handled\<close>

text \<open>
  Claim C2 says that the cleanup of a workload that carries a deletion marker comes
  before all scheduling logic, the skip of a placed workload included, so that a delete
  notification for a Scheduled workload with a live Job leads to the deletion of the
  Job and then to the removal of the finalizer. The code tests the phase first: for the
  example workload, placed and then marked for deletion, no sequence of passes, whatever
  the environment, changes the stored workload (its finalizer stays), deletes the Job or
  issues any writing call. The cleanup itself works where it is reached: the same
  object in phase Pending has its Job deleted and then its finalizer removed, after
  which it is gone.
\<close>

theorem deletion_of_Scheduled_workload_is_skipped:
  "(\<exists>gw. workloads deleting_cluster example_key = Some gw \<and>
         Phase (Status gw) = PhaseScheduled \<and> DeletionTimestamp gw = Some 1 \<and>
         containsString (Finalizers gw) finalizerName \<and>
         JobName (Status gw) = ''train-job-0a1b2c3d'') \<and>
   jobs deleting_cluster (''default'', ''train-job-0a1b2c3d'') \<noteq> None \<and>
   workloads (Reconcile_passes envs example_key deleting_cluster) = workloads deleting_cluster \<and>
   jobs (Reconcile_passes envs example_key deleting_cluster) = jobs deleting_cluster \<and>
   filter is_write (calls (Reconcile_passes envs example_key deleting_cluster)) =
     filter is_write (calls deleting_cluster) \<and>
   Reconcile quiet_env example_key (set_phase PhasePending example_key deleting_cluster) =
     ((set_phase PhasePending example_key deleting_cluster)
        \<lparr> workloads := (workloads deleting_cluster)(example_key := None),
          jobs := (jobs deleting_cluster)((''default'', ''train-job-0a1b2c3d'') := None),
          calls := calls deleting_cluster @
            [Get_GPUWorkload example_key, Get_Job (''default'', ''train-job-0a1b2c3d''),
             Delete_Job (''default'', ''train-job-0a1b2c3d''), Update_GPUWorkload example_key,
             Metric_ReconcileDuration ''error''] \<rparr>,
      no_requeue, None)"
proof -
  let ?gw = "example_workload\<lparr> DeletionTimestamp := Some 1, Finalizers := [finalizerName],
        Status := \<lparr> Phase = PhaseScheduled, AssignedNode = ''node1'', LastScheduleTime = Some 0,
                    RetryCount = 0,
                    Message = ''Successfully scheduled on node node1 using leastLoaded strategy'',
                    JobName = ''train-job-0a1b2c3d'' \<rparr> \<rparr>"
  have w: "workloads deleting_cluster example_key = Some ?gw"
    by (rule deleting_cluster_workload)
  have a: "already_scheduled ?gw" by (simp add: already_scheduled_def)
  have 1: "\<exists>gw. workloads deleting_cluster example_key = Some gw \<and>
         Phase (Status gw) = PhaseScheduled \<and> DeletionTimestamp gw = Some 1 \<and>
         containsString (Finalizers gw) finalizerName \<and>
         JobName (Status gw) = ''train-job-0a1b2c3d''"
    unfolding w by simp
  have 2: "jobs deleting_cluster (''default'', ''train-job-0a1b2c3d'') \<noteq> None"
    by (simp add: deleting_cluster_rest scheduled_cluster_job)
  note 3 = Reconcile_passes_already_scheduled[OF w a, of envs]
  note 4 = pending_deleted_is_cleaned_up
  from 1 2 3 4 show ?thesis by (intro conjI) blast+
qed

subsection \<open>C5: placing twice creates one Job\<close>

text \<open>
  Claim C5. The name of the Job is a function of the identity of the request: the name
  of the workload, \<open>-job-\<close> and the first 8 bytes of its UID. When the placement step runs
  twice for the same identity, with no Job of that name before the first run and no
  failure of the API calls, the first run creates the Job, the second finds and adopts
  it: both return the same Job, whose name is the derived one, the second run leaves
  the Jobs as they are, and the two runs together issue exactly one create call.
\<close>

theorem createJobForWorkload_idempotent:
  assumes "8 \<le> length (UID gw)"
    and "Name gw2 = Name gw" and "Namespace gw2 = Namespace gw" and "UID gw2 = UID gw"
    and "err_JobGet env1 = None" and "err_JobCreate env1 = None" and "err_JobGet env2 = None"
    and "jobs c (Namespace gw, jobName_of gw) = None"
  shows "\<exists>job c1 c2.
           createJobForWorkload env1 gw node1 c = (c1, Inr job) \<and>
           createJobForWorkload env2 gw2 node2 c1 = (c2, Inr job) \<and>
           job_Name job = Name gw @ ''-job-'' @ take 8 (UID gw) \<and>
           jobName_of gw2 = jobName_of gw \<and>
           jobs c2 = jobs c1 \<and>
           length (filter is_Create_Job (calls c2)) = length (filter is_Create_Job (calls c)) + 1"
proof -
  let ?key = "(Namespace gw, jobName_of gw)"
  let ?job = "build_Job gw node1"
  let ?c1 = "c\<lparr> jobs := (jobs c)(?key \<mapsto> ?job), calls := calls c @ [Get_Job ?key, Create_Job ?key] \<rparr>"
  let ?c2 = "?c1\<lparr> calls := calls ?c1 @ [Get_Job ?key] \<rparr>"
  have n: "jobName_of gw2 = jobName_of gw"
    using assms(2,4) by (simp add: jobName_of_def)
  have 1: "createJobForWorkload env1 gw node1 c = (?c1, Inr ?job)"
    using assms(1,5,6,8) by (rule createJobForWorkload_creates)
  have "jobs ?c1 (Namespace gw2, jobName_of gw2) = Some ?job"
    using n assms(3) by simp
  moreover have "8 \<le> length (UID gw2)" using assms(1,4) by simp
  ultimately have "createJobForWorkload env2 gw2 node2 ?c1 =
      (?c1\<lparr> calls := calls ?c1 @ [Get_Job (Namespace gw2, jobName_of gw2)] \<rparr>, Inr ?job)"
    using assms(7) by (intro createJobForWorkload_adopts)
  then have 2: "createJobForWorkload env2 gw2 node2 ?c1 = (?c2, Inr ?job)"
    using n assms(3) by simp
  have 3: "job_Name ?job = Name gw @ ''-job-'' @ take 8 (UID gw)"
    by (simp add: build_Job_def jobName_of_def)
  have 4: "jobs ?c2 = jobs ?c1" by simp
  have 5: "length (filter is_Create_Job (calls ?c2)) = length (filter is_Create_Job (calls c)) + 1"
    by (simp add: is_Create_Job_def)
  from 1 2 3 n 4 5 show ?thesis by blast
qed


text \<open>The theorem at work on the example workload.\<close>

theorem createJobForWorkload_idempotent_witness:
  "8 \<le> length (UID example_workload) \<and>
   err_JobGet quiet_env = None \<and> err_JobCreate quiet_env = None \<and>
   jobs (example_cluster example_workload [example_node])
     (Namespace example_workload, jobName_of example_workload) = None \<and>
   (\<exists>job c1 c2.
      createJobForWorkload quiet_env example_workload example_node
        (example_cluster example_workload [example_node]) = (c1, Inr job) \<and>
      createJobForWorkload quiet_env example_workload example_node c1 = (c2, Inr job) \<and>
      job_Name job = ''train-job-0a1b2c3d'' \<and>
      jobs c2 = jobs c1 \<and>
      length (filter is_Create_Job (calls c2)) = 1)"
proof -
  let ?c = "example_cluster example_workload [example_node]"
  have h1: "8 \<le> length (UID example_workload)" by (simp add: example_workload_def)
  have h2: "err_JobGet quiet_env = None" "err_JobCreate quiet_env = None"
    by (simp_all add: quiet_env_def)
  have h3: "jobs ?c (Namespace example_workload, jobName_of example_workload) = None"
    by (simp add: example_cluster_def)
  have n: "Name example_workload @ ''-job-'' @ take 8 (UID example_workload) = ''train-job-0a1b2c3d''"
    by (simp add: example_workload_def)
  have k: "length (filter is_Create_Job (calls ?c)) = 0" by (simp add: example_cluster_def)
  from createJobForWorkload_idempotent[OF h1 refl refl refl h2(1) h2(2) h2(1) h3,
      of example_node example_node]
  have "\<exists>job c1 c2.
      createJobForWorkload quiet_env example_workload example_node ?c = (c1, Inr job) \<and>
      createJobForWorkload quiet_env example_workload example_node c1 = (c2, Inr job) \<and>
      job_Name job = ''train-job-0a1b2c3d'' \<and>
      jobs c2 = jobs c1 \<and>
      length (filter is_Create_Job (calls c2)) = 1"
    unfolding n k by simp
  with h1 h2 h3 show ?thesis by blast
qed


subsection \<open>C10: the GPU quantity of the Job is a digit count\<close>

text \<open>
  Claim C10. The Job that \<open>createJobForWorkload\<close> builds and creates requests, and is
  limited to, \<open>q\<close> units of \<open>nvidia.com/gpu\<close>, where \<open>q\<close> is the length of the decimal
  rendering of the GPU count of the workload and not the count itself: for a count that
  is not negative (the schema admits 1 to 8) \<open>q\<close> is its number of decimal digits, that
  is \<open>q = 1\<close> below 10 and \<open>10\<^sup>q\<^sup>-\<^sup>1 \<le> count < 10\<^sup>q\<close> from 10 on. For every count from 1
  to 8 the Job therefore asks for exactly one GPU.
\<close>

theorem createJobForWorkload_gpu_quantity:
  assumes "0 \<le> GPUCount (Spec gw)"
    and "8 \<le> length (UID gw)" and "err_JobGet env = None" and "err_JobCreate env = None"
    and "jobs c (Namespace gw, jobName_of gw) = None"
  shows "\<exists>job c' q.
           createJobForWorkload env gw node c = (c', Inr job) \<and>
           jobs c' (Namespace gw, jobName_of gw) = Some job \<and>
           container_Requests job ''nvidia.com/gpu'' = Some (int q) \<and>
           container_Limits job ''nvidia.com/gpu'' = Some (int q) \<and>
           q = length (Sprintf_d (GPUCount (Spec gw))) \<and>
           GPUCount (Spec gw) < 10 ^ q \<and>
           (10 \<le> GPUCount (Spec gw) \<longrightarrow> 10 ^ (q - 1) \<le> GPUCount (Spec gw)) \<and>
           (GPUCount (Spec gw) < 10 \<longrightarrow> q = 1) \<and>
           (1 \<le> GPUCount (Spec gw) \<and> GPUCount (Spec gw) \<le> 8 \<longrightarrow>
              container_Requests job ''nvidia.com/gpu'' = Some 1 \<and>
              container_Limits job ''nvidia.com/gpu'' = Some 1)"
proof -
  let ?g = "GPUCount (Spec gw)"
  let ?q = "length (Sprintf_d ?g)"
  let ?job = "build_Job gw node"
  let ?key = "(Namespace gw, jobName_of gw)"
  let ?c' = "c\<lparr> jobs := (jobs c)(?key \<mapsto> ?job), calls := calls c @ [Get_Job ?key, Create_Job ?key] \<rparr>"
  have 1: "createJobForWorkload env gw node c = (?c', Inr ?job)"
    using assms(2-5) by (rule createJobForWorkload_creates)
  have 2: "jobs ?c' ?key = Some ?job" by simp
  have 3: "container_Requests ?job ''nvidia.com/gpu'' = Some (int ?q)"
    "container_Limits ?job ''nvidia.com/gpu'' = Some (int ?q)"
    by (simp_all add: build_Job_def parseQuantity_def)
  have q: "?q = length (decimal (nat ?g))"
    using assms(1) by (simp add: Sprintf_d_def)
  from decimal_bounds[of "nat ?g"]
  have b: "nat ?g < 10 ^ ?q" "10 \<le> nat ?g \<longrightarrow> 10 ^ (?q - 1) \<le> nat ?g"
    "nat ?g < 10 \<longrightarrow> ?q = 1"
    unfolding q by blast+
  have 4: "?g < 10 ^ ?q"
  proof -
    from b(1) have "int (nat ?g) < int (10 ^ ?q)" by (simp only: of_nat_less_iff)
    with assms(1) show ?thesis by simp
  qed
  have 5: "10 \<le> ?g \<longrightarrow> 10 ^ (?q - 1) \<le> ?g"
  proof
    assume "10 \<le> ?g"
    then have "10 \<le> nat ?g" by simp
    with b(2) have "int (10 ^ (?q - 1)) \<le> int (nat ?g)" by (simp only: of_nat_le_iff)
    with assms(1) show "10 ^ (?q - 1) \<le> ?g" by simp
  qed
  have 6: "?g < 10 \<longrightarrow> ?q = 1"
  proof
    assume "?g < 10"
    with assms(1) have "nat ?g < 10" by simp
    with b(3) show "?q = 1" by simp
  qed
  have 7: "1 \<le> ?g \<and> ?g \<le> 8 \<longrightarrow>
             container_Requests ?job ''nvidia.com/gpu'' = Some 1 \<and>
             container_Limits ?job ''nvidia.com/gpu'' = Some 1"
    using 3 6 by simp
  from 1 2 3 4 5 6 7 show ?thesis by blast
qed


text \<open>The theorem at work: the example workload with 8 GPUs gets a Job with one.\<close>

theorem createJobForWorkload_gpu_quantity_witness:
  "0 \<le> GPUCount (Spec (example_workload\<lparr> Spec := (Spec example_workload)\<lparr> GPUCount := 8 \<rparr> \<rparr>)) \<and>
   (\<exists>job c'.
      createJobForWorkload quiet_env
        (example_workload\<lparr> Spec := (Spec example_workload)\<lparr> GPUCount := 8 \<rparr> \<rparr>) example_node
        (example_cluster example_workload [example_node]) = (c', Inr job) \<and>
      container_Requests job ''nvidia.com/gpu'' = Some 1 \<and>
      container_Limits job ''nvidia.com/gpu'' = Some 1)"
proof -
  let ?gw = "example_workload\<lparr> Spec := (Spec example_workload)\<lparr> GPUCount := 8 \<rparr> \<rparr>"
  let ?c = "example_cluster example_workload [example_node]"
  have h0: "0 \<le> GPUCount (Spec ?gw)" by simp
  have h1: "8 \<le> length (UID ?gw)" by (simp add: example_workload_def)
  have h2: "err_JobGet quiet_env = None" "err_JobCreate quiet_env = None"
    by (simp_all add: quiet_env_def)
  have h3: "jobs ?c (Namespace ?gw, jobName_of ?gw) = None"
    by (simp add: example_cluster_def)
  have r: "1 \<le> GPUCount (Spec ?gw) \<and> GPUCount (Spec ?gw) \<le> 8" by simp
  from createJobForWorkload_gpu_quantity[OF h0 h1 h2 h3, of example_node] r
  have "\<exists>job c'.
      createJobForWorkload quiet_env ?gw example_node ?c = (c', Inr job) \<and>
      container_Requests job ''nvidia.com/gpu'' = Some 1 \<and>
      container_Limits job ''nvidia.com/gpu'' = Some 1"
    by blast
  with h0 show ?thesis by blast
qed

subsection \<open>C3: the retry ceiling\<close>

text \<open>
  Claim C3 says that the retry counter never exceeds the ceiling of the retry policy
  (default 3), and that once it has reached the ceiling a pass sets the phase Failed
  with the message "exceeded N retries", emits a terminal notification and requests no
  requeue, the phase staying Failed ever after. The message is the one thing the code
  does differently: for the example workload, which asks for 2 GPUs on a cluster whose
  only node has one, three passes leave it Pending with 3 retries, and the fourth pass
  stores the phase Failed with the message "Failed to schedule after 3 retries".
\<close>

theorem retry_message_counterexample:
  "map_option (Phase \<circ> Status)
     (workloads (fst (Reconcile quiet_env example_key exhausted_cluster)) example_key) =
     Some PhaseFailed \<and>
   map_option (RetryCount \<circ> Status)
     (workloads (fst (Reconcile quiet_env example_key exhausted_cluster)) example_key) = Some 3 \<and>
   map_option (Message \<circ> Status)
     (workloads (fst (Reconcile quiet_env example_key exhausted_cluster)) example_key) =
     Some ''Failed to schedule after 3 retries'' \<and>
   map_option (Message \<circ> Status)
     (workloads (fst (Reconcile quiet_env example_key exhausted_cluster)) example_key) \<noteq>
     Some ''exceeded 3 retries''"
proof -
  let ?gw = "example_workload\<lparr> Finalizers := [finalizerName],
        Status := \<lparr> Phase = PhasePending, AssignedNode = [], LastScheduleTime = Some 0,
                    RetryCount = 3,
                    Message = ''no node has enough available GPUs for workload requiring 2 GPUs'',
                    JobName = [] \<rparr> \<rparr>"
  have k: "key_of ?gw = example_key" by (simp add: key_of_def example_workload_def example_key_def)
  have ns: "\<not> already_scheduled ?gw"
    by (simp add: already_scheduled_def PhasePending_def PhaseScheduled_def PhaseRunning_def
        PhaseSucceeded_def)
  have nd: "DeletionTimestamp ?gw = None" by (simp add: example_workload_def)
  have m: "maxRetries_of ?gw = 3" by (simp add: maxRetries_of_def example_workload_def)
  then have lim: "maxRetries_of ?gw \<le> RetryCount (Status ?gw)" by simp
  have q: "err_Get quiet_env = None" "err_Update quiet_env = None"
    "err_StatusInit quiet_env = None" "err_Status quiet_env = None"
    by (simp_all add: quiet_env_def)
  from Reconcile_at_ceiling[OF exhausted_cluster_workload k ns nd lim q]
  obtain c' gw' where r: "Reconcile quiet_env example_key exhausted_cluster = (c', no_requeue, None)"
    "workloads c' example_key = Some gw'" "Phase (Status gw') = PhaseFailed"
    "Message (Status gw') = ''Failed to schedule after '' @ Sprintf_d (maxRetries_of ?gw) @ '' retries''"
    "RetryCount (Status gw') = RetryCount (Status ?gw)"
    by blast
  from r(4) have msg: "Message (Status gw') = ''Failed to schedule after 3 retries''"
    unfolding m Sprintf_d_3 by simp
  from r(1,2,3,5) msg show ?thesis by simp
qed

text \<open>
  Claim C3 as the code has it. The ceiling \<open>N\<close> of a workload is the \<open>maxRetries\<close> of its
  retry policy when it has a policy and that number is positive, and 3 otherwise.
  (1) When the stored retry counter is an \<open>int32\<close> that does not exceed \<open>N\<close>, then after
  any sequence of passes, whatever fails in them, the workload is gone or stored with
  its spec and a retry counter that does not exceed \<open>N\<close>. (2) When the counter has
  reached \<open>N\<close>, a pass on a workload that is not yet placed and not marked for deletion,
  in which the fetch and the updates succeed, stores the phase Failed with the message
  "Failed to schedule after N retries", keeps the counter, records the warning event
  \<open>MaxRetriesExceeded\<close>, creates no Job and returns without requeue and without error.
  (3) A stored workload in phase Failed whose counter has reached \<open>N\<close> is, after any
  sequence of passes, either gone (its deletion has completed) or still stored in phase
  Failed with the same counter.
\<close>

theorem retry_ceiling:
  assumes "workloads c key = Some gw" and "key_of gw = key"
    and "N = (case RetryPolicy (Spec gw) of
                None \<Rightarrow> 3
              | Some policy \<Rightarrow> if 0 < MaxRetries policy then MaxRetries policy else 3)"
  shows "(- (2 ^ 31) \<le> RetryCount (Status gw) \<and> RetryCount (Status gw) \<le> N \<and> N < 2 ^ 31 \<longrightarrow>
            (case workloads (Reconcile_passes envs key c) key of
               None \<Rightarrow> True
             | Some gw' \<Rightarrow> Spec gw' = Spec gw \<and> RetryCount (Status gw') \<le> N)) \<and>
         (N \<le> RetryCount (Status gw) \<and> \<not> already_scheduled gw \<and> DeletionTimestamp gw = None \<and>
          err_Get env = None \<and> err_Update env = None \<and> err_StatusInit env = None \<and>
          err_Status env = None \<longrightarrow>
            (\<exists>c' gw'. Reconcile env key c = (c', \<lparr> RequeueAfter = 0 \<rparr>, None) \<and>
               workloads c' key = Some gw' \<and>
               Spec gw' = Spec gw \<and>
               Phase (Status gw') = PhaseFailed \<and>
               Message (Status gw') = ''Failed to schedule after '' @ Sprintf_d N @ '' retries'' \<and>
               RetryCount (Status gw') = RetryCount (Status gw) \<and>
               Record_Event ''Warning'' ''MaxRetriesExceeded'' (Message (Status gw')) \<in> set (calls c') \<and>
               filter is_Create_Job (calls c') = filter is_Create_Job (calls c) \<and>
               jobs c' = jobs c)) \<and>
         (N \<le> RetryCount (Status gw) \<and> Phase (Status gw) = PhaseFailed \<longrightarrow>
            (case workloads (Reconcile_passes envs key c) key of
               None \<Rightarrow> True
             | Some gw' \<Rightarrow> Spec gw' = Spec gw \<and> Phase (Status gw') = PhaseFailed \<and>
                            RetryCount (Status gw') = RetryCount (Status gw)))"
proof (intro conjI impI)
  note w = assms(1) and k = assms(2) and N = assms(3)
  have mN: "maxRetries_of g = N" if "Spec g = Spec gw" for g
    unfolding N maxRetries_of_def that by (cases "RetryPolicy (Spec gw)") simp_all
  {
    assume h: "- (2 ^ 31) \<le> RetryCount (Status gw) \<and> RetryCount (Status gw) \<le> N \<and> N < 2 ^ 31"
    then have "retry_bounded gw" by (simp add: retry_bounded_def mN)
    with w k have "stored_bounded key (Spec gw) c" by (simp add: stored_bounded_def)
    then have s: "stored_bounded key (Spec gw) (Reconcile_passes envs key c)"
      by (rule Reconcile_passes_bounded)
    show "case workloads (Reconcile_passes envs key c) key of
               None \<Rightarrow> True
             | Some gw' \<Rightarrow> Spec gw' = Spec gw \<and> RetryCount (Status gw') \<le> N"
    proof (cases "workloads (Reconcile_passes envs key c) key")
      case None
      then show ?thesis by simp
    next
      case (Some g)
      with s have "Spec g = Spec gw" "retry_bounded g" by (simp_all add: stored_bounded_def)
      then have "Spec g = Spec gw \<and> RetryCount (Status g) \<le> N"
        by (simp add: retry_bounded_def mN)
      with Some show ?thesis by simp
    qed
  }
  {
    assume h: "N \<le> RetryCount (Status gw) \<and> \<not> already_scheduled gw \<and> DeletionTimestamp gw = None \<and>
          err_Get env = None \<and> err_Update env = None \<and> err_StatusInit env = None \<and>
          err_Status env = None"
    then have lim: "maxRetries_of gw \<le> RetryCount (Status gw)" by (simp add: mN)
    from h have o: "\<not> already_scheduled gw" "DeletionTimestamp gw = None"
      "err_Get env = None" "err_Update env = None" "err_StatusInit env = None"
      "err_Status env = None" by simp_all
    from Reconcile_at_ceiling[OF w k o(1,2) lim o(3-6)]
    show "\<exists>c' gw'. Reconcile env key c = (c', \<lparr> RequeueAfter = 0 \<rparr>, None) \<and>
               workloads c' key = Some gw' \<and>
               Spec gw' = Spec gw \<and>
               Phase (Status gw') = PhaseFailed \<and>
               Message (Status gw') = ''Failed to schedule after '' @ Sprintf_d N @ '' retries'' \<and>
               RetryCount (Status gw') = RetryCount (Status gw) \<and>
               Record_Event ''Warning'' ''MaxRetriesExceeded'' (Message (Status gw')) \<in> set (calls c') \<and>
               filter is_Create_Job (calls c') = filter is_Create_Job (calls c) \<and>
               jobs c' = jobs c"
      unfolding no_requeue_def mN[OF refl] by blast
  }
  {
    assume h: "N \<le> RetryCount (Status gw) \<and> Phase (Status gw) = PhaseFailed"
    with w k have s: "stored_failed key (Spec gw) (RetryCount (Status gw)) c"
      by (simp add: stored_failed_def)
    from h have "(case RetryPolicy (Spec gw) of
          Some policy \<Rightarrow> if MaxRetries policy > 0 then MaxRetries policy else 3 | None \<Rightarrow> 3)
        \<le> RetryCount (Status gw)"
      using mN[OF refl] by (simp add: maxRetries_of_def)
    from Reconcile_passes_failed[OF this s]
    have f: "stored_failed key (Spec gw) (RetryCount (Status gw)) (Reconcile_passes envs key c)" .
    show "case workloads (Reconcile_passes envs key c) key of
               None \<Rightarrow> True
             | Some gw' \<Rightarrow> Spec gw' = Spec gw \<and> Phase (Status gw') = PhaseFailed \<and>
                            RetryCount (Status gw') = RetryCount (Status gw)"
      using f by (simp add: stored_failed_def split: option.splits)
  }
qed

text \<open>
  The theorem at work. The workload with the policy \<open>maxRetries = 2\<close> on a cluster that
  cannot serve it: its counter stays at most 2 over four passes (three passes in fact
  end in phase Failed with the counter 2), and with the counter at 2 a pass stores the
  phase Failed with the message "Failed to schedule after 2 retries". The example
  workload, which has no policy, after its three failed attempts: a pass stores the phase
  Failed with the message "Failed to schedule after 3 retries", and once it is Failed
  it stays Failed with the counter 3.
\<close>

theorem retry_ceiling_witness:
  "workloads (example_cluster policy_workload [small_node]) example_key = Some policy_workload \<and>
   key_of policy_workload = example_key \<and>
   RetryPolicy (Spec policy_workload) = Some \<lparr> MaxRetries = 2, BackoffSeconds = 10 \<rparr> \<and>
   RetryCount (Status policy_workload) = 0 \<and>
   (case workloads (Reconcile_passes [quiet_env, quiet_env, quiet_env, quiet_env] example_key
            (example_cluster policy_workload [small_node])) example_key of
      None \<Rightarrow> True
    | Some gw' \<Rightarrow> Spec gw' = Spec policy_workload \<and> RetryCount (Status gw') \<le> 2) \<and>
   map_option (\<lambda>gw. (Phase (Status gw), RetryCount (Status gw), Message (Status gw)))
     (workloads (Reconcile_passes [quiet_env, quiet_env, quiet_env] example_key
        (example_cluster policy_workload [small_node])) example_key) =
     Some (PhaseFailed, 2, ''Failed to schedule after 2 retries'') \<and>
   RetryCount (Status policy_workload_retried) = 2 \<and>
   (\<exists>c' gw'. Reconcile quiet_env example_key (example_cluster policy_workload_retried [small_node]) =
        (c', \<lparr> RequeueAfter = 0 \<rparr>, None) \<and>
      workloads c' example_key = Some gw' \<and> Phase (Status gw') = PhaseFailed \<and>
      Message (Status gw') = ''Failed to schedule after 2 retries'' \<and>
      RetryCount (Status gw') = 2) \<and>
   (\<exists>c' gw'. Reconcile quiet_env example_key exhausted_cluster = (c', \<lparr> RequeueAfter = 0 \<rparr>, None) \<and>
      workloads c' example_key = Some gw' \<and> Phase (Status gw') = PhaseFailed \<and>
      Message (Status gw') = ''Failed to schedule after 3 retries'' \<and>
      RetryCount (Status gw') = 3) \<and>
   (case workloads (Reconcile_passes [quiet_env, quiet_env] example_key
            (set_phase PhaseFailed example_key exhausted_cluster)) example_key of
      None \<Rightarrow> True
    | Some gw' \<Rightarrow> Phase (Status gw') = PhaseFailed \<and> RetryCount (Status gw') = 3)"
proof -
  let ?st = "\<lparr> Phase = PhasePending, AssignedNode = [], LastScheduleTime = Some 0,
                    RetryCount = 3,
                    Message = ''no node has enough available GPUs for workload requiring 2 GPUs'',
                    JobName = [] \<rparr>"
  let ?gw = "example_workload\<lparr> Finalizers := [finalizerName], Status := ?st \<rparr>"
  let ?gf = "?gw\<lparr> Status := ?st\<lparr> Phase := PhaseFailed \<rparr> \<rparr>"
  let ?cf = "set_phase PhaseFailed example_key exhausted_cluster"
  let ?p = policy_workload
  let ?r = policy_workload_retried
  let ?cp = "example_cluster policy_workload [small_node]"
  let ?cr = "example_cluster policy_workload_retried [small_node]"
  let ?N = "\<lambda>g. case RetryPolicy (Spec g) of
                None \<Rightarrow> 3
              | Some policy \<Rightarrow> if 0 < MaxRetries policy then MaxRetries policy else (3::int)"
  note w = exhausted_cluster_workload
  have q: "err_Get quiet_env = None" "err_Update quiet_env = None"
    "err_StatusInit quiet_env = None" "err_Status quiet_env = None"
    by (simp_all add: quiet_env_def)
  have ph: "PhasePending \<noteq> PhaseScheduled" "PhasePending \<noteq> PhaseRunning"
    "PhasePending \<noteq> PhaseSucceeded"
    by (simp_all add: PhasePending_def PhaseScheduled_def PhaseRunning_def PhaseSucceeded_def)
  have kp: "key_of ?p = example_key" "key_of ?r = example_key"
    by (simp_all add: key_of_def policy_workload_def policy_workload_retried_def
        example_workload_def example_key_def)
  have wp: "workloads ?cp example_key = Some ?p" "workloads ?cr example_key = Some ?r"
    using kp by (simp_all add: example_cluster_def)
  have rp: "RetryPolicy (Spec ?p) = Some \<lparr> MaxRetries = 2, BackoffSeconds = 10 \<rparr>"
    "RetryCount (Status ?p) = 0" "RetryCount (Status ?r) = 2"
    by (simp_all add: policy_workload_def policy_workload_retried_def example_workload_def)
  have Np: "2 = ?N ?p" "2 = ?N ?r"
    by (simp_all add: policy_workload_def policy_workload_retried_def)
  have hr: "\<not> already_scheduled ?r" "DeletionTimestamp ?r = None"
    by (simp_all add: already_scheduled_def policy_workload_retried_def policy_workload_def
        example_workload_def ph)
  from retry_ceiling[OF wp(1) kp(1) Np(1), of "[quiet_env, quiet_env, quiet_env, quiet_env]" quiet_env]
  have A: "case workloads (Reconcile_passes [quiet_env, quiet_env, quiet_env, quiet_env] example_key ?cp)
                  example_key of
      None \<Rightarrow> True
    | Some gw' \<Rightarrow> Spec gw' = Spec ?p \<and> RetryCount (Status gw') \<le> 2"
    unfolding rp(2) by simp
  from retry_ceiling[OF wp(2) kp(2) Np(2), of "[]" quiet_env] hr q
  have "\<exists>c' gw'. Reconcile quiet_env example_key ?cr = (c', \<lparr> RequeueAfter = 0 \<rparr>, None) \<and>
      workloads c' example_key = Some gw' \<and> Phase (Status gw') = PhaseFailed \<and>
      Message (Status gw') = ''Failed to schedule after '' @ Sprintf_d 2 @ '' retries'' \<and>
      RetryCount (Status gw') = RetryCount (Status ?r)"
    unfolding rp(3) by blast
  then have B: "\<exists>c' gw'. Reconcile quiet_env example_key ?cr = (c', \<lparr> RequeueAfter = 0 \<rparr>, None) \<and>
      workloads c' example_key = Some gw' \<and> Phase (Status gw') = PhaseFailed \<and>
      Message (Status gw') = ''Failed to schedule after 2 retries'' \<and>
      RetryCount (Status gw') = 2"
    unfolding Sprintf_d_2 rp(3) by simp
  have k: "key_of ?gw = example_key" by (simp add: key_of_def example_workload_def example_key_def)
  have h: "\<not> already_scheduled ?gw" "DeletionTimestamp ?gw = None"
    by (simp_all add: already_scheduled_def example_workload_def ph)
  have N3: "3 = ?N ?gw" "3 = ?N ?gf" by (simp_all add: example_workload_def)
  have c3: "RetryCount (Status ?gw) = 3" "RetryCount (Status ?gf) = 3" by simp_all
  from retry_ceiling[OF w k N3(1), of "[]" quiet_env] h q
  have "\<exists>c' gw'. Reconcile quiet_env example_key exhausted_cluster = (c', \<lparr> RequeueAfter = 0 \<rparr>, None) \<and>
      workloads c' example_key = Some gw' \<and> Phase (Status gw') = PhaseFailed \<and>
      Message (Status gw') = ''Failed to schedule after '' @ Sprintf_d 3 @ '' retries'' \<and>
      RetryCount (Status gw') = RetryCount (Status ?gw)"
    unfolding c3 by blast
  then have C: "\<exists>c' gw'. Reconcile quiet_env example_key exhausted_cluster = (c', \<lparr> RequeueAfter = 0 \<rparr>, None) \<and>
      workloads c' example_key = Some gw' \<and> Phase (Status gw') = PhaseFailed \<and>
      Message (Status gw') = ''Failed to schedule after 3 retries'' \<and>
      RetryCount (Status gw') = 3"
    unfolding Sprintf_d_3 c3 by simp
  have wf: "workloads ?cf example_key = Some ?gf"
    by (simp add: set_phase_def w)
  have kf: "key_of ?gf = example_key" using k by simp
  have pf: "Phase (Status ?gf) = PhaseFailed" by simp
  from retry_ceiling[OF wf kf N3(2), of "[quiet_env, quiet_env]" quiet_env] pf
  have "case workloads (Reconcile_passes [quiet_env, quiet_env] example_key ?cf) example_key of
      None \<Rightarrow> True
    | Some gw' \<Rightarrow> Spec gw' = Spec ?gf \<and> Phase (Status gw') = PhaseFailed \<and>
                   RetryCount (Status gw') = RetryCount (Status ?gf)"
    unfolding c3 by simp
  then have D: "case workloads (Reconcile_passes [quiet_env, quiet_env] example_key ?cf) example_key of
      None \<Rightarrow> True
    | Some gw' \<Rightarrow> Phase (Status gw') = PhaseFailed \<and> RetryCount (Status gw') = 3"
    unfolding c3 by (simp split: option.splits)
  from wp(1) kp(1) rp(1,2) A policy_cluster_exhausted rp(3) B C D show ?thesis
    by (intro conjI)
qed

subsection \<open>C4: transient failures\<close>

text \<open>
  Claim C4 says that every transient failure of a pass (the listing of the nodes fails,
  no node is ready or capable, the creation of the Job fails) leaves the phase Pending,
  requeues with backoff and increments the retry counter. The counter is not touched on
  two of these paths: for the example workload with retry counter 0, a pass in which
  the listing fails, and a pass on a cluster without nodes, both store the counter 0
  again and requeue after the base delay of 30 seconds.
\<close>

theorem transient_failure_counterexample:
  "map_option (RetryCount \<circ> Status) (workloads (example_cluster example_workload [example_node]) example_key) = Some 0 \<and>
   map_option (RetryCount \<circ> Status)
     (workloads (fst (Reconcile list_fails_env example_key
        (example_cluster example_workload [example_node]))) example_key) = Some 0 \<and>
   snd (Reconcile list_fails_env example_key (example_cluster example_workload [example_node])) =
     (\<lparr> RequeueAfter = 30 * Second \<rparr>, None) \<and>
   map_option (RetryCount \<circ> Status)
     (workloads (fst (Reconcile quiet_env example_key empty_cluster)) example_key) = Some 0 \<and>
   snd (Reconcile quiet_env example_key empty_cluster) = (\<lparr> RequeueAfter = 30 * Second \<rparr>, None)"
  by code_simp


text \<open>
  Claim C4 as the code has it, for a pass on a stored workload that is not placed, not
  marked for deletion and below its retry ceiling \<open>N\<close> with a retry counter from 0 on,
  whose fetch, finalizer update and first status update succeed; \<open>base\<close> is the
  \<open>backoffSeconds\<close> of the retry policy when there is a policy and that number is
  positive, and 30 seconds otherwise. On each of the four paths the pass returns, without
  error, a requeue after a positive delay between \<open>v = min (base * 2 ^ min (n, 10), 5 minutes)\<close>
  and \<open>v\<close> plus one tenth, where the retry counter \<open>n\<close> is the one the workload had when
  the listing of the nodes fails and when no node is ready with GPUs, and that counter
  plus one when the strategy finds no node and when the creation of the Job fails. When
  the status update of the pass succeeds the workload is stored in phase Pending with
  the retry counter \<open>n\<close>; when that update fails the requeue is the same and the stored
  retry counter is the one the workload had.
\<close>

theorem transient_failures:
  assumes "workloads c key = Some gw" and "key_of gw = key"
    and "\<not> already_scheduled gw" and "DeletionTimestamp gw = None"
    and "N = (case RetryPolicy (Spec gw) of
                None \<Rightarrow> 3
              | Some policy \<Rightarrow> if 0 < MaxRetries policy then MaxRetries policy else 3)"
    and "0 \<le> RetryCount (Status gw)" and "RetryCount (Status gw) < N" and "N < 2 ^ 31"
    and "base = (case RetryPolicy (Spec gw) of
                   None \<Rightarrow> 30
                 | Some policy \<Rightarrow> if 0 < BackoffSeconds policy then BackoffSeconds policy else 30)
                * Second"
    and "base < 2 ^ 53"
    and "0 \<le> rand_Float64 env" and "rand_Float64 env < 1"
    and "err_Get env = None" and "err_Update env = None" and "err_StatusInit env = None"
  shows "(\<forall>e. err_List env = Some e \<longrightarrow>
            transient_outcome (err_Status env = None) key gw base (RetryCount (Status gw))
              (Reconcile env key c)) \<and>
         (err_List env = None \<and>
          filter (\<lambda>node. isNodeReady node \<and> hasGPUs node) (nodeItems c) = [] \<longrightarrow>
            transient_outcome (err_Status env = None) key gw base (RetryCount (Status gw))
              (Reconcile env key c)) \<and>
         (\<forall>err. err_List env = None \<and>
            filter (\<lambda>node. isNodeReady node \<and> hasGPUs node) (nodeItems c) \<noteq> [] \<and>
            ChooseNode (Factory (if SchedulingStrategy (Spec gw) = [] then ''leastLoaded''
                                 else SchedulingStrategy (Spec gw)))
              (rand_Intn env) (filter (\<lambda>node. isNodeReady node \<and> hasGPUs node) (nodeItems c)) gw
              = Inl err \<and> err \<noteq> NilPointerDereference \<longrightarrow>
            transient_outcome (err_Status env = None) key gw base (RetryCount (Status gw) + 1)
              (Reconcile env key c)) \<and>
         (\<forall>node e. err_List env = None \<and>
            filter (\<lambda>node. isNodeReady node \<and> hasGPUs node) (nodeItems c) \<noteq> [] \<and>
            ChooseNode (Factory (if SchedulingStrategy (Spec gw) = [] then ''leastLoaded''
                                 else SchedulingStrategy (Spec gw)))
              (rand_Intn env) (filter (\<lambda>node. isNodeReady node \<and> hasGPUs node) (nodeItems c)) gw
              = Inr node \<and>
            8 \<le> length (UID gw) \<and>
            (err_JobGet env \<noteq> None \<or> jobs c (Namespace gw, jobName_of gw) = None) \<and>
            err_JobCreate env = Some e \<longrightarrow>
            transient_outcome (err_Status env = None) key gw base (RetryCount (Status gw) + 1)
              (Reconcile env key c))"
proof -
  note w = assms(1) and k = assms(2) and ns = assms(3) and nd = assms(4) and N = assms(5)
    and n0 = assms(6) and lt = assms(7) and Nu = assms(8) and base = assms(9) and bu = assms(10)
    and r = assms(11,12) and q = assms(13,14,15)
  let ?nodes = "filter (\<lambda>node. isNodeReady node \<and> hasGPUs node) (nodeItems c)"
  let ?strategy = "\<lambda>g. Factory (if SchedulingStrategy (Spec g) = [] then ''leastLoaded''
                                 else SchedulingStrategy (Spec g))"
  have mN: "maxRetries_of gw = N"
    unfolding N maxRetries_of_def by (cases "RetryPolicy (Spec gw)") simp_all
  from lt have lt': "RetryCount (Status gw) < maxRetries_of gw" by (simp only: mN)
  from Reconcile_reaches_schedule[OF w k ns nd lt' q] obtain c1 gw1 where
    R: "Reconcile env key c =
             (case schedule env gw1 c1 of
                (c', gw', res, err) \<Rightarrow>
                  (record_call (Metric_ReconcileDuration
                     (if Phase (Status gw') = PhaseScheduled \<or> Phase (Status gw') = PhaseRunning
                      then ''success'' else ''error'')) c', res, err))"
    and w1: "workloads c1 key = Some gw1" and k1: "key_of gw1 = key" and sp: "Spec gw1 = Spec gw"
    and id: "Name gw1 = Name gw" "Namespace gw1 = Namespace gw" "UID gw1 = UID gw"
    and rc: "RetryCount (Status gw1) = RetryCount (Status gw)"
    and fr: "jobs c1 = jobs c" "nodeItems c1 = nodeItems c"
    by blast
  from w1 k1 have w1': "workloads c1 (key_of gw1) = Some gw1" by simp
  from n0 rc have n1: "0 \<le> RetryCount (Status gw1)" by simp
  from lt Nu rc have n2: "RetryCount (Status gw1) + 1 < 2 ^ 31" by simp
  have A: "transient_outcome (err_Status env = None) key gw base (RetryCount (Status gw))
             (Reconcile env key c)"
    if "err_List env = Some e" for e
    using transient_outcome_Reconcile[OF R]
      schedule_list_error[OF w1' sp rc base bu n1 r that]
    unfolding k1 rc by simp
  have B: "transient_outcome (err_Status env = None) key gw base (RetryCount (Status gw))
             (Reconcile env key c)"
    if "err_List env = None" "?nodes = []"
  proof -
    from that(2) fr have "filter (\<lambda>node. isNodeReady node \<and> hasGPUs node) (nodeItems c1) = []"
      by simp
    from transient_outcome_Reconcile[OF R]
      schedule_no_nodes[OF w1' sp rc base bu n1 r that(1) this]
    show ?thesis unfolding k1 rc by simp
  qed
  have C: "transient_outcome (err_Status env = None) key gw base (RetryCount (Status gw) + 1)
             (Reconcile env key c)"
    if "err_List env = None" "?nodes \<noteq> []"
      "ChooseNode (?strategy gw) (rand_Intn env) ?nodes gw = Inl err" "err \<noteq> NilPointerDereference"
    for err
  proof -
    from that(2) fr have ne: "filter (\<lambda>node. isNodeReady node \<and> hasGPUs node) (nodeItems c1) \<noteq> []"
      by simp
    have ch: "ChooseNode (?strategy gw1) (rand_Intn env)
            (filter (\<lambda>node. isNodeReady node \<and> hasGPUs node) (nodeItems c1)) gw1 = Inl err"
      unfolding ChooseNode_Spec[OF sp] sp fr(2) by (rule that(3))
    from transient_outcome_Reconcile[OF R]
      schedule_no_capable_node[OF w1' sp rc base bu n1 n2 r that(1) ne ch that(4)]
    show ?thesis unfolding k1 rc by simp
  qed
  have D: "transient_outcome (err_Status env = None) key gw base (RetryCount (Status gw) + 1)
             (Reconcile env key c)"
    if "err_List env = None" "?nodes \<noteq> []"
      "ChooseNode (?strategy gw) (rand_Intn env) ?nodes gw = Inr node"
      "8 \<le> length (UID gw)"
      "err_JobGet env \<noteq> None \<or> jobs c (Namespace gw, jobName_of gw) = None"
      "err_JobCreate env = Some e"
    for node e
  proof -
    from that(2) fr have ne: "filter (\<lambda>node. isNodeReady node \<and> hasGPUs node) (nodeItems c1) \<noteq> []"
      by simp
    have ch: "ChooseNode (?strategy gw1) (rand_Intn env)
            (filter (\<lambda>node. isNodeReady node \<and> hasGPUs node) (nodeItems c1)) gw1 = Inr node"
      unfolding ChooseNode_Spec[OF sp] sp fr(2) by (rule that(3))
    have jn: "jobName_of gw1 = jobName_of gw" using id by (simp add: jobName_of_def)
    have u1: "8 \<le> length (UID gw1)" using that(4) id by simp
    have g1: "err_JobGet env \<noteq> None \<or> jobs c1 (Namespace gw1, jobName_of gw1) = None"
      using that(5) jn id fr by simp
    from transient_outcome_Reconcile[OF R]
      schedule_create_fails[OF w1' sp rc base bu n1 n2 r that(1) ne ch u1 g1 that(6)]
    show ?thesis unfolding k1 rc by simp
  qed
  from A B C D show ?thesis by blast
qed

text \<open>
  The theorem at work on the example workload, whose base delay is 30 seconds: the
  listing fails; the cluster has no node; the only node has one GPU where two are asked
  for; the creation of the Job fails; and the only node has one GPU while the status
  update fails too. The delay is between 30 and 33 seconds with the retry counter 0 and
  between 60 and 66 seconds with the retry counter 1. For the workload with a policy of
  10 seconds the delay with the retry counter 1 is between 20 and 22 seconds.
\<close>

theorem transient_failures_witness:
  "workloads starved_cluster example_key = Some example_workload \<and>
   key_of example_workload = example_key \<and> \<not> already_scheduled example_workload \<and>
   DeletionTimestamp example_workload = None \<and>
   RetryPolicy (Spec example_workload) = None \<and> RetryCount (Status example_workload) = 0 \<and>
   err_List list_fails_env = Some ServerError \<and>
   (\<exists>c' d gw'. Reconcile list_fails_env example_key starved_cluster = (c', \<lparr> RequeueAfter = d \<rparr>, None) \<and>
      30 * Second \<le> d \<and> d \<le> 33 * Second \<and> workloads c' example_key = Some gw' \<and>
      Phase (Status gw') = PhasePending \<and> RetryCount (Status gw') = 0) \<and>
   filter (\<lambda>node. isNodeReady node \<and> hasGPUs node) (nodeItems empty_cluster) = [] \<and>
   (\<exists>c' d gw'. Reconcile quiet_env example_key empty_cluster = (c', \<lparr> RequeueAfter = d \<rparr>, None) \<and>
      30 * Second \<le> d \<and> d \<le> 33 * Second \<and> workloads c' example_key = Some gw' \<and>
      Phase (Status gw') = PhasePending \<and> RetryCount (Status gw') = 0) \<and>
   ChooseNode (Factory ''leastLoaded'') (rand_Intn quiet_env) [small_node] example_workload =
     Inl (NotEnoughGPUs 2) \<and>
   (\<exists>c' d gw'. Reconcile quiet_env example_key starved_cluster = (c', \<lparr> RequeueAfter = d \<rparr>, None) \<and>
      60 * Second \<le> d \<and> d \<le> 66 * Second \<and> workloads c' example_key = Some gw' \<and>
      Phase (Status gw') = PhasePending \<and> RetryCount (Status gw') = 1) \<and>
   ChooseNode (Factory ''leastLoaded'') (rand_Intn create_fails_env) [example_node] example_workload =
     Inr example_node \<and>
   err_JobCreate create_fails_env = Some ServerError \<and>
   (\<exists>c' d gw'. Reconcile create_fails_env example_key (example_cluster example_workload [example_node]) =
        (c', \<lparr> RequeueAfter = d \<rparr>, None) \<and>
      60 * Second \<le> d \<and> d \<le> 66 * Second \<and> workloads c' example_key = Some gw' \<and>
      Phase (Status gw') = PhasePending \<and> RetryCount (Status gw') = 1) \<and>
   err_Status status_fails_env = Some Conflict \<and>
   (\<exists>c' d gw'. Reconcile status_fails_env example_key starved_cluster = (c', \<lparr> RequeueAfter = d \<rparr>, None) \<and>
      60 * Second \<le> d \<and> d \<le> 66 * Second \<and> workloads c' example_key = Some gw' \<and>
      RetryCount (Status gw') = 0) \<and>
   RetryPolicy (Spec policy_workload) = Some \<lparr> MaxRetries = 2, BackoffSeconds = 10 \<rparr> \<and>
   (\<exists>c' d gw'. Reconcile quiet_env example_key (example_cluster policy_workload [small_node]) =
        (c', \<lparr> RequeueAfter = d \<rparr>, None) \<and>
      20 * Second \<le> d \<and> d \<le> 22 * Second \<and> workloads c' example_key = Some gw' \<and>
      Phase (Status gw') = PhasePending \<and> RetryCount (Status gw') = 1)"
proof -
  let ?gw = example_workload
  let ?c = "example_cluster example_workload [example_node]"
  have k: "key_of ?gw = example_key" by (simp add: key_of_def example_workload_def example_key_def)
  have w: "workloads starved_cluster example_key = Some ?gw"
    "workloads empty_cluster example_key = Some ?gw" "workloads ?c example_key = Some ?gw"
    using k by (simp_all add: starved_cluster_def empty_cluster_def example_cluster_def)
  have ns: "\<not> already_scheduled ?gw"
    by (simp add: already_scheduled_def example_workload_def PhaseScheduled_def PhaseRunning_def
        PhaseSucceeded_def)
  have nd: "DeletionTimestamp ?gw = None" by (simp add: example_workload_def)
  have rp: "RetryPolicy (Spec ?gw) = None" and m: "RetryCount (Status ?gw) = 0"
    by (simp_all add: example_workload_def)
  have N: "3 = (case RetryPolicy (Spec ?gw) of
                None \<Rightarrow> 3
              | Some policy \<Rightarrow> if 0 < MaxRetries policy then MaxRetries policy else (3::int))"
    by (simp add: rp)
  have b: "30 * Second = (case RetryPolicy (Spec ?gw) of
                   None \<Rightarrow> 30
                 | Some policy \<Rightarrow> if 0 < BackoffSeconds policy then BackoffSeconds policy else 30)
                * Second"
    by (simp add: rp)
  have bu: "30 * Second < 2 ^ 53" by (simp add: Second_def)
  have h: "0 \<le> RetryCount (Status ?gw)" "RetryCount (Status ?gw) < 3" "(3::int) < 2 ^ 31"
    by (simp_all add: m)
  have q: "err_Get quiet_env = None" "err_Update quiet_env = None"
    "err_StatusInit quiet_env = None" "err_Status quiet_env = None" "err_List quiet_env = None"
    "0 \<le> rand_Float64 quiet_env" "rand_Float64 quiet_env < 1"
    by (simp_all add: quiet_env_def)
  have ql: "err_Get list_fails_env = None" "err_Update list_fails_env = None"
    "err_StatusInit list_fails_env = None" "err_Status list_fails_env = None"
    "err_List list_fails_env = Some ServerError"
    "0 \<le> rand_Float64 list_fails_env" "rand_Float64 list_fails_env < 1"
    by (simp_all add: quiet_env_def list_fails_env_def)
  have qc: "err_Get create_fails_env = None" "err_Update create_fails_env = None"
    "err_StatusInit create_fails_env = None" "err_Status create_fails_env = None"
    "err_List create_fails_env = None" "err_JobCreate create_fails_env = Some ServerError"
    "0 \<le> rand_Float64 create_fails_env" "rand_Float64 create_fails_env < 1"
    by (simp_all add: quiet_env_def create_fails_env_def)
  have qs: "err_Get status_fails_env = None" "err_Update status_fails_env = None"
    "err_StatusInit status_fails_env = None" "err_Status status_fails_env = Some Conflict"
    "err_List status_fails_env = None"
    "0 \<le> rand_Float64 status_fails_env" "rand_Float64 status_fails_env < 1"
    "rand_Intn status_fails_env = rand_Intn quiet_env"
    by (simp_all add: quiet_env_def status_fails_env_def)
  have st: "SchedulingStrategy (Spec ?gw) = ''leastLoaded''" by (simp add: example_workload_def)
  have rd: "isNodeReady small_node" "hasGPUs small_node" "isNodeReady example_node" "hasGPUs example_node"
    by (simp_all add: small_node_def example_node_def createMockNode_def isNodeReady_def hasGPUs_def)
  have n0: "filter (\<lambda>node. isNodeReady node \<and> hasGPUs node) (nodeItems empty_cluster) = []"
    by (simp add: empty_cluster_def example_cluster_def)
  have n1: "filter (\<lambda>node. isNodeReady node \<and> hasGPUs node) (nodeItems starved_cluster) = [small_node]"
    by (simp add: starved_cluster_def example_cluster_def rd)
  have n2: "filter (\<lambda>node. isNodeReady node \<and> hasGPUs node) (nodeItems ?c) = [example_node]"
    by (simp add: example_cluster_def rd)
  have g: "GPUCount (Spec ?gw) = 2" by (simp add: example_workload_def)
  have c1: "ChooseNode (Factory ''leastLoaded'') r [small_node] ?gw = Inl (NotEnoughGPUs 2)" for r
    by (simp add: Factory_def ChooseNode_def LeastLoaded_ChooseNode_def LeastLoaded_index_def
        small_node_def g)
  have c2: "ChooseNode (Factory ''leastLoaded'') r [example_node] ?gw = Inr example_node" for r
    by (simp add: Factory_def ChooseNode_def LeastLoaded_ChooseNode_def LeastLoaded_index_def
        example_node_def g)
  have u: "8 \<le> length (UID ?gw)" by (simp add: example_workload_def)
  have j: "jobs ?c (Namespace ?gw, jobName_of ?gw) = None" by (simp add: example_cluster_def)
  have d0: "30 * Second \<le> d \<and> d \<le> 33 * Second" if "backoff_delay (30 * Second) 0 d" for d
    using that by (simp add: backoff_delay_def Let_def Second_def Minute_def)
  have d1: "60 * Second \<le> d \<and> d \<le> 66 * Second" if "backoff_delay (30 * Second) (0 + 1) d" for d
    using that by (simp add: backoff_delay_def Let_def Second_def Minute_def)
  have out: "\<exists>c' d gw'. out = (c', \<lparr> RequeueAfter = d \<rparr>, None) \<and> backoff_delay base n d \<and>
        workloads c' example_key = Some gw' \<and>
        (if recorded then Phase (Status gw') = PhasePending \<and> RetryCount (Status gw') = n
         else RetryCount (Status gw') = RetryCount (Status g))"
    if "transient_outcome recorded example_key g base n out" for recorded g base n out
  proof -
    obtain c' res err where o: "out = (c', res, err)" by (cases out) auto
    obtain d where res: "res = \<lparr> RequeueAfter = d \<rparr>" by (cases res) auto
    from that show ?thesis unfolding o res transient_outcome_def
      by (cases "workloads c' example_key") auto
  qed
  from transient_failures[OF w(1) k ns nd N h b bu ql(6,7) ql(1-3)] ql(5)
  have "transient_outcome (err_Status list_fails_env = None) example_key ?gw (30 * Second) 0
             (Reconcile list_fails_env example_key starved_cluster)"
    unfolding m by blast
  from out[OF this] d0 ql(4)
  have A: "\<exists>c' d gw'. Reconcile list_fails_env example_key starved_cluster = (c', \<lparr> RequeueAfter = d \<rparr>, None) \<and>
      30 * Second \<le> d \<and> d \<le> 33 * Second \<and> workloads c' example_key = Some gw' \<and>
      Phase (Status gw') = PhasePending \<and> RetryCount (Status gw') = 0"
    by fastforce
  from transient_failures[OF w(2) k ns nd N h b bu q(6,7) q(1-3)] q(5) n0
  have "transient_outcome (err_Status quiet_env = None) example_key ?gw (30 * Second) 0
          (Reconcile quiet_env example_key empty_cluster)"
    unfolding m by blast
  from out[OF this] d0 q(4)
  have B: "\<exists>c' d gw'. Reconcile quiet_env example_key empty_cluster = (c', \<lparr> RequeueAfter = d \<rparr>, None) \<and>
      30 * Second \<le> d \<and> d \<le> 33 * Second \<and> workloads c' example_key = Some gw' \<and>
      Phase (Status gw') = PhasePending \<and> RetryCount (Status gw') = 0"
    by fastforce
  from transient_failures[OF w(1) k ns nd N h b bu q(6,7) q(1-3)] q(5) c1[of "rand_Intn quiet_env"]
  have "transient_outcome (err_Status quiet_env = None) example_key ?gw (30 * Second) (0 + 1)
          (Reconcile quiet_env example_key starved_cluster)"
    unfolding m n1 st by auto
  from out[OF this] d1 q(4)
  have C: "\<exists>c' d gw'. Reconcile quiet_env example_key starved_cluster = (c', \<lparr> RequeueAfter = d \<rparr>, None) \<and>
      60 * Second \<le> d \<and> d \<le> 66 * Second \<and> workloads c' example_key = Some gw' \<and>
      Phase (Status gw') = PhasePending \<and> RetryCount (Status gw') = 1"
    by fastforce
  from transient_failures[OF w(3) k ns nd N h b bu qc(7,8) qc(1-3)] qc(5,6)
    c2[of "rand_Intn create_fails_env"] u j
  have "transient_outcome (err_Status create_fails_env = None) example_key ?gw (30 * Second) (0 + 1)
             (Reconcile create_fails_env example_key ?c)"
    unfolding m n2 st by auto
  from out[OF this] d1 qc(4)
  have D: "\<exists>c' d gw'. Reconcile create_fails_env example_key ?c = (c', \<lparr> RequeueAfter = d \<rparr>, None) \<and>
      60 * Second \<le> d \<and> d \<le> 66 * Second \<and> workloads c' example_key = Some gw' \<and>
      Phase (Status gw') = PhasePending \<and> RetryCount (Status gw') = 1"
    by fastforce
  from transient_failures[OF w(1) k ns nd N h b bu qs(6,7) qs(1-3)] qs(5)
    c1[of "rand_Intn status_fails_env"]
  have "transient_outcome (err_Status status_fails_env = None) example_key ?gw (30 * Second) (0 + 1)
          (Reconcile status_fails_env example_key starved_cluster)"
    unfolding m n1 st by auto
  from out[OF this] d1 qs(4) m
  have E: "\<exists>c' d gw'. Reconcile status_fails_env example_key starved_cluster =
        (c', \<lparr> RequeueAfter = d \<rparr>, None) \<and>
      60 * Second \<le> d \<and> d \<le> 66 * Second \<and> workloads c' example_key = Some gw' \<and>
      RetryCount (Status gw') = 0"
    by fastforce
  let ?p = policy_workload
  let ?cp = "example_cluster policy_workload [small_node]"
  have kp: "key_of ?p = example_key"
    by (simp add: key_of_def policy_workload_def example_workload_def example_key_def)
  have wp: "workloads ?cp example_key = Some ?p" using kp by (simp add: example_cluster_def)
  have nsp: "\<not> already_scheduled ?p"
    by (simp add: already_scheduled_def policy_workload_def example_workload_def PhaseScheduled_def
        PhaseRunning_def PhaseSucceeded_def)
  have ndp: "DeletionTimestamp ?p = None" by (simp add: policy_workload_def example_workload_def)
  have rpp: "RetryPolicy (Spec ?p) = Some \<lparr> MaxRetries = 2, BackoffSeconds = 10 \<rparr>"
    and mp: "RetryCount (Status ?p) = 0"
    and stp: "SchedulingStrategy (Spec ?p) = ''leastLoaded''"
    and gp: "GPUCount (Spec ?p) = 2"
    by (simp_all add: policy_workload_def example_workload_def)
  have Np: "2 = (case RetryPolicy (Spec ?p) of
                None \<Rightarrow> 3
              | Some policy \<Rightarrow> if 0 < MaxRetries policy then MaxRetries policy else (3::int))"
    by (simp add: rpp)
  have bp: "10 * Second = (case RetryPolicy (Spec ?p) of
                   None \<Rightarrow> 30
                 | Some policy \<Rightarrow> if 0 < BackoffSeconds policy then BackoffSeconds policy else 30)
                * Second"
    by (simp add: rpp)
  have bup: "10 * Second < 2 ^ 53" by (simp add: Second_def)
  have hp: "0 \<le> RetryCount (Status ?p)" "RetryCount (Status ?p) < 2" "(2::int) < 2 ^ 31"
    by (simp_all add: mp)
  have np: "filter (\<lambda>node. isNodeReady node \<and> hasGPUs node) (nodeItems ?cp) = [small_node]"
    by (simp add: example_cluster_def rd)
  have cp: "ChooseNode (Factory ''leastLoaded'') r [small_node] ?p = Inl (NotEnoughGPUs 2)" for r
    by (simp add: Factory_def ChooseNode_def LeastLoaded_ChooseNode_def LeastLoaded_index_def
        small_node_def gp)
  have dp: "20 * Second \<le> d \<and> d \<le> 22 * Second" if "backoff_delay (10 * Second) (0 + 1) d" for d
    using that by (simp add: backoff_delay_def Let_def Second_def Minute_def)
  from transient_failures[OF wp kp nsp ndp Np hp bp bup q(6,7) q(1-3)] q(5) cp[of "rand_Intn quiet_env"]
  have "transient_outcome (err_Status quiet_env = None) example_key ?p (10 * Second) (0 + 1)
          (Reconcile quiet_env example_key ?cp)"
    unfolding mp np stp by auto
  from out[OF this] dp q(4)
  have F: "\<exists>c' d gw'. Reconcile quiet_env example_key ?cp = (c', \<lparr> RequeueAfter = d \<rparr>, None) \<and>
      20 * Second \<le> d \<and> d \<le> 22 * Second \<and> workloads c' example_key = Some gw' \<and>
      Phase (Status gw') = PhasePending \<and> RetryCount (Status gw') = 1"
    by fastforce
  from w(1) k ns nd rp m ql(5) A n0 B c1 C c2 qc(6) D qs(4) E rpp F show ?thesis
    by (intro conjI) simp_all
qed

subsection \<open>C8: the capped exponential delay and its jitter\<close>

text \<open>
  Claim C8 says that for every base above 0 and every attempt from 0 on the delay is
  \<open>min (base * 2 ^ min (attempt, 10), 5 minutes)\<close> plus a jitter that is strictly below one tenth
  of that value, so that the delay for a base of 30 seconds and attempt 0 is below 33
  seconds. The jitter reaches one tenth:
  with the largest value that \<open>rand.Float64()\<close> can return the delay for 30 seconds is
  33 seconds at attempt 0 and 66 seconds at attempt 1. And the claim cannot hold for
  every base: for a base of \<open>2\<^sup>5\<^sup>3\<close> nanoseconds and attempt 10 the product is \<open>2\<^sup>6\<^sup>3\<close>, which
  no \<open>time.Duration\<close> holds.
\<close>

theorem NextBackoff_jitter_counterexample:
  "0 \<le> max_rand_Float64 \<and> max_rand_Float64 < 1 \<and>
   NextBackoff (30 * Second) 0 max_rand_Float64 = Some (33 * Second) \<and>
   NextBackoff (30 * Second) 1 max_rand_Float64 = Some (66 * Second) \<and>
   NextBackoff (2 ^ 53) 10 0 = None"
  by code_simp

text \<open>
  Claim C8 as the code has it, for a random number in \<open>[0, 1)\<close>: for a base above 0 and
  below \<open>2\<^sup>5\<^sup>3\<close> nanoseconds and an attempt from 0 on, the delay is
  \<open>v = min (base * 2 ^ min (attempt, 10), 5 minutes)\<close> plus a jitter between 0 and \<open>v / 10\<close>, both
  ends included. The attempt is clamped at 10 before the power is taken, and the cap is
  applied before the jitter is added. So for a base of 30 seconds the delay is between
  30 and 33 seconds at attempt 0, between 60 and 66 seconds at attempt 1, and between 5
  minutes and 5 minutes 30 seconds at attempt 100.
\<close>

theorem NextBackoff_capped_exponential_with_jitter:
  assumes "0 \<le> rnd" and "rnd < 1"
  shows "(0 < base \<and> base < 2 ^ 53 \<and> 0 \<le> attempt \<longrightarrow>
            (\<exists>jitter.
               NextBackoff base attempt rnd =
                 Some (min (base * 2 ^ nat (min attempt 10)) (5 * Minute) + jitter) \<and>
               0 \<le> jitter \<and>
               10 * jitter \<le> min (base * 2 ^ nat (min attempt 10)) (5 * Minute))) \<and>
         (\<exists>d. NextBackoff (30 * Second) 0 rnd = Some d \<and> 30 * Second \<le> d \<and> d \<le> 33 * Second) \<and>
         (\<exists>d. NextBackoff (30 * Second) 1 rnd = Some d \<and> 60 * Second \<le> d \<and> d \<le> 66 * Second) \<and>
         (\<exists>d. NextBackoff (30 * Second) 100 rnd = Some d \<and> 5 * Minute \<le> d \<and>
              d \<le> 5 * Minute + 30 * Second)"
proof -
  have G: "\<exists>jitter.
               NextBackoff base attempt rnd =
                 Some (min (base * 2 ^ nat (min attempt 10)) (5 * Minute) + jitter) \<and>
               0 \<le> jitter \<and>
               10 * jitter \<le> min (base * 2 ^ nat (min attempt 10)) (5 * Minute)"
    if "0 < base" "base < 2 ^ 53" "0 \<le> attempt" for base attempt
    using that assms by (rule NextBackoff_pos_base)
  have h: "(0::int) < 30 * Second" "30 * Second < 2 ^ 53"
    by (simp_all add: Second_def)
  have v0: "min (30 * Second * 2 ^ nat (min 0 10)) (5 * Minute) = 30 * Second"
    by (simp add: Second_def Minute_def)
  have v1: "min (30 * Second * 2 ^ nat (min 1 10)) (5 * Minute) = 60 * Second"
    by (simp add: Second_def Minute_def)
  have v100: "min (30 * Second * 2 ^ nat (min 100 10)) (5 * Minute) = 5 * Minute"
    by (simp add: Second_def Minute_def)
  from G[OF h, of 0] obtain j0 where j0:
    "NextBackoff (30 * Second) 0 rnd = Some (30 * Second + j0)" "0 \<le> j0" "10 * j0 \<le> 30 * Second"
    unfolding v0 by auto
  have A: "\<exists>d. NextBackoff (30 * Second) 0 rnd = Some d \<and> 30 * Second \<le> d \<and> d \<le> 33 * Second"
    using j0 by (intro exI[of _ "30 * Second + j0"]) (simp add: Second_def)
  from G[OF h, of 1] obtain j1 where j1:
    "NextBackoff (30 * Second) 1 rnd = Some (60 * Second + j1)" "0 \<le> j1" "10 * j1 \<le> 60 * Second"
    unfolding v1 by auto
  have B: "\<exists>d. NextBackoff (30 * Second) 1 rnd = Some d \<and> 60 * Second \<le> d \<and> d \<le> 66 * Second"
    using j1 by (intro exI[of _ "60 * Second + j1"]) (simp add: Second_def)
  from G[OF h, of 100] obtain j2 where j2:
    "NextBackoff (30 * Second) 100 rnd = Some (5 * Minute + j2)" "0 \<le> j2" "10 * j2 \<le> 5 * Minute"
    unfolding v100 by auto
  have C: "\<exists>d. NextBackoff (30 * Second) 100 rnd = Some d \<and> 5 * Minute \<le> d \<and>
              d \<le> 5 * Minute + 30 * Second"
    using j2 by (intro exI[of _ "5 * Minute + j2"]) (simp add: Second_def Minute_def)
  from G A B C show ?thesis by blast
qed

text \<open>
  The theorem at work with the random number three quarters: a base of 10 seconds at
  attempt 2 gives a delay between 40 and 44 seconds, and a base of 30 seconds a delay
  between 30 and 33 seconds at attempt 0.
\<close>

theorem NextBackoff_capped_exponential_with_jitter_witness:
  "(0::rat) \<le> 3 / 4 \<and> (3 / 4 :: rat) < 1 \<and>
   (0::int) < 10 * Second \<and> 10 * Second < 2 ^ 53 \<and> (0::int) \<le> 2 \<and>
   (\<exists>d. NextBackoff (10 * Second) 2 (3 / 4) = Some d \<and> 40 * Second \<le> d \<and> d \<le> 44 * Second) \<and>
   (\<exists>d. NextBackoff (30 * Second) 0 (3 / 4) = Some d \<and> 30 * Second \<le> d \<and> d \<le> 33 * Second)"
proof -
  have r: "(0::rat) \<le> 3 / 4" "(3 / 4 :: rat) < 1" by simp_all
  have h: "(0::int) < 10 * Second" "10 * Second < 2 ^ 53" "(0::int) \<le> 2"
    by (simp_all add: Second_def)
  have v: "min (10 * Second * 2 ^ nat (min 2 10)) (5 * Minute) = 40 * Second"
    by (simp add: Second_def Minute_def)
  note T = NextBackoff_capped_exponential_with_jitter[OF r]
  from T[of "10 * Second" 2] h obtain j where j:
    "NextBackoff (10 * Second) 2 (3 / 4) = Some (40 * Second + j)" "0 \<le> j" "10 * j \<le> 40 * Second"
    unfolding v by blast
  have A: "\<exists>d. NextBackoff (10 * Second) 2 (3 / 4) = Some d \<and> 40 * Second \<le> d \<and> d \<le> 44 * Second"
    using j by (intro exI[of _ "40 * Second + j"]) (simp add: Second_def)
  from T[of 1 0]
  have B: "\<exists>d. NextBackoff (30 * Second) 0 (3 / 4) = Some d \<and> 30 * Second \<le> d \<and> d \<le> 33 * Second"
    by blast
  from r h A B show ?thesis by (intro conjI)
qed

subsection \<open>C9: negative attempts and bases\<close>




end
